(* ===== verification/Prelude.thy ===== *)
theory Prelude
  imports Main "HOL-Library.State_Monad"
begin

text \<open>
  Shared vocabulary of the development: the functions of Go's \<open>strings\<close>, \<open>strconv\<close> and
  \<open>fmt\<close> packages that adtler uses, on strings read as lists of bytes, and the list and
  option facts the component theories share.

  Case mapping and white space are those of ASCII: \<open>to_lower\<close>, \<open>to_upper\<close>, \<open>equal_fold\<close>
  and \<open>trim_space\<close> leave bytes from 128 upwards alone. The strings the code maps are SAP
  names, transport numbers, URIs and header values, which are ASCII.
\<close>

named_theorems go_str "rewrite rules for Go's string functions"

section \<open>Characters\<close>

abbreviation NL :: char where "NL \<equiv> CHR 0x0A"
abbreviation CR :: char where "CR \<equiv> CHR 0x0D"
abbreviation TAB :: char where "TAB \<equiv> CHR 0x09"
abbreviation QUOT :: char where "QUOT \<equiv> CHR 0x22"
abbreviation APOS :: char where "APOS \<equiv> CHR 0x27"
abbreviation BSL :: char where "BSL \<equiv> CHR 0x5C"
abbreviation CRLF :: string where "CRLF \<equiv> [CR, NL]"

definition is_upper :: "char \<Rightarrow> bool" where
  "is_upper c \<longleftrightarrow> 65 \<le> (of_char c :: nat) \<and> (of_char c :: nat) \<le> 90"

definition is_lower :: "char \<Rightarrow> bool" where
  "is_lower c \<longleftrightarrow> 97 \<le> (of_char c :: nat) \<and> (of_char c :: nat) \<le> 122"

definition is_digit :: "char \<Rightarrow> bool" where
  "is_digit c \<longleftrightarrow> 48 \<le> (of_char c :: nat) \<and> (of_char c :: nat) \<le> 57"

definition is_space :: "char \<Rightarrow> bool" where
  "is_space c \<longleftrightarrow> c = CHR '' '' \<or> (9 \<le> (of_char c :: nat) \<and> (of_char c :: nat) \<le> 13)"

definition lower_char :: "char \<Rightarrow> char" where
  "lower_char c = (if is_upper c then char_of ((of_char c :: nat) + 32) else c)"

definition upper_char :: "char \<Rightarrow> char" where
  "upper_char c = (if is_lower c then char_of ((of_char c :: nat) - 32) else c)"

definition to_lower :: "string \<Rightarrow> string" where
  "to_lower s = map lower_char s"

definition to_upper :: "string \<Rightarrow> string" where
  "to_upper s = map upper_char s"

definition equal_fold :: "string \<Rightarrow> string \<Rightarrow> bool" where
  "equal_fold s t \<longleftrightarrow> to_lower s = to_lower t"

lemma lower_char_idem [simp]: "lower_char (lower_char c) = lower_char c"
  by (simp add: lower_char_def is_upper_def)

lemma upper_char_idem [simp]: "upper_char (upper_char c) = upper_char c"
  by (auto simp: upper_char_def is_lower_def)

lemma lower_upper_char [simp]: "lower_char (upper_char c) = lower_char c"
  by (auto simp: lower_char_def upper_char_def is_upper_def is_lower_def)

lemma upper_lower_char [simp]: "upper_char (lower_char c) = upper_char c"
  by (auto simp: lower_char_def upper_char_def is_upper_def is_lower_def)

lemma to_lower_idem [simp]: "to_lower (to_lower s) = to_lower s"
  by (simp add: to_lower_def)

lemma to_upper_idem [simp]: "to_upper (to_upper s) = to_upper s"
  by (simp add: to_upper_def)

lemma to_lower_append [simp]: "to_lower (s @ t) = to_lower s @ to_lower t"
  by (simp add: to_lower_def)

lemma to_lower_Nil [simp]: "to_lower [] = []"
  by (simp add: to_lower_def)

lemma length_to_lower [simp]: "length (to_lower s) = length s"
  by (simp add: to_lower_def)

lemma equal_fold_upper: "equal_fold s t \<longleftrightarrow> to_upper s = to_upper t"
proof -
  have "map lower_char s = map lower_char t \<longleftrightarrow> map upper_char s = map upper_char t"
  proof
    assume "map lower_char s = map lower_char t"
    then have "map upper_char (map lower_char s) = map upper_char (map lower_char t)" by simp
    then show "map upper_char s = map upper_char t" by (simp add: comp_def)
  next
    assume "map upper_char s = map upper_char t"
    then have "map lower_char (map upper_char s) = map lower_char (map upper_char t)" by simp
    then show "map lower_char s = map lower_char t" by (simp add: comp_def)
  qed
  then show ?thesis by (simp add: equal_fold_def to_lower_def to_upper_def)
qed

lemma equal_fold_refl [simp]: "equal_fold s s"
  by (simp add: equal_fold_def)

section \<open>Prefixes, suffixes and searching\<close>

definition has_prefix :: "string \<Rightarrow> string \<Rightarrow> bool" where
  "has_prefix s p \<longleftrightarrow> take (length p) s = p"

definition has_suffix :: "string \<Rightarrow> string \<Rightarrow> bool" where
  "has_suffix s p \<longleftrightarrow> length p \<le> length s \<and> drop (length s - length p) s = p"

definition trim_prefix :: "string \<Rightarrow> string \<Rightarrow> string" where
  "trim_prefix s p = (if has_prefix s p then drop (length p) s else s)"

definition trim_suffix :: "string \<Rightarrow> string \<Rightarrow> string" where
  "trim_suffix s p = (if has_suffix s p then take (length s - length p) s else s)"

fun index_of :: "string \<Rightarrow> string \<Rightarrow> nat option" where
  "index_of [] sub = (if sub = [] then Some 0 else None)"
| "index_of (c # cs) sub =
     (if has_prefix (c # cs) sub then Some 0 else map_option Suc (index_of cs sub))"

definition contains_str :: "string \<Rightarrow> string \<Rightarrow> bool" where
  "contains_str s sub \<longleftrightarrow> index_of s sub \<noteq> None"

lemma has_prefix_append [simp]: "has_prefix (p @ s) p"
  by (simp add: has_prefix_def)

lemma has_prefix_Nil [simp]: "has_prefix s []"
  by (simp add: has_prefix_def)

lemma has_prefix_iff: "has_prefix s p \<longleftrightarrow> (\<exists>r. s = p @ r)"
proof
  assume "has_prefix s p"
  then have "s = p @ drop (length p) s" by (metis append_take_drop_id has_prefix_def)
  then show "\<exists>r. s = p @ r" ..
qed auto

lemma has_prefix_length: "has_prefix s p \<Longrightarrow> length p \<le> length s"
  by (auto simp: has_prefix_iff)

lemma has_suffix_append [simp]: "has_suffix (s @ p) p"
  by (simp add: has_suffix_def)

lemma has_suffix_iff: "has_suffix s p \<longleftrightarrow> (\<exists>r. s = r @ p)"
proof
  assume "has_suffix s p"
  then have "s = take (length s - length p) s @ p" by (metis append_take_drop_id has_suffix_def)
  then show "\<exists>r. s = r @ p" ..
qed auto

lemma trim_suffix_append [simp]: "trim_suffix (s @ p) p = s"
  by (simp add: trim_suffix_def)

lemma trim_prefix_append [simp]: "trim_prefix (p @ s) p = s"
  by (simp add: trim_prefix_def)

lemma index_of_Some:
  "index_of s sub = Some i \<Longrightarrow> i \<le> length s \<and> s = take i s @ sub @ drop (i + length sub) s"
proof (induction s arbitrary: i)
  case Nil
  then show ?case by (auto split: if_splits)
next
  case (Cons c cs)
  show ?case
  proof (cases "has_prefix (c # cs) sub")
    case True
    with Cons.prems have "i = 0" by simp
    with True show ?thesis by (simp add: has_prefix_def) (metis append_take_drop_id)
  next
    case False
    with Cons.prems obtain j where j: "index_of cs sub = Some j" "i = Suc j" by auto
    with Cons.IH [OF j(1)] show ?thesis by simp
  qed
qed

lemma index_of_None_not_prefix: "index_of s sub = None \<Longrightarrow> \<not> has_prefix s sub"
  by (cases s) (auto simp: has_prefix_def split: if_splits)

lemma index_of_None: "index_of s sub = None \<Longrightarrow> s \<noteq> p @ sub @ r"
proof (induction p arbitrary: s)
  case Nil
  then show ?case using index_of_None_not_prefix [of s sub] by (auto simp: has_prefix_iff)
next
  case (Cons c p)
  then show ?case by (cases s) (auto split: if_splits)
qed

lemma contains_str_iff: "contains_str s sub \<longleftrightarrow> (\<exists>p r. s = p @ sub @ r)"
proof
  assume "contains_str s sub"
  then obtain i where "index_of s sub = Some i" by (auto simp: contains_str_def)
  then show "\<exists>p r. s = p @ sub @ r" by (blast dest: index_of_Some)
next
  assume "\<exists>p r. s = p @ sub @ r"
  then obtain p r where "s = p @ sub @ r" by blast
  then show "contains_str s sub" using index_of_None [of s sub p r] by (auto simp: contains_str_def)
qed

lemma index_of_first:
  "index_of s sub = Some i \<Longrightarrow> j < i \<Longrightarrow> \<not> has_prefix (drop j s) sub"
proof (induction s arbitrary: i j)
  case Nil
  then show ?case by (auto split: if_splits)
next
  case (Cons c cs)
  then show ?case by (cases j) (auto split: if_splits)
qed

definition index_byte :: "string \<Rightarrow> char \<Rightarrow> nat option" where
  "index_byte s c = index_of s [c]"

lemma index_byte_Cons:
  "index_byte (x # xs) c = (if x = c then Some 0 else map_option Suc (index_byte xs c))"
  by (simp add: index_byte_def has_prefix_def)

lemma index_byte_Nil [simp]: "index_byte [] c = None"
  by (simp add: index_byte_def)

lemma index_byte_None: "index_byte s c = None \<longleftrightarrow> c \<notin> set s"
  by (induction s) (auto simp: index_byte_Cons)

lemma index_byte_Some:
  "index_byte s c = Some i \<Longrightarrow>
     i < length s \<and> s ! i = c \<and> c \<notin> set (take i s) \<and> s = take i s @ c # drop (Suc i) s"
  by (induction s arbitrary: i) (auto simp: index_byte_Cons split: if_splits)

section \<open>Splitting, joining and replacing\<close>

fun split_on :: "char \<Rightarrow> string \<Rightarrow> string list" where
  "split_on d [] = [[]]"
| "split_on d (c # cs) =
     (if c = d then [] # split_on d cs
      else (case split_on d cs of [] \<Rightarrow> [[c]] | w # ws \<Rightarrow> (c # w) # ws))"

fun join :: "string \<Rightarrow> string list \<Rightarrow> string" where
  "join sep [] = []"
| "join sep [x] = x"
| "join sep (x # y # ys) = x @ sep @ join sep (y # ys)"

lemma split_on_not_Nil [simp]: "split_on d s \<noteq> []"
  by (cases s) (auto split: list.splits)

lemma join_Cons: "ys \<noteq> [] \<Longrightarrow> join sep (x # ys) = x @ sep @ join sep ys"
  by (cases ys) auto

lemma join_split_on [simp]: "join [d] (split_on d s) = s"
proof (induction s)
  case Nil
  then show ?case by simp
next
  case (Cons c cs)
  obtain w ws where s: "split_on d cs = w # ws" by (cases "split_on d cs") auto
  show ?case
  proof (cases ws)
    case Nil
    with s Cons show ?thesis by auto
  next
    case (Cons v vs)
    with s Cons.IH show ?thesis by auto
  qed
qed

lemma split_on_no_sep: "d \<notin> set w \<Longrightarrow> split_on d w = [w]"
  by (induction w) auto

lemma split_on_append_sep:
  "d \<notin> set w \<Longrightarrow> split_on d (w @ d # s) = w # split_on d s"
  by (induction w) auto

lemma split_on_join:
  "xs \<noteq> [] \<Longrightarrow> \<forall>x \<in> set xs. d \<notin> set x \<Longrightarrow> split_on d (join [d] xs) = xs"
proof (induction xs)
  case Nil
  then show ?case by simp
next
  case (Cons x xs)
  then show ?case
    by (cases xs) (simp_all add: split_on_no_sep split_on_append_sep)
qed

lemma split_on_parts_no_sep: "w \<in> set (split_on d s) \<Longrightarrow> d \<notin> set w"
proof (induction s arbitrary: w)
  case Nil
  then show ?case by simp
next
  case (Cons c cs)
  then show ?case by (cases "split_on d cs") (auto split: if_splits)
qed

lemma length_split_on: "length (split_on d s) = Suc (count_list s d)"
  by (induction s) (auto split: list.splits)

text \<open>
  \<open>replace_all\<close> is \<open>strings.ReplaceAll\<close> for a non-empty \<open>old\<close>: the occurrences are taken from
  left to right and do not overlap. Every call site in adtler passes a non-empty \<open>old\<close>.
\<close>

function replace_all :: "string \<Rightarrow> string \<Rightarrow> string \<Rightarrow> string" where
  "replace_all [] old new = []"
| "replace_all (c # cs) old new =
     (if old \<noteq> [] \<and> has_prefix (c # cs) old
      then new @ replace_all (drop (length old) (c # cs)) old new
      else c # replace_all cs old new)"
  by pat_completeness auto
termination
  by (relation "measure (\<lambda>(s, _, _). length s)") (auto simp: has_prefix_def)

declare replace_all.simps(2) [simp del]

definition replace_first :: "string \<Rightarrow> string \<Rightarrow> string \<Rightarrow> string" where
  "replace_first s old new =
     (case index_of s old of
        None \<Rightarrow> s
      | Some i \<Rightarrow> take i s @ new @ drop (i + length old) s)"

lemma replace_all_match:
  "old \<noteq> [] \<Longrightarrow> replace_all (old @ s) old new = new @ replace_all s old new"
proof (cases old)
  case (Cons c cs)
  then have "has_prefix (c # cs @ s) old" by (simp add: has_prefix_def)
  with Cons show ?thesis by (simp add: replace_all.simps(2))
qed simp

lemma replace_all_byte:
  "replace_all s [c] new = concat (map (\<lambda>x. if x = c then new else [x]) s)"
  by (induction s) (auto simp: replace_all.simps(2) has_prefix_def)

lemma replace_all_absent:
  "\<not> contains_str s old \<Longrightarrow> replace_all s old new = s"
proof (induction s)
  case Nil
  then show ?case by simp
next
  case (Cons c cs)
  then show ?case
    by (auto simp: replace_all.simps(2) contains_str_def split: if_splits)
qed

section \<open>Trimming\<close>

definition trim_left :: "(char \<Rightarrow> bool) \<Rightarrow> string \<Rightarrow> string" where
  "trim_left p s = dropWhile p s"

definition trim_right :: "(char \<Rightarrow> bool) \<Rightarrow> string \<Rightarrow> string" where
  "trim_right p s = rev (dropWhile p (rev s))"

definition trim_space :: "string \<Rightarrow> string" where
  "trim_space s = trim_right is_space (trim_left is_space s)"

lemma trim_space_Nil [simp]: "trim_space [] = []"
  by (simp add: trim_space_def trim_left_def trim_right_def)

lemma trim_right_set: "set (trim_right p s) \<subseteq> set s"
  using set_dropWhileD by (fastforce simp: trim_right_def)

lemma trim_space_set: "set (trim_space s) \<subseteq> set s"
  using trim_right_set [of is_space "dropWhile is_space s"] set_dropWhileD
  by (fastforce simp: trim_space_def trim_left_def)

section \<open>Fields\<close>

text \<open>\<open>strings.Fields\<close>: the runs of characters between white space.\<close>

fun go_fields_from :: "string \<Rightarrow> string \<Rightarrow> string list" where
  "go_fields_from w [] = (if w = [] then [] else [rev w])"
| "go_fields_from w (c # cs) =
     (if is_space c then (if w = [] then [] else [rev w]) @ go_fields_from [] cs
      else go_fields_from (c # w) cs)"

definition go_fields :: "string \<Rightarrow> string list" where
  "go_fields s = go_fields_from [] s"

lemma go_fields_from_words:
  "list_all (\<lambda>c. \<not> is_space c) w \<Longrightarrow> list_all (\<lambda>x. x \<noteq> [] \<and> list_all (\<lambda>c. \<not> is_space c) x) (go_fields_from w s)"
proof (induction w s rule: go_fields_from.induct)
  case (2 w c cs)
  then show ?case by (cases "is_space c"; cases "w = []") simp_all
qed simp

lemma go_fields_from_concat: "concat (go_fields_from w s) = rev w @ filter (\<lambda>c. \<not> is_space c) s"
  by (induction w s rule: go_fields_from.induct) auto

lemma go_fields_words: "list_all (\<lambda>x. x \<noteq> [] \<and> list_all (\<lambda>c. \<not> is_space c) x) (go_fields s)"
  by (simp add: go_fields_def go_fields_from_words)

section \<open>Numbers as text\<close>

lemma of_char_of_lt: "n < 256 \<Longrightarrow> of_char (char_of (n :: nat)) = n"
  by simp

lemma of_digit_char [simp]: "n < 10 \<Longrightarrow> of_char (char_of (48 + n :: nat)) = 48 + n"
  by simp

fun digits :: "nat \<Rightarrow> string" where
  "digits n =
     (if n < 10 then [char_of (48 + n)] else digits (n div 10) @ [char_of (48 + n mod 10)])"

declare digits.simps [simp del]

definition itoa :: "int \<Rightarrow> string" where
  "itoa i = (if i < 0 then ''-'' @ digits (nat (- i)) else digits (nat i))"

definition digit_val :: "char \<Rightarrow> int" where
  "digit_val c = int (of_char c) - 48"

definition parse_digits :: "string \<Rightarrow> int" where
  "parse_digits s = fold (\<lambda>c n. n * 10 + digit_val c) s 0"

text \<open>
  \<open>strconv.Atoi\<close>: an optional sign and at least one decimal digit, within the 64-bit range of
  Go's \<open>int\<close>. \<open>None\<close> is the error return.
\<close>

definition atoi :: "string \<Rightarrow> int option" where
  "atoi s =
     (let (neg, ds) = (case s of
            [] \<Rightarrow> (False, [])
          | c # cs \<Rightarrow> if c = CHR ''-'' then (True, cs) else if c = CHR ''+'' then (False, cs) else (False, s));
          n = (if neg then - parse_digits ds else parse_digits ds)
      in if ds \<noteq> [] \<and> list_all is_digit ds \<and> - (2 ^ 63) \<le> n \<and> n < 2 ^ 63 then Some n else None)"

text \<open>The value \<open>Atoi\<close> returns beside an error the caller ignores: the nearest bound for a number out of
  range, 0 for anything else.\<close>

definition atoi0 :: "string \<Rightarrow> int" where
  "atoi0 s =
     (case atoi s of
        Some n \<Rightarrow> n
      | None \<Rightarrow>
          (let ds = (case s of [] \<Rightarrow> [] | c # cs \<Rightarrow> if c = CHR ''-'' \<or> c = CHR ''+'' then cs else s) in
           if ds \<noteq> [] \<and> list_all is_digit ds
           then (if hd s = CHR ''-'' then - (2 ^ 63) else 2 ^ 63 - 1) else 0))"

lemma digits_not_Nil [simp]: "digits n \<noteq> []"
  by (subst digits.simps) simp

lemma parse_digits_append:
  "parse_digits (s @ [c]) = parse_digits s * 10 + digit_val c"
  by (simp add: parse_digits_def)

lemma is_digit_char: "n < 10 \<Longrightarrow> is_digit (char_of (48 + n :: nat))"
  by (simp add: is_digit_def del: of_char_of)

lemma digits_all_digit: "list_all is_digit (digits n)"
proof (induction n rule: digits.induct)
  case (1 n)
  then show ?case
    by (subst digits.simps) (auto simp: is_digit_char simp del: of_char_of)
qed

lemma parse_digits_digits: "parse_digits (digits n) = int n"
proof (induction n rule: digits.induct)
  case (1 n)
  show ?case
  proof (cases "n < 10")
    case True
    then show ?thesis
      by (subst digits.simps) (simp add: parse_digits_def digit_val_def del: of_char_of)
  next
    case False
    with 1 show ?thesis
      by (subst digits.simps) (simp add: parse_digits_append digit_val_def zdiv_int zmod_int del: of_char_of)
  qed
qed

lemma atoi_itoa:
  assumes "- (2 ^ 63) \<le> i" and "i < 2 ^ 63"
  shows "atoi (itoa i) = Some i"
proof (cases "i < 0")
  case True
  with assms show ?thesis
    by (simp add: atoi_def itoa_def digits_all_digit parse_digits_digits)
next
  case False
  obtain c cs where d: "digits (nat i) = c # cs" by (cases "digits (nat i)") auto
  have "is_digit c" using digits_all_digit [of "nat i"] d by simp
  then have "c \<noteq> CHR ''-''" "c \<noteq> CHR ''+''" by (auto simp: is_digit_def)
  with False d assms digits_all_digit [of "nat i"] parse_digits_digits [of "nat i"] show ?thesis
    by (simp add: atoi_def itoa_def)
qed

text \<open>
  \<open>quoted\<close> is the \<open>%q\<close> verb of \<open>fmt\<close>: the string in double quotes with Go's escapes. Bytes
  from 128 upwards (the continuation of a printable character) are left as they are.
\<close>

definition hex_digit :: "nat \<Rightarrow> char" where
  "hex_digit n = (if n < 10 then char_of (48 + n) else char_of (87 + n))"

definition quote_char :: "char \<Rightarrow> string" where
  "quote_char c =
     (let n = (of_char c :: nat) in
      if c = QUOT \<or> c = BSL then [BSL, c]
      else if n = 7 then BSL # ''a'' else if n = 8 then BSL # ''b''
      else if n = 9 then BSL # ''t'' else if n = 10 then BSL # ''n''
      else if n = 11 then BSL # ''v'' else if n = 12 then BSL # ''f''
      else if n = 13 then BSL # ''r''
      else if n < 32 \<or> n = 127 then BSL # CHR ''x'' # [hex_digit (n div 16), hex_digit (n mod 16)]
      else [c])"

definition quoted :: "string \<Rightarrow> string" where
  "quoted s = QUOT # concat (map quote_char s) @ [QUOT]"

section \<open>Association lists as Go maps\<close>

text \<open>
  A Go map the code only looks up and assigns is a HOL map; a map literal is an association
  list read with \<open>map_of\<close>.
\<close>

definition assoc_keys :: "('k \<times> 'v) list \<Rightarrow> 'k list" where
  "assoc_keys kvs = map fst kvs"

lemma map_of_Some_key: "map_of kvs k = Some v \<Longrightarrow> k \<in> set (assoc_keys kvs)"
  by (auto simp: assoc_keys_def dest: map_of_SomeD intro: rev_image_eqI)

lemma map_of_rev_distinct:
  assumes "distinct (map fst xs)"
  shows "map_of (rev xs) = map_of xs"
proof
  fix k
  have "distinct (map fst (rev xs))" using assms by (simp add: rev_map [symmetric])
  then have "map_of (rev xs) k = Some v \<longleftrightarrow> map_of xs k = Some v" for v
    using assms by (simp add: map_of_eq_Some_iff)
  then show "map_of (rev xs) k = map_of xs k" by (metis not_Some_eq)
qed

lemma trim_suffix_set: "set (trim_suffix l p) \<subseteq> set l"
  by (auto simp: trim_suffix_def dest: in_set_takeD)

end
