(* ===== verification/Errors.thy ===== *)
theory Errors
  imports Prelude
begin

text \<open>
  The error values of the client (\<open>adt/types.go\<close>, \<open>adt/errorkind.go\<close>): \<open>ADTError\<close> with its
  predicates, Go's error chains as a datatype (\<open>%w\<close> is a constructor, so \<open>errors.As\<close> is a
  search), and the classification of an error into an \<open>ErrorKind\<close>.
\<close>

section \<open>ADTError and error chains\<close>

record adt_error =
  StatusCode :: int
  Namespace :: string
  ExcType :: string
  Message :: string
  Properties :: "(string \<times> string) list"
  T100KeyID :: string
  T100KeyNo :: string
  T100Vars :: "string list"

text \<open>
  \<open>Properties\<close> is a Go map built by assigning the entries in document order; the list has the
  latest assignment first, so \<open>map_of\<close> reads it as the map. A missing key reads as \<open>""\<close>.
\<close>

definition property :: "adt_error \<Rightarrow> string \<Rightarrow> string" where
  "property e k = (case map_of (Properties e) k of None \<Rightarrow> [] | Some v \<Rightarrow> v)"

definition plain_adt_error :: "int \<Rightarrow> string \<Rightarrow> adt_error" where
  "plain_adt_error status msg =
     \<lparr>StatusCode = status, Namespace = [], ExcType = [], Message = msg, Properties = [],
      T100KeyID = [], T100KeyNo = [], T100Vars = [[], [], [], []]\<rparr>"

datatype sentinel =
    ErrUnresolvedPlaceholder
  | ErrCrossOriginRedirect
  | ErrObjectCreated
  | ErrTransportListPartial
  | ErrTransportAbsent
  | ErrTransportNumberUnsafe
  | ErrNoSessionAttached
  | ErrRefreshAborted
  | ErrVerifyCleanupSkipped
  | ErrAbapGitSyncNotInstalled
  | ErrNotATable
  | ErrCanceled
  | ErrDeadlineExceeded

text \<open>
  An error value: an \<open>*ADTError\<close>, a package-level sentinel, a plain text, the other error
  types of the package, or \<open>fmt.Errorf\<close> with one (\<open>Wrap pre e post\<close>) or two (\<open>Wrap2\<close>)
  \<open>%w\<close> verbs.
\<close>

datatype err =
    Adt adt_error
  | Sentinel sentinel
  | Msg string
  | Wrap string err string
  | Wrap2 string err string err
  | VerifyCleanupError string err
  | DebuggeeEndedError string err
  | TableNotFoundError string

abbreviation wrapf :: "string \<Rightarrow> err \<Rightarrow> err" where
  "wrapf pre e \<equiv> Wrap pre e []"

fun sentinel_text :: "sentinel \<Rightarrow> string" where
  "sentinel_text ErrUnresolvedPlaceholder = ''adt: credential is an unresolved ${env:VAR} placeholder''"
| "sentinel_text ErrCrossOriginRedirect = ''adt: redirect to a different scheme or host''"
| "sentinel_text ErrObjectCreated = ''adt: the object was created''"
| "sentinel_text ErrTransportListPartial = ''adt: transport request list is partial''"
| "sentinel_text ErrTransportAbsent = ''not in this system's transport-organizer worklist''"
| "sentinel_text ErrTransportNumberUnsafe = ''contains characters not allowed in a transport query''"
| "sentinel_text ErrNoSessionAttached = ''no debugger attached''"
| "sentinel_text ErrRefreshAborted = ''token refresh aborted''"
| "sentinel_text ErrVerifyCleanupSkipped =
     ''removal not attempted: SAP rejected the credential (HTTP 401), and another request would count one more failed logon''"
| "sentinel_text ErrAbapGitSyncNotInstalled =
     ''abapGit sync companion is not installed on this system (Z_ABAPGIT_PULL_MCP_SHORTCUT)''"
| "sentinel_text ErrNotATable = ''variable is not an internal table''"
| "sentinel_text ErrCanceled = ''context canceled''"
| "sentinel_text ErrDeadlineExceeded = ''context deadline exceeded''"

definition adt_error_text :: "adt_error \<Rightarrow> string" where
  "adt_error_text e =
     (if StatusCode e = 0 \<and> ExcType e \<noteq> [] then ExcType e @ '': '' @ Message e
      else if ExcType e \<noteq> [] then
        ''SAP ADT error '' @ itoa (StatusCode e) @ '' ('' @ ExcType e @ ''): '' @ Message e
      else ''SAP ADT error '' @ itoa (StatusCode e) @ '': '' @ Message e)"

fun err_text :: "err \<Rightarrow> string" where
  "err_text (Adt e) = adt_error_text e"
| "err_text (Sentinel s) = sentinel_text s"
| "err_text (Msg m) = m"
| "err_text (Wrap pre e post) = pre @ err_text e @ post"
| "err_text (Wrap2 pre e mid f) = pre @ err_text e @ mid @ err_text f"
| "err_text (VerifyCleanupError prog e) = ''VerifySource: temporary program '' @ prog @ '' could not be removed from $TMP: '' @ err_text e"
| "err_text (DebuggeeEndedError action e) = ''Step('' @ action @ ''): request timed out and no debuggee session remains ''
     @ [CHR 0xE2, CHR 0x80, CHR 0x94] @ '' the debuggee likely ran to completion (see aibap.mcp#513): '' @ err_text e"
| "err_text (TableNotFoundError t) = t"

text \<open>\<open>errors.As\<close> with an \<open>*ADTError\<close> target: the first one in a depth-first walk of the chain.\<close>

fun as_adt :: "err \<Rightarrow> adt_error option" where
  "as_adt (Adt e) = Some e"
| "as_adt (Wrap _ e _) = as_adt e"
| "as_adt (Wrap2 _ e _ f) = (case as_adt e of Some a \<Rightarrow> Some a | None \<Rightarrow> as_adt f)"
| "as_adt (VerifyCleanupError _ e) = as_adt e"
| "as_adt (DebuggeeEndedError _ e) = as_adt e"
| "as_adt (Sentinel _) = None"
| "as_adt (Msg _) = None"
| "as_adt (TableNotFoundError _) = None"

text \<open>\<open>errors.Is\<close> with a sentinel target.\<close>

fun is_sentinel :: "sentinel \<Rightarrow> err \<Rightarrow> bool" where
  "is_sentinel s (Sentinel t) = (s = t)"
| "is_sentinel s (Wrap _ e _) = is_sentinel s e"
| "is_sentinel s (Wrap2 _ e _ f) = (is_sentinel s e \<or> is_sentinel s f)"
| "is_sentinel s (VerifyCleanupError _ e) = is_sentinel s e"
| "is_sentinel s (DebuggeeEndedError _ e) = is_sentinel s e"
| "is_sentinel s (Adt _) = False"
| "is_sentinel s (Msg _) = False"
| "is_sentinel s (TableNotFoundError _) = False"

definition is_unauthorized :: "err \<Rightarrow> bool" where
  "is_unauthorized e = (case as_adt e of None \<Rightarrow> False | Some a \<Rightarrow> StatusCode a = 401)"

lemma is_unauthorized_simps [simp]:
  "is_unauthorized (Adt a) \<longleftrightarrow> StatusCode a = 401"
  "is_unauthorized (Wrap pre e post) \<longleftrightarrow> is_unauthorized e"
  "is_unauthorized (DebuggeeEndedError act e) \<longleftrightarrow> is_unauthorized e"
  "is_unauthorized (VerifyCleanupError p e) \<longleftrightarrow> is_unauthorized e"
  "\<not> is_unauthorized (Msg m)"
  "\<not> is_unauthorized (Sentinel s)"
  "\<not> is_unauthorized (TableNotFoundError t)"
  by (simp_all add: is_unauthorized_def)

lemma is_unauthorized_Wrap2:
  "is_unauthorized e \<Longrightarrow> is_unauthorized (Wrap2 pre e mid f)"
  by (auto simp: is_unauthorized_def split: option.splits)

lemma StatusCode_plain [simp]: "StatusCode (plain_adt_error n m) = n"
  by (simp add: plain_adt_error_def)

section \<open>Predicates on ADTError\<close>

text \<open>
  \<open>ctsRequestRe\<close>, \<open>\b[A-Z][A-Z0-9]{2}K[0-9]{6}\b\<close>: a match is ten word characters with no word
  character on either side. \<open>cts_matches prev s\<close> scans \<open>s\<close>, \<open>prev\<close> telling whether the byte
  before it is a word character.
\<close>

definition is_word_char :: "char \<Rightarrow> bool" where
  "is_word_char c \<longleftrightarrow> is_upper c \<or> is_lower c \<or> is_digit c \<or> c = CHR ''_''"

definition is_cts_request :: "string \<Rightarrow> bool" where
  "is_cts_request t \<longleftrightarrow>
     length t = 10 \<and> is_upper (t ! 0) \<and>
     (is_upper (t ! 1) \<or> is_digit (t ! 1)) \<and> (is_upper (t ! 2) \<or> is_digit (t ! 2)) \<and>
     t ! 3 = CHR ''K'' \<and> list_all is_digit (drop 4 t)"

definition word_starts :: "string \<Rightarrow> bool" where
  "word_starts s \<longleftrightarrow> (case s of [] \<Rightarrow> False | c # _ \<Rightarrow> is_word_char c)"

fun cts_matches :: "bool \<Rightarrow> string \<Rightarrow> string list" where
  "cts_matches prev [] = []"
| "cts_matches prev (c # cs) =
     (if \<not> prev \<and> is_cts_request (take 10 (c # cs)) \<and> \<not> word_starts (drop 10 (c # cs))
      then [take 10 (c # cs)] else [])
     @ cts_matches (is_word_char c) cs"

definition LockingTransport :: "adt_error \<Rightarrow> string option" where
  "LockingTransport e =
     (let m = cts_matches False (Message e) in if m = [] then None else Some (last m))"

definition IsInvalidLockHandle :: "adt_error \<Rightarrow> bool" where
  "IsInvalidLockHandle e =
     (if ExcType e \<noteq> [] then ExcType e = ''ExceptionResourceInvalidLockHandle''
      else StatusCode e = 423)"

definition IsEnqueueLock :: "adt_error \<Rightarrow> (string \<times> string) option" where
  "IsEnqueueLock e =
     (if ExcType e \<noteq> ''ExceptionResourceNoAccess'' then None
      else if T100KeyID e \<noteq> ''EU'' \<or> T100KeyNo e \<noteq> ''510'' then None
      else Some (T100Vars e ! 0, T100Vars e ! 1))"

definition IsTransportLocked :: "adt_error \<Rightarrow> (string \<times> string) option" where
  "IsTransportLocked e =
     (if ExcType e \<noteq> ''ExceptionResourceSaveFailure'' then None
      else if T100KeyID e \<noteq> ''CTS_WBO_API'' \<or> T100KeyNo e \<noteq> ''020'' then None
      else Some (property e ''corrNr'', T100Vars e ! 3))"

definition isInvalidLockHandle :: "err \<Rightarrow> bool" where
  "isInvalidLockHandle e = (case as_adt e of None \<Rightarrow> False | Some a \<Rightarrow> IsInvalidLockHandle a)"

definition isCurrentlyEditing :: "err \<Rightarrow> bool" where
  "isCurrentlyEditing e =
     (case as_adt e of None \<Rightarrow> False | Some a \<Rightarrow> ExcType a = ''ExceptionResourceNoAccess'')"

definition isLockHandleParameterNotFound :: "err \<Rightarrow> bool" where
  "isLockHandleParameterNotFound e =
     (case as_adt e of None \<Rightarrow> False
      | Some a \<Rightarrow> ExcType a = ''ExceptionParameterNotFound''
                 \<and> contains_str (to_lower (Message a)) ''lockhandle'')"

section \<open>ErrorKind\<close>

datatype error_kind =
    ErrorUnknown | ErrorAlreadyExists | ErrorLocked | ErrorLockConflict
  | ErrorInvalidLockHandle | ErrorEtagMismatch | ErrorNotAcceptable | ErrorUnsupportedMedia
  | ErrorUnprocessable | ErrorMethodNotAllowed | ErrorCreationFailed | ErrorNotFound
  | ErrorForbidden | ErrorBadRequest | ErrorServerError | ErrorObjectLockedInTransport
  | ErrorNotSupported | ErrorUnauthorized

text \<open>The \<open>iota\<close> value of each kind, and Go's integer order on kinds.\<close>

fun kind_code :: "error_kind \<Rightarrow> nat" where
  "kind_code ErrorUnknown = 0" | "kind_code ErrorAlreadyExists = 1"
| "kind_code ErrorLocked = 2" | "kind_code ErrorLockConflict = 3"
| "kind_code ErrorInvalidLockHandle = 4" | "kind_code ErrorEtagMismatch = 5"
| "kind_code ErrorNotAcceptable = 6" | "kind_code ErrorUnsupportedMedia = 7"
| "kind_code ErrorUnprocessable = 8" | "kind_code ErrorMethodNotAllowed = 9"
| "kind_code ErrorCreationFailed = 10" | "kind_code ErrorNotFound = 11"
| "kind_code ErrorForbidden = 12" | "kind_code ErrorBadRequest = 13"
| "kind_code ErrorServerError = 14" | "kind_code ErrorObjectLockedInTransport = 15"
| "kind_code ErrorNotSupported = 16" | "kind_code ErrorUnauthorized = 17"

lemma kind_code_inj: "kind_code a = kind_code b \<longleftrightarrow> a = b"
  by (cases a; cases b) simp_all

instantiation error_kind :: linorder
begin

definition less_eq_error_kind :: "error_kind \<Rightarrow> error_kind \<Rightarrow> bool" where
  "less_eq_error_kind a b \<longleftrightarrow> kind_code a \<le> kind_code b"

definition less_error_kind :: "error_kind \<Rightarrow> error_kind \<Rightarrow> bool" where
  "less_error_kind a b \<longleftrightarrow> kind_code a < kind_code b"

instance
  by standard (auto simp: less_eq_error_kind_def less_error_kind_def kind_code_inj)

end

fun kind_string :: "error_kind \<Rightarrow> string" where
  "kind_string ErrorAlreadyExists = ''already_exists''"
| "kind_string ErrorLocked = ''locked''"
| "kind_string ErrorLockConflict = ''lock_conflict''"
| "kind_string ErrorInvalidLockHandle = ''invalid_lock_handle''"
| "kind_string ErrorEtagMismatch = ''etag_mismatch''"
| "kind_string ErrorNotAcceptable = ''not_acceptable''"
| "kind_string ErrorUnsupportedMedia = ''unsupported_media''"
| "kind_string ErrorUnprocessable = ''unprocessable''"
| "kind_string ErrorMethodNotAllowed = ''method_not_allowed''"
| "kind_string ErrorCreationFailed = ''creation_failed''"
| "kind_string ErrorNotFound = ''not_found''"
| "kind_string ErrorForbidden = ''forbidden''"
| "kind_string ErrorBadRequest = ''bad_request''"
| "kind_string ErrorServerError = ''server_error''"
| "kind_string ErrorObjectLockedInTransport = ''object_locked_in_transport''"
| "kind_string ErrorNotSupported = ''not_supported''"
| "kind_string ErrorUnauthorized = ''unauthorized''"
| "kind_string ErrorUnknown = ''unknown''"

definition classifyByExceptionType :: "string \<Rightarrow> error_kind" where
  "classifyByExceptionType t =
     (if t = ''ExceptionResourceAlreadyExists'' then ErrorAlreadyExists
      else if t = ''ExceptionResourceLocked'' then ErrorLocked
      else if t = ''ExceptionResourceLockConflict'' then ErrorLockConflict
      else if t = ''ExceptionResourceInvalidLockHandle'' then ErrorInvalidLockHandle
      else if t = ''ExceptionResourceInvalidEtag'' \<or> t = ''ExceptionPreconditionFailed''
        then ErrorEtagMismatch
      else if t = ''ExceptionResourceNotAcceptable'' then ErrorNotAcceptable
      else if t = ''ExceptionUnsupportedMediaType'' then ErrorUnsupportedMedia
      else if t = ''ExceptionUnprocessableEntity'' \<or> t = ''ExceptionResourceWrongData''
        then ErrorUnprocessable
      else if t = ''ExceptionNotAllowed'' then ErrorMethodNotAllowed
      else if t = ''ExceptionResourceCreationFailure'' then ErrorCreationFailed
      else if t \<in> {''ADT_TM_REMOVEOBJECT_UNSUPPORTED'', ''ADT_TM_ADDOBJECTS_UNSUPPORTED'',
                   ''ADT_TM_ADDOBJECT_UNSUPPORTED'', ''ADT_TM_CREATEREQUEST_UNSUPPORTED''}
        then ErrorNotSupported
      else ErrorUnknown)"

definition classifyByStatusCode :: "int \<Rightarrow> error_kind" where
  "classifyByStatusCode s =
     (if s = 423 then ErrorLocked else if s = 412 then ErrorEtagMismatch
      else if s = 409 then ErrorLockConflict else if s = 406 then ErrorNotAcceptable
      else if s = 415 then ErrorUnsupportedMedia else if s = 422 then ErrorUnprocessable
      else if s = 405 then ErrorMethodNotAllowed else if s = 404 then ErrorNotFound
      else if s = 403 then ErrorForbidden else if s = 401 then ErrorUnauthorized
      else if s = 400 then ErrorBadRequest else if s = 500 then ErrorServerError
      else ErrorUnknown)"

definition refineLockConflict :: "adt_error \<Rightarrow> error_kind \<Rightarrow> error_kind" where
  "refineLockConflict e k =
     (if k \<noteq> ErrorLockConflict then k
      else case LockingTransport e of
             Some _ \<Rightarrow> ErrorObjectLockedInTransport
           | None \<Rightarrow> k)"

definition ClassifyError :: "err \<Rightarrow> error_kind" where
  "ClassifyError e =
     (case as_adt e of
        None \<Rightarrow> ErrorUnknown
      | Some a \<Rightarrow>
          (let k = classifyByExceptionType (ExcType a) in
           if k \<noteq> ErrorUnknown then refineLockConflict a k
           else refineLockConflict a (classifyByStatusCode (StatusCode a))))"

section \<open>Properties\<close>

lemma kind_string_inj: "kind_string a = kind_string b \<longleftrightarrow> a = b"
  by (cases a; cases b) simp_all

text \<open>A match of the scan is a CTS number standing alone in the text, and every such number is
  found.\<close>

definition stands_alone :: "bool \<Rightarrow> string \<Rightarrow> string \<Rightarrow> string \<Rightarrow> bool" where
  "stands_alone prev p t r \<longleftrightarrow>
     is_cts_request t \<and> \<not> word_starts r \<and>
     (if p = [] then \<not> prev else \<not> is_word_char (last p))"

lemma cts_matches_sound:
  "t \<in> set (cts_matches prev s) \<Longrightarrow> \<exists>p r. s = p @ t @ r \<and> stands_alone prev p t r"
proof (induction prev s rule: cts_matches.induct)
  case (1 prev)
  then show ?case by simp
next
  case (2 prev c cs)
  show ?case
  proof (cases "t \<in> set (cts_matches (is_word_char c) cs)")
    case True
    with 2 obtain p r where "cs = p @ t @ r" "stands_alone (is_word_char c) p t r" by blast
    then have "c # cs = (c # p) @ t @ r \<and> stands_alone prev (c # p) t r"
      by (auto simp: stands_alone_def)
    then show ?thesis by blast
  next
    case False
    with 2(2) have t: "t = take 10 (c # cs)" "\<not> prev" "is_cts_request t"
        "\<not> word_starts (drop 10 (c # cs))"
      by (auto split: if_splits)
    then have "c # cs = [] @ t @ drop 10 (c # cs) \<and> stands_alone prev [] t (drop 10 (c # cs))"
      by (simp add: stands_alone_def)
    then show ?thesis by blast
  qed
qed

lemma cts_matches_split:
  assumes "stands_alone prev p t r"
  shows "\<exists>ms. cts_matches prev (p @ t @ r) = ms @ t # cts_matches (is_word_char (hd t)) (tl t @ r)"
  using assms
proof (induction p arbitrary: prev)
  case Nil
  then have l: "length t = 10" by (simp add: stands_alone_def is_cts_request_def)
  then obtain c cs where t: "t = c # cs" by (cases t) auto
  with Nil l show ?case by (auto simp: stands_alone_def)
next
  case (Cons c p)
  then have "stands_alone (is_word_char c) p t r" by (auto simp: stands_alone_def)
  from Cons.IH [OF this] show ?case by auto
qed

lemma cts_matches_complete: "stands_alone prev p t r \<Longrightarrow> t \<in> set (cts_matches prev (p @ t @ r))"
  by (drule cts_matches_split) auto

lemma stands_alone_later:
  assumes "stands_alone False p t r" and "stands_alone (is_word_char (hd t)) p' t' r'"
    and "tl t @ r = p' @ t' @ r'"
  shows "stands_alone False (p @ hd t # p') t' r'"
  using assms by (auto simp: stands_alone_def)

text \<open>
  \<open>LockingTransport\<close> returns the CTS number standing alone in the message that no later one
  follows, and nothing exactly when the message holds none.
\<close>

theorem LockingTransport_last:
  "case LockingTransport e of
     None \<Rightarrow> \<nexists>p t r. Message e = p @ t @ r \<and> stands_alone False p t r
   | Some t \<Rightarrow> \<exists>p r. Message e = p @ t @ r \<and> stands_alone False p t r \<and>
       (\<nexists>p' t' r'. Message e = p' @ t' @ r' \<and> stands_alone False p' t' r' \<and> length p < length p')"
proof (cases "cts_matches False (Message e) = []")
  case True
  then show ?thesis
    by (auto simp: LockingTransport_def dest: cts_matches_complete)
next
  case False
  define occ where
    "occ p \<longleftrightarrow> (\<exists>t r. Message e = p @ t @ r \<and> stands_alone False p t r)" for p
  from False obtain t0 where "t0 \<in> set (cts_matches False (Message e))"
    by (meson last_in_set)
  then obtain q where q: "occ q" using cts_matches_sound unfolding occ_def by blast
  have "occ p \<longrightarrow> length p \<le> length (Message e)" for p
    by (auto simp: occ_def)
  then have "\<exists>p. occ p \<and> (\<forall>p'. occ p' \<longrightarrow> length p' \<le> length p)"
    using q by (intro ex_has_greatest_nat [where b = "Suc (length (Message e))"])
      (auto simp: less_Suc_eq_le)
  then obtain p where p: "occ p" "\<And>p'. occ p' \<Longrightarrow> length p' \<le> length p"
    by blast
  then obtain t r where tr: "Message e = p @ t @ r" "stands_alone False p t r"
    by (auto simp: occ_def)
  then obtain ms where ms: "cts_matches False (Message e)
      = ms @ t # cts_matches (is_word_char (hd t)) (tl t @ r)"
    using cts_matches_split by metis
  have "t \<noteq> []" using tr(2) by (auto simp: stands_alone_def is_cts_request_def)
  have "cts_matches (is_word_char (hd t)) (tl t @ r) = []"
  proof (rule ccontr)
    assume "cts_matches (is_word_char (hd t)) (tl t @ r) \<noteq> []"
    then obtain t' where "t' \<in> set (cts_matches (is_word_char (hd t)) (tl t @ r))"
      by (meson last_in_set)
    then obtain p' r' where pr: "tl t @ r = p' @ t' @ r'"
        "stands_alone (is_word_char (hd t)) p' t' r'"
      using cts_matches_sound by blast
    then have "stands_alone False (p @ hd t # p') t' r'"
      using stands_alone_later [OF tr(2)] by blast
    moreover have "Message e = (p @ hd t # p') @ t' @ r'"
      using tr(1) pr(1) \<open>t \<noteq> []\<close> by (cases t) auto
    ultimately have "occ (p @ hd t # p')" by (auto simp: occ_def)
    from p(2) [OF this] show False by simp
  qed
  with ms have L: "LockingTransport e = Some t" by (simp add: LockingTransport_def)
  have "\<nexists>p' t' r'. Message e = p' @ t' @ r' \<and> stands_alone False p' t' r' \<and> length p < length p'"
    using p(2) by (auto simp: occ_def not_less [symmetric])
  with L tr show ?thesis by auto
qed

end
