(* ===== verification/Effects.thy ===== *)
theory Effects
  imports Errors
begin

text \<open>
  The effects of the client, as the state monad of the library over the client's state. A Go
  function returning \<open>(T, error)\<close> is a value of type \<open>('s, err + 'a) state\<close>; \<open>tryw w m k\<close> is
  \<open>x, err := m; if err != nil { return w(err) }; k(x)\<close>.

  The SAP system and Go's \<open>net/http\<close> are the parameter \<open>send\<close> of the environment: it takes a
  request and the state of the outside world, and answers with a response or a transport error
  (a redirect, a timeout and a cancelled context are inside it); \<open>url_err\<close> is the URL parser of
  \<open>http.NewRequestWithContext\<close>, \<open>refresh_cb\<close> the caller's OAuth refresh callback, and
  \<open>unmarshal_xml\<close> the XML parser below the struct decoder, and \<open>ctx_err\<close> the error of the caller's
  context (\<open>ctx.Err()\<close>) in the current state of the world.
  Every request is recorded in the ghost field \<open>wire\<close>, newest first, so that statements about
  what the client sends are statements about that list.
\<close>

named_theorems stops "operations that send nothing after SAP rejected the credential"
named_theorems runs "evaluation of the monad's operations"

section \<open>Requests, responses, the environment\<close>

datatype credential = Bearer string | Basic string string | NoAuth

record request =
  rq_method :: string
  rq_path :: string
  rq_headers :: "(string \<times> string) list"
  rq_cred :: credential
  rq_body :: "string option"
  rq_long :: bool
  rq_jar :: nat

record response =
  rs_status :: int
  rs_headers :: "(string \<times> string) list"
  rs_body :: string
  rs_body_err :: "err option"

text \<open>
  \<open>io.ReadAll(resp.Body)\<close>: the bytes, or the error that ended the read.
\<close>

definition read_all :: "response \<Rightarrow> err + string" where
  "read_all r = (case rs_body_err r of Some e \<Rightarrow> Inl e | None \<Rightarrow> Inr (rs_body r))"

definition header :: "(string \<times> string) list \<Rightarrow> string \<Rightarrow> string" where
  "header hs k = (case find (\<lambda>(k', _). equal_fold k' k) hs of None \<Rightarrow> [] | Some (_, v) \<Rightarrow> v)"

text \<open>XML as \<open>encoding/xml\<close> hands it to the struct decoder: elements with local name, name space,
  attributes (local name, name space, value) and children. A field whose tag names no name space
  matches by the local name; of a repeated attribute or single element the last one counts.\<close>

datatype xml =
    Elem (xname: string) (xspace: string) (xattrs: "(string \<times> string \<times> string) list") (xkids: "xml list")
  | Text string

definition kids_named :: "string \<Rightarrow> xml \<Rightarrow> xml list" where
  "kids_named n x = filter (\<lambda>k. case k of Elem m _ _ _ \<Rightarrow> m = n | Text _ \<Rightarrow> False)
     (case x of Elem _ _ _ ks \<Rightarrow> ks | Text _ \<Rightarrow> [])"

definition kids_named_ns :: "string \<Rightarrow> string \<Rightarrow> xml \<Rightarrow> xml list" where
  "kids_named_ns ns n x = filter (\<lambda>k. xspace k = ns) (kids_named n x)"

definition xml_attr :: "xml \<Rightarrow> string \<Rightarrow> string" where
  "xml_attr x n = (case x of Text _ \<Rightarrow> []
     | Elem _ _ as _ \<Rightarrow> (case map_of (rev (map (\<lambda>(m, _, v). (m, v)) as)) n of None \<Rightarrow> [] | Some v \<Rightarrow> v))"

definition xml_attr_ns :: "string \<Rightarrow> xml \<Rightarrow> string \<Rightarrow> string" where
  "xml_attr_ns ns x n = (case x of Text _ \<Rightarrow> []
     | Elem _ _ as _ \<Rightarrow> (case map_of (rev (map (\<lambda>(m, sp, v). ((m, sp), v)) as)) (n, ns) of None \<Rightarrow> [] | Some v \<Rightarrow> v))"

definition xml_text :: "xml \<Rightarrow> string" where
  "xml_text x = concat (map (\<lambda>k. case k of Text t \<Rightarrow> t | Elem _ _ _ _ \<Rightarrow> [])
     (case x of Elem _ _ _ ks \<Rightarrow> ks | Text _ \<Rightarrow> []))"

text \<open>A \<open>string\<close> field with an element tag: the text of the last such child, \<open>""\<close> without one.\<close>

definition kid_text :: "string \<Rightarrow> xml \<Rightarrow> string" where
  "kid_text n x = (let ks = kids_named n x in if ks = [] then [] else xml_text (last ks))"

text \<open>The attribute \<open>a\<close> of a struct-valued field with the element tag \<open>n\<close>.\<close>

definition kid_attr :: "string \<Rightarrow> string \<Rightarrow> xml \<Rightarrow> string" where
  "kid_attr n a x = (let ks = kids_named n x in if ks = [] then [] else xml_attr (last ks) a)"

text \<open>The attribute of a struct-valued field that several elements fill one after the other.\<close>

definition merged_attr :: "xml list \<Rightarrow> string \<Rightarrow> string" where
  "merged_attr xs a = xml_attr (Elem [] [] (concat (map (\<lambda>x. case x of Elem _ _ as _ \<Rightarrow> as | Text _ \<Rightarrow> []) xs)) []) a"

definition merged_attr_ns :: "string \<Rightarrow> xml list \<Rightarrow> string \<Rightarrow> string" where
  "merged_attr_ns ns xs a =
     xml_attr_ns ns (Elem [] [] (concat (map (\<lambda>x. case x of Elem _ _ as _ \<Rightarrow> as | Text _ \<Rightarrow> []) xs)) []) a"

definition last_kid :: "string \<Rightarrow> xml \<Rightarrow> xml option" where
  "last_kid n x = (let ks = kids_named n x in if ks = [] then None else Some (last ks))"

definition kids_path :: "string list \<Rightarrow> xml \<Rightarrow> xml list" where
  "kids_path ns x = fold (\<lambda>n xs. concat (map (kids_named n) xs)) ns [x]"

record 'w env =
  cfg_host :: string
  cfg_client :: string
  cfg_user :: string
  cfg_password :: string
  cfg_language :: string
  send :: "request \<Rightarrow> 'w \<Rightarrow> (err + response) \<times> 'w"
  url_err :: "string \<Rightarrow> err option"
  refresh_cb :: "(string \<Rightarrow> 'w \<Rightarrow> (err + string) \<times> 'w) option"
  unmarshal_xml :: "string \<Rightarrow> err + xml"
  ctx_err :: "'w \<Rightarrow> err option"

text \<open>\<open>xml.Unmarshal\<close> into a struct whose \<open>XMLName\<close> is tagged \<open>n\<close>: another root is an error.\<close>

definition unmarshal_any :: "'w env \<Rightarrow> string \<Rightarrow> err + xml" where
  "unmarshal_any E data =
     (case unmarshal_xml E data of
        Inl e \<Rightarrow> Inl e
      | Inr x \<Rightarrow> (case x of Elem _ _ _ _ \<Rightarrow> Inr x | Text _ \<Rightarrow> Inl (Msg ''EOF'')))"

definition unmarshal_root :: "'w env \<Rightarrow> string \<Rightarrow> string \<Rightarrow> err + xml" where
  "unmarshal_root E n data =
     (case unmarshal_xml E data of
        Inl e \<Rightarrow> Inl e
      | Inr x \<Rightarrow> (case x of
            Elem m _ _ _ \<Rightarrow> if m = n then Inr x else Inl (Msg (''expected element type <'' @ n @ ''>''))
          | Text _ \<Rightarrow> Inl (Msg ''EOF'')))"

text \<open>\<open>adtxml.UnmarshalASXData\<close>: the \<open>DATA\<close> element of the envelope, an empty one without it.\<close>

definition unmarshal_asx :: "'w env \<Rightarrow> string \<Rightarrow> err + xml" where
  "unmarshal_asx E data =
     (case unmarshal_root E ''abap'' data of
        Inl e \<Rightarrow> Inl (wrapf ''unmarshal asx:abap: '' e)
      | Inr x \<Rightarrow> (let ks = kids_path [''values'', ''DATA''] x in
          Inr (if ks = [] then Elem ''DATA'' [] [] [] else last ks)))"

section \<open>The client's state\<close>

datatype removeobject_support = RemoveObjectUnknown | RemoveObjectUnsupported | RemoveObjectSupported

record 'w cl =
  csrfToken :: string
  hasSecureCookies :: bool
  discovery :: "(string \<times> string list) list"
  removeObjectSupport :: removeobject_support
  oauth :: "string option"
  jar :: nat
  next_jar :: nat
  world :: 'w
  wire :: "(request \<times> (err + response)) list"

type_synonym ('w, 'a) go = "('w cl, err + 'a) state"

section \<open>Monad operations\<close>

definition ok :: "'a \<Rightarrow> ('s, err + 'a) state" where
  "ok x = State_Monad.return (Inr x)"

definition fail :: "err \<Rightarrow> ('s, err + 'a) state" where
  "fail e = State_Monad.return (Inl e)"

definition tryw :: "(err \<Rightarrow> err) \<Rightarrow> ('s, err + 'a) state \<Rightarrow> ('a \<Rightarrow> ('s, err + 'b) state)
    \<Rightarrow> ('s, err + 'b) state" where
  "tryw w m k = State_Monad.bind m (\<lambda>r. case r of Inl e \<Rightarrow> fail (w e) | Inr x \<Rightarrow> k x)"

abbreviation tryE :: "('s, err + 'a) state \<Rightarrow> ('a \<Rightarrow> ('s, err + 'b) state) \<Rightarrow> ('s, err + 'b) state" where
  "tryE m k \<equiv> tryw (\<lambda>e. e) m k"

definition of_sum :: "err + 'a \<Rightarrow> ('s, err + 'a) state" where
  "of_sum r = State_Monad.return r"

definition gets :: "('s \<Rightarrow> 'a) \<Rightarrow> ('s, 'a) state" where
  "gets f = State (\<lambda>s. (f s, s))"

definition modify :: "('s \<Rightarrow> 's) \<Rightarrow> ('s, unit) state" where
  "modify f = State (\<lambda>s. ((), f s))"

lemma run_ok [runs, simp]: "run_state (ok x) s = (Inr x, s)"
  by (simp add: ok_def)

lemma run_fail [runs, simp]: "run_state (fail e) s = (Inl e, s)"
  by (simp add: fail_def)

lemma run_of_sum [runs, simp]: "run_state (of_sum r) s = (r, s)"
  by (simp add: of_sum_def)

lemma run_gets [runs, simp]: "run_state (gets f) s = (f s, s)"
  by (simp add: gets_def)

lemma run_modify [runs, simp]: "run_state (modify f) s = ((), f s)"
  by (simp add: modify_def)

lemma run_tryw [runs]:
  "run_state (tryw w m k) s =
     (case run_state m s of (r, s') \<Rightarrow>
        (case r of Inl e \<Rightarrow> (Inl (w e), s') | Inr x \<Rightarrow> run_state (k x) s'))"
  by (simp add: tryw_def split: prod.splits sum.splits)

lemma run_bind_prod [runs]:
  "run_state (State_Monad.bind m k) s = (case run_state m s of (r, s') \<Rightarrow> run_state (k r) s')"
  by simp

section \<open>Sending a request\<close>

definition http_send :: "'w env \<Rightarrow> request \<Rightarrow> ('w, response) go" where
  "http_send E rq = State (\<lambda>s.
     (case send E rq (world s) of (r, w') \<Rightarrow>
        (r, s\<lparr>world := w', wire := (rq, r) # wire s\<rparr>)))"

lemma run_http_send [runs]:
  "run_state (http_send E rq) s =
     (fst (send E rq (world s)),
      s\<lparr>world := snd (send E rq (world s)), wire := (rq, fst (send E rq (world s))) # wire s\<rparr>)"
  by (simp add: http_send_def split: prod.splits)

section \<open>The contract: nothing is sent after a rejected credential\<close>

text \<open>
  Under Basic authentication SAP counts every rejected request as a failed logon. An exchange is
  a rejection when SAP answered 401; \<open>stops401 P m\<close> says that a run of \<open>m\<close> with Basic
  authentication sends nothing after the first rejection, and that the result then satisfies \<open>P\<close>.
\<close>

definition is401 :: "request \<times> (err + response) \<Rightarrow> bool" where
  "is401 ev = (case snd ev of Inl _ \<Rightarrow> False | Inr r \<Rightarrow> rs_status r = 401)"

definition no401 :: "(request \<times> (err + response)) list \<Rightarrow> bool" where
  "no401 es = list_all (\<lambda>ev. \<not> is401 ev) es"

definition stopped :: "('r \<Rightarrow> bool) \<Rightarrow> 'r \<Rightarrow> (request \<times> (err + response)) list \<Rightarrow> bool" where
  "stopped P r es \<longleftrightarrow> no401 es \<or> (\<exists>ev rest. es = ev # rest \<and> is401 ev \<and> no401 rest \<and> P r)"

definition stops401 :: "('r \<Rightarrow> bool) \<Rightarrow> ('w cl, 'r) state \<Rightarrow> bool" where
  "stops401 P m \<longleftrightarrow> (\<forall>s r s'. run_state m s = (r, s') \<longrightarrow> oauth s = None \<longrightarrow>
     oauth s' = None \<and> (\<exists>es. wire s' = es @ wire s \<and> stopped P r es))"

text \<open>
  \<open>silent P m\<close>: a run of \<open>m\<close> with Basic authentication sends nothing at all, and its result
  satisfies \<open>P\<close>.
\<close>

definition silent :: "('r \<Rightarrow> bool) \<Rightarrow> ('w cl, 'r) state \<Rightarrow> bool" where
  "silent P m \<longleftrightarrow> (\<forall>s r s'. run_state m s = (r, s') \<longrightarrow> oauth s = None \<longrightarrow>
     wire s' = wire s \<and> oauth s' = None \<and> P r)"

definition unauth :: "err + 'a \<Rightarrow> bool" where
  "unauth r = (case r of Inl e \<Rightarrow> is_unauthorized e | Inr _ \<Rightarrow> False)"

definition resp401 :: "err + response \<Rightarrow> bool" where
  "resp401 r = (case r of Inl e \<Rightarrow> is_unauthorized e | Inr resp \<Rightarrow> rs_status resp = 401)"

lemma no401_simps [simp]:
  "no401 []"
  "no401 (ev # es) \<longleftrightarrow> \<not> is401 ev \<and> no401 es"
  "no401 (es @ fs) \<longleftrightarrow> no401 es \<and> no401 fs"
  by (simp_all add: no401_def)

lemma unauth_simps [simp]:
  "unauth (Inl e) = is_unauthorized e"
  "unauth (Inr x) = False"
  by (simp_all add: unauth_def)

lemma resp401_simps [simp]:
  "resp401 (Inl e) = is_unauthorized e"
  "resp401 (Inr r) \<longleftrightarrow> rs_status r = 401"
  by (simp_all add: resp401_def)

lemma stopped_Nil [simp]: "stopped P r []"
  by (simp add: stopped_def)

lemma stopped_append:
  assumes "no401 es" and "stopped P r fs"
  shows "stopped P r (fs @ es)"
  using assms unfolding stopped_def by (cases fs) auto

lemma stopped_weaken: "stopped P r es \<Longrightarrow> (P r \<Longrightarrow> Q r) \<Longrightarrow> stopped Q r es"
  unfolding stopped_def by blast

lemma silentI:
  "(\<And>s r s'. run_state m s = (r, s') \<Longrightarrow> oauth s = None \<Longrightarrow>
      wire s' = wire s \<and> oauth s' = None \<and> P r) \<Longrightarrow> silent P m"
  by (simp add: silent_def)

lemma silentD:
  "silent P m \<Longrightarrow> run_state m s = (r, s') \<Longrightarrow> oauth s = None \<Longrightarrow>
     wire s' = wire s \<and> oauth s' = None \<and> P r"
  by (simp add: silent_def)

lemma stops401I:
  "(\<And>s r s'. run_state m s = (r, s') \<Longrightarrow> oauth s = None \<Longrightarrow>
      oauth s' = None \<and> (\<exists>es. wire s' = es @ wire s \<and> stopped P r es)) \<Longrightarrow> stops401 P m"
  by (simp add: stops401_def)

lemma stops401E:
  assumes "stops401 P m" and "run_state m s = (r, s')" and "oauth s = None"
  obtains es where "oauth s' = None" "wire s' = es @ wire s" "stopped P r es"
  using assms(1) [unfolded stops401_def, rule_format, OF assms(2,3)] that by blast

lemma stops401_weaken:
  assumes "stops401 P m" and "\<And>r. P r \<Longrightarrow> Q r"
  shows "stops401 Q m"
proof (rule stops401I)
  fix s r s'
  assume "run_state m s = (r, s')" and "oauth s = None"
  with assms(1) obtain es where es: "oauth s' = None" "wire s' = es @ wire s" "stopped P r es"
    by (rule stops401E)
  from es(3) assms(2) have "stopped Q r es" by (rule stopped_weaken)
  with es show "oauth s' = None \<and> (\<exists>es. wire s' = es @ wire s \<and> stopped Q r es)" by auto
qed

lemma silent_stops:
  assumes "silent (\<lambda>_. True) m"
  shows "stops401 P m"
proof (rule stops401I)
  fix s r s'
  assume "run_state m s = (r, s')" and "oauth s = None"
  from silentD [OF assms this]
  show "oauth s' = None \<and> (\<exists>es. wire s' = es @ wire s \<and> stopped P r es)" by simp
qed

lemma silent_weaken:
  assumes "silent P m" and "\<And>r. P r \<Longrightarrow> Q r"
  shows "silent Q m"
  by (rule silentI) (use silentD [OF assms(1)] assms(2) in simp)

lemma silent_return [intro!]: "P r \<Longrightarrow> silent P (State_Monad.return r)"
  by (simp add: silent_def)

lemma silent_ok [intro!]: "P (Inr x) \<Longrightarrow> silent P (ok x)"
  by (simp add: silent_def)

lemma silent_fail [intro!]: "P (Inl e) \<Longrightarrow> silent P (fail e)"
  by (simp add: silent_def)

lemma silent_of_sum [intro!]: "P r \<Longrightarrow> silent P (of_sum r)"
  by (simp add: silent_def)

lemma silent_gets: "(\<And>s. oauth s = None \<Longrightarrow> P (f s)) \<Longrightarrow> silent P (gets f)"
  by (simp add: silent_def)

lemma silent_modify [intro!]:
  "P () \<Longrightarrow> (\<And>s. wire (f s) = wire s) \<Longrightarrow> (\<And>s. oauth (f s) = oauth s) \<Longrightarrow> silent P (modify f)"
  by (simp add: silent_def)

lemma silent_bind:
  assumes "silent P m" and "\<And>r. P r \<Longrightarrow> silent Q (k r)"
  shows "silent Q (State_Monad.bind m k)"
proof (rule silentI)
  fix s r s'
  assume "run_state (State_Monad.bind m k) s = (r, s')" and o: "oauth s = None"
  then obtain r1 s1 where 1: "run_state m s = (r1, s1)" "run_state (k r1) s1 = (r, s')"
    by (auto split: prod.splits)
  from silentD [OF assms(1) 1(1) o] have m: "wire s1 = wire s" "oauth s1 = None" "P r1"
    by simp_all
  from silentD [OF assms(2) [OF m(3)] 1(2) m(2)] m
  show "wire s' = wire s \<and> oauth s' = None \<and> Q r" by simp
qed

lemma silent_tryw:
  assumes "silent P m" and "\<And>x. P (Inr x) \<Longrightarrow> silent Q (k x)" and "\<And>e. P (Inl e) \<Longrightarrow> Q (Inl (w e))"
  shows "silent Q (tryw w m k)"
  unfolding tryw_def
  using assms by (intro silent_bind [OF assms(1)]) (auto split: sum.splits)

text \<open>
  The sequencing rule: after a run of \<open>m\<close> that was not rejected, \<open>k\<close> goes on; after a rejected
  one (then \<open>P\<close> holds of its result) \<open>k\<close> must be silent.
\<close>

lemma stops401_bind:
  assumes m: "stops401 P m"
    and k: "\<And>r. stops401 Q (k r)"
    and rej: "\<And>r. P r \<Longrightarrow> silent Q (k r)"
  shows "stops401 Q (State_Monad.bind m k)"
proof (rule stops401I)
  fix s r s'
  assume run: "run_state (State_Monad.bind m k) s = (r, s')" and o: "oauth s = None"
  then obtain r1 s1 where 1: "run_state m s = (r1, s1)" "run_state (k r1) s1 = (r, s')"
    by (auto split: prod.splits)
  from m 1(1) o obtain es where es: "oauth s1 = None" "wire s1 = es @ wire s" "stopped P r1 es"
    by (rule stops401E)
  from k 1(2) es(1) obtain fs where
    fs: "oauth s' = None" "wire s' = fs @ wire s1" "stopped Q r fs"
    by (rule stops401E)
  show "oauth s' = None \<and> (\<exists>gs. wire s' = gs @ wire s \<and> stopped Q r gs)"
  proof (cases "no401 es")
    case True
    with fs es have "stopped Q r (fs @ es)" by (blast intro: stopped_append)
    with fs es show ?thesis by auto
  next
    case False
    with es(3) obtain ev rest where ev: "es = ev # rest" "is401 ev" "no401 rest" "P r1"
      unfolding stopped_def by blast
    from silentD [OF rej [OF ev(4)] 1(2) es(1)] have "wire s' = wire s1" "Q r" by simp_all
    moreover have "stopped Q r es" using ev \<open>Q r\<close> unfolding stopped_def by blast
    ultimately show ?thesis using es fs(1) by auto
  qed
qed

lemma stops401_tryw_gen:
  assumes "stops401 unauth m" and "\<And>x. stops401 Q (k x)"
    and "\<And>e. is_unauthorized e \<Longrightarrow> Q (Inl (w e))"
  shows "stops401 Q (tryw w m k)"
  unfolding tryw_def
proof (rule stops401_bind [OF assms(1)])
  show "stops401 Q (case r of Inl e \<Rightarrow> fail (w e) | Inr x \<Rightarrow> k x)" for r
    using assms(2) by (cases r) (auto intro: silent_stops)
  show "silent Q (case r of Inl e \<Rightarrow> fail (w e) | Inr x \<Rightarrow> k x)" if "unauth r" for r
    using that assms(3) by (cases r) auto
qed

lemma stops401_tryw [stops]:
  assumes "stops401 unauth m" and "\<And>x. stops401 unauth (k x)"
    and "\<And>e. is_unauthorized e \<Longrightarrow> is_unauthorized (w e)"
  shows "stops401 unauth (tryw w m k)"
  using assms by (intro stops401_tryw_gen) auto

text \<open>The same with a raw response: a 401 comes back as a value, which \<open>k\<close> must turn into \<open>Q\<close>.\<close>

lemma stops401_tryw_resp:
  assumes "stops401 resp401 m" and "\<And>x. stops401 Q (k x)"
    and "\<And>x. rs_status x = 401 \<Longrightarrow> silent Q (k x)"
    and "\<And>e. is_unauthorized e \<Longrightarrow> Q (Inl (w e))"
  shows "stops401 Q (tryw w m k)"
  unfolding tryw_def
proof (rule stops401_bind [OF assms(1)])
  show "stops401 Q (case r of Inl e \<Rightarrow> fail (w e) | Inr x \<Rightarrow> k x)" for r
    using assms(2) by (cases r) (auto intro: silent_stops)
  show "silent Q (case r of Inl e \<Rightarrow> fail (w e) | Inr x \<Rightarrow> k x)" if "resp401 r" for r
    using that assms(3,4) by (cases r) auto
qed

lemma stops401_return [stops]: "stops401 P (State_Monad.return r)"
  by (auto intro: silent_stops)

lemma stops401_gets [stops]: "stops401 P (gets f)"
  by (auto intro: silent_stops silent_gets)

lemma stops401_pure [stops]:
  "stops401 P (ok x)" "stops401 P (fail e)" "stops401 P (of_sum r)"
  by (auto intro: silent_stops)

lemma stops401_if [stops]:
  "(b \<Longrightarrow> stops401 P m) \<Longrightarrow> (\<not> b \<Longrightarrow> stops401 P n) \<Longrightarrow> stops401 P (if b then m else n)"
  by simp

lemma stops401_bind_gets [stops]:
  assumes "\<And>s. oauth s = None \<Longrightarrow> stops401 Q (k (f s))"
  shows "stops401 Q (State_Monad.bind (gets f) k)"
proof (rule stops401I)
  fix s r s'
  assume "run_state (State_Monad.bind (gets f) k) s = (r, s')" and o: "oauth s = None"
  then have "run_state (k (f s)) s = (r, s')" by simp
  from stops401E [OF assms [OF o] this o]
  show "oauth s' = None \<and> (\<exists>es. wire s' = es @ wire s \<and> stopped Q r es)" by metis
qed

lemma silent_bind_gets:
  assumes "\<And>s. oauth s = None \<Longrightarrow> silent Q (k (f s))"
  shows "silent Q (State_Monad.bind (gets f) k)"
proof (rule silentI)
  fix s r s'
  assume "run_state (State_Monad.bind (gets f) k) s = (r, s')" and o: "oauth s = None"
  then have "run_state (k (f s)) s = (r, s')" by simp
  from silentD [OF assms [OF o] this o]
  show "wire s' = wire s \<and> oauth s' = None \<and> Q r" .
qed

lemma stops401_bind_modify [stops]:
  assumes "\<And>s. wire (f s) = wire s" and "\<And>s. oauth (f s) = oauth s" and "stops401 Q (k ())"
  shows "stops401 Q (State_Monad.bind (modify f) k)"
  using assms by (intro stops401_bind [where P = "\<lambda>_. False"]) (auto simp: stops401_def)

lemma stops401_http_send: "stops401 resp401 (http_send E rq)"
  by (auto simp: stops401_def run_http_send stopped_def is401_def split: sum.splits)

section \<open>What a run sends\<close>

text \<open>\<open>emits P m\<close>: every request a run of \<open>m\<close> sends satisfies \<open>P\<close>.\<close>

named_theorems sends "what the operations send"

definition emits :: "(request \<Rightarrow> bool) \<Rightarrow> ('w cl, 'r) state \<Rightarrow> bool" where
  "emits P m \<longleftrightarrow> (\<forall>s r s'. run_state m s = (r, s') \<longrightarrow>
     (\<exists>es. wire s' = es @ wire s \<and> list_all (\<lambda>ev. P (fst ev)) es))"

lemma emitsI:
  "(\<And>s r s'. run_state m s = (r, s') \<Longrightarrow>
     \<exists>es. wire s' = es @ wire s \<and> list_all (\<lambda>ev. P (fst ev)) es) \<Longrightarrow> emits P m"
  by (simp add: emits_def)

lemma emitsE:
  assumes "emits P m" and "run_state m s = (r, s')"
  obtains es where "wire s' = es @ wire s" "list_all (\<lambda>ev. P (fst ev)) es"
  using assms(1) [unfolded emits_def, rule_format, OF assms(2)] that by blast

lemma emits_run:
  assumes "emits P m"
  shows "\<exists>es. wire (snd (run_state m s)) = es @ wire s \<and> list_all (\<lambda>ev. P (fst ev)) es"
  using assms [unfolded emits_def, rule_format, OF surjective_pairing] .

lemma emits_weaken:
  assumes "emits P m" and "\<And>rq. P rq \<Longrightarrow> Q rq"
  shows "emits Q m"
proof (rule emitsI)
  fix s r s'
  assume "run_state m s = (r, s')"
  with assms(1) obtain es where es: "wire s' = es @ wire s" "list_all (\<lambda>ev. P (fst ev)) es"
    by (rule emitsE)
  from es(2) have "list_all (\<lambda>ev. Q (fst ev)) es"
    using assms(2) by (simp add: list_all_iff)
  with es(1) show "\<exists>es. wire s' = es @ wire s \<and> list_all (\<lambda>ev. Q (fst ev)) es" by blast
qed

lemma emits_same_wire:
  assumes "\<And>s r s'. run_state m s = (r, s') \<Longrightarrow> wire s' = wire s"
  shows "emits P m"
  by (rule emitsI) (use assms in fastforce)

lemma emits_pure [sends]:
  "emits P (State_Monad.return r)" "emits P (gets f)"
  by (auto intro: emits_same_wire)

lemma emits_pure_sum [sends]:
  "emits P (ok x)" "emits P (fail e)" "emits P (of_sum z)"
  by (auto intro: emits_same_wire)

lemma emits_modify [sends]: "(\<And>s. wire (f s) = wire s) \<Longrightarrow> emits P (modify f)"
  by (rule emits_same_wire) auto

lemma emits_bind [sends]:
  assumes "emits P m" and "\<And>r. emits P (k r)"
  shows "emits P (State_Monad.bind m k)"
proof (rule emitsI)
  fix s r s'
  assume "run_state (State_Monad.bind m k) s = (r, s')"
  then obtain r1 s1 where 1: "run_state m s = (r1, s1)" "run_state (k r1) s1 = (r, s')"
    by (auto split: prod.splits)
  from assms(1) 1(1) obtain es where es: "wire s1 = es @ wire s" "list_all (\<lambda>ev. P (fst ev)) es"
    by (rule emitsE)
  from assms(2) 1(2) obtain fs where fs: "wire s' = fs @ wire s1" "list_all (\<lambda>ev. P (fst ev)) fs"
    by (rule emitsE)
  show "\<exists>es. wire s' = es @ wire s \<and> list_all (\<lambda>ev. P (fst ev)) es"
    by (rule exI [of _ "fs @ es"]) (simp add: es fs)
qed

lemma emits_tryw [sends]:
  "emits P m \<Longrightarrow> (\<And>x. emits P (k x)) \<Longrightarrow> emits P (tryw w m k)"
  unfolding tryw_def by (intro sends) (auto split: sum.splits intro: sends)

lemma emits_http_send [sends]: "P rq \<Longrightarrow> emits P (http_send E rq)"
  by (rule emitsI) (auto simp: run_http_send)

lemma emits_if [sends]: "(b \<Longrightarrow> emits P m) \<Longrightarrow> (\<not> b \<Longrightarrow> emits P n) \<Longrightarrow> emits P (if b then m else n)"
  by simp

section \<open>What a run returns\<close>

text \<open>\<open>yields P m\<close>: whatever the state, the result of \<open>m\<close> satisfies \<open>P\<close>.\<close>

named_theorems yields_intro "results of the operations"

definition yields :: "('r \<Rightarrow> bool) \<Rightarrow> ('s, 'r) state \<Rightarrow> bool" where
  "yields P m \<longleftrightarrow> (\<forall>s. P (fst (run_state m s)))"

lemma yieldsD: "yields P m \<Longrightarrow> run_state m s = (r, s') \<Longrightarrow> P r"
  by (metis fst_conv yields_def)

lemma yields_weaken: "yields P m \<Longrightarrow> (\<And>r. P r \<Longrightarrow> Q r) \<Longrightarrow> yields Q m"
  by (simp add: yields_def)

lemma yields_pure [yields_intro]:
  "P r \<Longrightarrow> yields P (State_Monad.return r)" "(\<And>s. P (f s)) \<Longrightarrow> yields P (gets f)"
  by (simp_all add: yields_def)

lemma yields_pure_sum [yields_intro]:
  "P (Inr x) \<Longrightarrow> yields P (ok x)" "P (Inl e) \<Longrightarrow> yields P (fail e)" "P z \<Longrightarrow> yields P (of_sum z)"
  by (simp_all add: yields_def)

lemma yields_any: "(\<And>r. P r) \<Longrightarrow> yields P m"
  by (simp add: yields_def)

lemma yields_bind:
  assumes "yields P m" and "\<And>r. P r \<Longrightarrow> yields Q (k r)"
  shows "yields Q (State_Monad.bind m k)"
  using assms unfolding yields_def by (simp add: case_prod_beta')

lemma yields_bind_any: "(\<And>r. yields Q (k r)) \<Longrightarrow> yields Q (State_Monad.bind m k)"
  by (rule yields_bind [where P = "\<lambda>_. True"]) (auto intro: yields_any)

lemma yields_bind_gets [yields_intro]: "(\<And>r. yields Q (k r)) \<Longrightarrow> yields Q (State_Monad.bind (gets f) k)"
  by (rule yields_bind_any)

lemma yields_bind_modify [yields_intro]: "yields Q (k ()) \<Longrightarrow> yields Q (State_Monad.bind (modify f) k)"
  by (rule yields_bind_any) simp

definition errs :: "(err \<Rightarrow> bool) \<Rightarrow> err + 'a \<Rightarrow> bool" where
  "errs P r = (case r of Inl e \<Rightarrow> P e | Inr _ \<Rightarrow> True)"

lemma errs_simps [simp]: "errs P (Inl e) = P e" "errs P (Inr x)"
  by (simp_all add: errs_def)

lemma yields_tryw [yields_intro]:
  assumes "yields (errs P) m" and "\<And>x. yields (errs P) (k x)" and "\<And>e. P e \<Longrightarrow> P (w e)"
  shows "yields (errs P) (tryw w m k)"
  unfolding tryw_def
  by (rule yields_bind [OF assms(1)]) (use assms(2,3) in \<open>auto split: sum.splits intro: yields_intro\<close>)

lemma yields_if [yields_intro]: "(b \<Longrightarrow> yields P m) \<Longrightarrow> (\<not> b \<Longrightarrow> yields P n) \<Longrightarrow> yields P (if b then m else n)"
  by simp

lemma emits_tryw_yields:
  assumes "emits P m" and "yields Q m" and "\<And>x. Q (Inr x) \<Longrightarrow> emits P (k x)"
  shows "emits P (tryw w m k)"
proof (rule emitsI)
  fix s r s'
  assume "run_state (tryw w m k) s = (r, s')"
  then obtain r1 s1 where 1: "run_state m s = (r1, s1)"
    "run_state (case r1 of Inl e \<Rightarrow> fail (w e) | Inr x \<Rightarrow> k x) s1 = (r, s')"
    by (auto simp: tryw_def split: prod.splits)
  from assms(1) 1(1) obtain es where es: "wire s1 = es @ wire s" "list_all (\<lambda>ev. P (fst ev)) es"
    by (rule emitsE)
  have "emits P (case r1 of Inl e \<Rightarrow> fail (w e) | Inr x \<Rightarrow> k x)"
    using yieldsD [OF assms(2) 1(1)] assms(3) by (auto split: sum.splits intro: sends)
  from this 1(2) obtain fs where fs: "wire s' = fs @ wire s1" "list_all (\<lambda>ev. P (fst ev)) fs"
    by (rule emitsE)
  show "\<exists>es. wire s' = es @ wire s \<and> list_all (\<lambda>ev. P (fst ev)) es"
    by (rule exI [of _ "fs @ es"]) (simp add: es fs)
qed

lemma stops401_yields:
  assumes "stops401 P m" and "yields Q m"
  shows "stops401 (\<lambda>r. P r \<and> Q r) m"
proof (rule stops401I)
  fix s r s'
  assume run: "run_state m s = (r, s')" and o: "oauth s = None"
  from assms(1) run o obtain es where es: "oauth s' = None" "wire s' = es @ wire s" "stopped P r es"
    by (rule stops401E)
  have "Q r" using yieldsD [OF assms(2) run] .
  with es(3) have "stopped (\<lambda>r. P r \<and> Q r) r es" by (blast intro: stopped_weaken)
  with es show "oauth s' = None \<and> (\<exists>es. wire s' = es @ wire s \<and> stopped (\<lambda>r. P r \<and> Q r) r es)" by blast
qed

section \<open>What a run changes in SAP\<close>

text \<open>
  An exchange took effect when it is no read and SAP answered with success. \<open>quiet m\<close>: a run
  of \<open>m\<close> takes no effect (\<open>still P m\<close>: and its result satisfies \<open>P\<close>); \<open>counts S m\<close>: a run takes effect once
  when its result satisfies \<open>S\<close>, and not at all otherwise.
\<close>

named_theorems effects "operations and the effects they take"

definition took_effect :: "request \<times> (err + response) \<Rightarrow> bool" where
  "took_effect ev \<longleftrightarrow> rq_method (fst ev) \<noteq> ''GET''
     \<and> (case snd ev of Inl _ \<Rightarrow> False | Inr r \<Rightarrow> rs_status r < 400)"

definition effect_count :: "(request \<times> (err + response)) list \<Rightarrow> nat" where
  "effect_count es = length (filter took_effect es)"

lemma effect_count_simps [simp]:
  "effect_count [] = 0"
  "effect_count (ev # es) = (if took_effect ev then Suc (effect_count es) else effect_count es)"
  "effect_count (es @ fs) = effect_count es + effect_count fs"
  by (simp_all add: effect_count_def)

definition counts :: "('r \<Rightarrow> nat \<Rightarrow> bool) \<Rightarrow> ('w cl, 'r) state \<Rightarrow> bool" where
  "counts S m \<longleftrightarrow> (\<forall>s r s'. run_state m s = (r, s') \<longrightarrow>
     (\<exists>es. wire s' = es @ wire s \<and> S r (effect_count es)))"

abbreviation still :: "('r \<Rightarrow> bool) \<Rightarrow> ('w cl, 'r) state \<Rightarrow> bool" where
  "still P \<equiv> counts (\<lambda>r n. n = 0 \<and> P r)"

abbreviation quiet :: "('w cl, 'r) state \<Rightarrow> bool" where
  "quiet \<equiv> counts (\<lambda>r n. n = 0)"

abbreviation once :: "('r \<Rightarrow> bool) \<Rightarrow> ('w cl, 'r) state \<Rightarrow> bool" where
  "once P \<equiv> counts (\<lambda>r n. n = (if P r then 1 else 0))"

lemma countsI:
  "(\<And>s r s'. run_state m s = (r, s') \<Longrightarrow> \<exists>es. wire s' = es @ wire s \<and> S r (effect_count es)) \<Longrightarrow> counts S m"
  by (simp add: counts_def)

lemma countsE:
  assumes "counts S m" and "run_state m s = (r, s')"
  obtains es where "wire s' = es @ wire s" "S r (effect_count es)"
  using assms(1) [unfolded counts_def, rule_format, OF assms(2)] that by blast

lemma counts_run:
  assumes "counts S m"
  shows "\<exists>es. wire (snd (run_state m s)) = es @ wire s \<and> S (fst (run_state m s)) (effect_count es)"
  using assms [unfolded counts_def, rule_format, OF surjective_pairing] .

lemma counts_weaken:
  assumes "counts S m" and "\<And>r n. S r n \<Longrightarrow> T r n"
  shows "counts T m"
proof (rule countsI)
  fix s r s'
  assume "run_state m s = (r, s')"
  with assms(1) obtain es where "wire s' = es @ wire s" "S r (effect_count es)" by (rule countsE)
  with assms(2) show "\<exists>es. wire s' = es @ wire s \<and> T r (effect_count es)" by blast
qed

lemma counts_silent:
  assumes "\<And>s r s'. run_state m s = (r, s') \<Longrightarrow> wire s' = wire s \<and> S r 0"
  shows "counts S m"
  by (rule countsI) (use assms in fastforce)

lemma counts_pure [effects]:
  "S r 0 \<Longrightarrow> counts S (State_Monad.return r)"
  "(\<And>s. S (f s) 0) \<Longrightarrow> counts S (gets f)"
  by (rule counts_silent, force)+

lemma counts_pure_sum [effects]:
  "S (Inr x) 0 \<Longrightarrow> counts S (ok x)" "S (Inl e) 0 \<Longrightarrow> counts S (fail e)" "S z 0 \<Longrightarrow> counts S (of_sum z)"
  by (auto intro: counts_silent)

lemma counts_modify [effects]: "(\<And>s. wire (f s) = wire s) \<Longrightarrow> S () 0 \<Longrightarrow> counts S (modify f)"
  by (rule counts_silent) force

lemma counts_bind:
  assumes "counts S m" and "\<And>r n. S r n \<Longrightarrow> counts (\<lambda>r' n'. T r' (n + n')) (k r)"
  shows "counts T (State_Monad.bind m k)"
proof (rule countsI)
  fix s r s'
  assume "run_state (State_Monad.bind m k) s = (r, s')"
  then obtain r1 s1 where 1: "run_state m s = (r1, s1)" "run_state (k r1) s1 = (r, s')"
    by (auto split: prod.splits)
  from assms(1) 1(1) obtain es where es: "wire s1 = es @ wire s" "S r1 (effect_count es)"
    by (rule countsE)
  from assms(2) [OF es(2)] 1(2) obtain fs where
    fs: "wire s' = fs @ wire s1" "T r (effect_count es + effect_count fs)" by (rule countsE)
  show "\<exists>es. wire s' = es @ wire s \<and> T r (effect_count es)"
    by (rule exI [of _ "fs @ es"]) (use es fs in \<open>simp add: add.commute\<close>)
qed

lemma counts_bind_still:
  assumes "still P m" and "\<And>r. P r \<Longrightarrow> counts T (k r)"
  shows "counts T (State_Monad.bind m k)"
  by (rule counts_bind [OF assms(1)]) (use assms(2) in auto)

lemma counts_bind_once:
  assumes "once P m" and "\<And>r. P r \<Longrightarrow> counts (\<lambda>r' n'. T r' (Suc n')) (k r)"
    and "\<And>r. \<not> P r \<Longrightarrow> counts T (k r)"
  shows "counts T (State_Monad.bind m k)"
  by (rule counts_bind [OF assms(1)]) (use assms(2,3) in \<open>auto split: if_splits\<close>)

lemma counts_bind_gets [effects]:
  "(\<And>x. counts T (k x)) \<Longrightarrow> counts T (State_Monad.bind (gets f) k)"
  by (rule counts_bind_still [where P = "\<lambda>_. True"]) (auto intro: effects)

lemma counts_bind_modify [effects]:
  "(\<And>s. wire (f s) = wire s) \<Longrightarrow> counts T (k ()) \<Longrightarrow> counts T (State_Monad.bind (modify f) k)"
  by (rule counts_bind_still [where P = "\<lambda>_. True"]) (auto intro: effects)

lemma counts_tryw_still:
  assumes "still P m" and "\<And>x. P (Inr x) \<Longrightarrow> counts T (k x)" and "\<And>e. P (Inl e) \<Longrightarrow> T (Inl (w e)) 0"
  shows "counts T (tryw w m k)"
  unfolding tryw_def
  by (rule counts_bind_still [OF assms(1)]) (use assms(2,3) in \<open>auto split: sum.splits intro: effects\<close>)

lemma counts_bind_quiet:
  "quiet m \<Longrightarrow> (\<And>r. counts T (k r)) \<Longrightarrow> counts T (State_Monad.bind m k)"
  by (rule counts_bind_still [where P = "\<lambda>_. True"]) auto

lemma counts_tryw_quiet:
  "quiet m \<Longrightarrow> (\<And>x. counts T (k x)) \<Longrightarrow> (\<And>e. T (Inl (w e)) 0) \<Longrightarrow> counts T (tryw w m k)"
  by (rule counts_tryw_still [where P = "\<lambda>_. True"]) auto

lemma counts_tryw_once:
  assumes "once P m" and "\<And>x. P (Inr x) \<Longrightarrow> counts (\<lambda>r' n'. T r' (Suc n')) (k x)"
    and "\<And>x. \<not> P (Inr x) \<Longrightarrow> counts T (k x)"
    and "\<And>e. P (Inl e) \<Longrightarrow> T (Inl (w e)) (Suc 0)" and "\<And>e. \<not> P (Inl e) \<Longrightarrow> T (Inl (w e)) 0"
  shows "counts T (tryw w m k)"
  unfolding tryw_def
  by (rule counts_bind_once [OF assms(1)]) (use assms(2-5) in \<open>auto split: sum.splits intro: effects\<close>)

lemma counts_if [effects]: "(b \<Longrightarrow> counts S m) \<Longrightarrow> (\<not> b \<Longrightarrow> counts S n) \<Longrightarrow> counts S (if b then m else n)"
  by simp

lemma quiet_http_get: "rq_method rq = ''GET'' \<Longrightarrow> quiet (http_send E rq)"
  by (rule countsI) (auto simp: run_http_send took_effect_def)

definition succeeded :: "err + response \<Rightarrow> bool" where
  "succeeded r = (case r of Inl _ \<Rightarrow> False | Inr x \<Rightarrow> rs_status x < 400)"

lemma succeeded_simps [simp]: "\<not> succeeded (Inl e)" "succeeded (Inr x) \<longleftrightarrow> rs_status x < 400"
  by (simp_all add: succeeded_def)

lemma once_http_send: "rq_method rq \<noteq> ''GET'' \<Longrightarrow> once succeeded (http_send E rq)"
  by (rule countsI) (auto simp: run_http_send took_effect_def split: sum.splits)

section \<open>A concrete outside world\<close>

text \<open>
  An environment whose outside world is the list of responses still to come, for examples: each
  request takes the next one, and a world without responses refuses the connection.
\<close>

definition scripted :: "response list env" where
  "scripted = \<lparr>cfg_host = ''http://sap'', cfg_client = ''100'', cfg_user = ''DEVELOPER'',
     cfg_password = ''secret'', cfg_language = ''EN'',
     send = (\<lambda>rq w. case w of [] \<Rightarrow> (Inl (Msg ''connection refused''), [])
       | r # rs \<Rightarrow> (Inr (r\<lparr>rs_body_err := None\<rparr>), rs)),
     url_err = (\<lambda>_. None), refresh_cb = None, unmarshal_xml = (\<lambda>_. Inl (Msg ''EOF'')),
     ctx_err = (\<lambda>_. None)\<rparr>"

definition answer :: "int \<Rightarrow> string \<Rightarrow> response" where
  "answer status body = \<lparr>rs_status = status, rs_headers = [(''X-CSRF-Token'', ''tok'')],
     rs_body = body, rs_body_err = None\<rparr>"

definition new_client :: "'w \<Rightarrow> 'w cl" where
  "new_client w = \<lparr>csrfToken = [], hasSecureCookies = False, discovery = [],
     removeObjectSupport = RemoveObjectUnknown, oauth = None, jar = 0, next_jar = 1,
     world = w, wire = []\<rparr>"

lemma new_client_simps [simp]:
  "oauth (new_client w) = None" "wire (new_client w) = []" "world (new_client w) = w"
  "csrfToken (new_client w) = []" "jar (new_client w) = 0" "next_jar (new_client w) = 1"
  by (simp_all add: new_client_def)

end
