(* ===== verification/Client.thy ===== *)
theory Client
  imports Effects
begin

text \<open>
  The HTTP client (\<open>adt/client.go\<close>, \<open>adt/redirect.go\<close>, \<open>adt/discovery.go\<close>, \<open>adt/flavor.go\<close>,
  \<open>adt/cookiejar.go\<close>): credentials, the CSRF preflight, reads and writes with their retries,
  error bodies, namespace paths, redirects and the session's cookie jar.

  The client is used by one goroutine here; requests that race for a token refresh are the
  subject of \<open>TokenSource\<close>.
\<close>

section \<open>Credentials\<close>

definition is_word_start :: "char \<Rightarrow> bool" where
  "is_word_start c \<longleftrightarrow> is_upper c \<or> is_lower c \<or> c = CHR ''_''"

text \<open>\<open>envPlaceholderRe\<close>: the whole value is one \<open>${env:NAME}\<close>.\<close>

definition is_env_placeholder :: "string \<Rightarrow> bool" where
  "is_env_placeholder v \<longleftrightarrow>
     has_prefix v ''${env:'' \<and>
     (let body = drop 6 v in
      body \<noteq> [] \<and> last body = CHR ''}'' \<and>
      (case butlast body of [] \<Rightarrow> False
       | c # cs \<Rightarrow> is_word_start c \<and> list_all is_word_char cs))"

definition checkResolved :: "string \<Rightarrow> string \<Rightarrow> err option" where
  "checkResolved field v =
     (if is_env_placeholder v then
        Some (wrapf (''adt: '' @ field @ '' is an unresolved '' @ v
          @ '' placeholder; load the config with sapmcpconfig.Load or resolve it before creating the client: '')
          (Sentinel ErrUnresolvedPlaceholder))
      else None)"

text \<open>\<open>tokenSource.current\<close> and \<open>canRefresh\<close>; \<open>None\<close> is the nil source of Basic authentication.\<close>

definition current_token :: "'w cl \<Rightarrow> string" where
  "current_token s = (case oauth s of None \<Rightarrow> [] | Some t \<Rightarrow> t)"

definition canRefresh :: "'w env \<Rightarrow> 'w cl \<Rightarrow> bool" where
  "canRefresh E s \<longleftrightarrow> oauth s \<noteq> None \<and> refresh_cb E \<noteq> None"

definition set_header :: "(string \<times> string) list \<Rightarrow> string \<Rightarrow> string \<Rightarrow> (string \<times> string) list" where
  "set_header hs k v = filter (\<lambda>(k', _). \<not> equal_fold k' k) hs @ [(k, v)]"

definition set_headers :: "(string \<times> string) list \<Rightarrow> (string \<times> string) list \<Rightarrow> (string \<times> string) list" where
  "set_headers hs kvs = fold (\<lambda>(k, v) h. set_header h k v) kvs hs"

definition logon_headers :: "'w env \<Rightarrow> (string \<times> string) list" where
  "logon_headers E =
     (let lang = trim_space (cfg_language E) in
      (if cfg_client E \<noteq> [] then [(''sap-client'', cfg_client E)] else [])
      @ (if lang \<noteq> [] then
           (''sap-language'', to_upper lang)
           # (if length lang = 2 then [(''Accept-Language'', to_lower lang)] else [])
         else []))"

text \<open>\<open>setAuth\<close>: the credential and the logon headers of a request, and the OAuth token sent.\<close>

definition setAuth :: "'w env \<Rightarrow> string \<Rightarrow> err + (credential \<times> (string \<times> string) list \<times> string)" where
  "setAuth E token =
     (if token \<noteq> [] then Inr (Bearer token, logon_headers E, token)
      else case checkResolved ''user'' (cfg_user E) of
        Some e \<Rightarrow> Inl e
      | None \<Rightarrow>
          (case checkResolved ''password'' (cfg_password E) of
             Some e \<Rightarrow> Inl e
           | None \<Rightarrow> Inr (Basic (cfg_user E) (cfg_password E), logon_headers E, token)))"

section \<open>Error bodies\<close>

definition modernExcNS :: string where
  "modernExcNS = ''http://www.sap.com/abapxml/types/communicationframework''"

definition htmlNoDetailMessage :: string where
  "htmlNoDetailMessage = ''SAP returned an HTML error page (no parseable detail)''"

definition unauthorizedMessage :: string where
  "unauthorizedMessage =
     ''SAP rejected the logon. Check the credentials (user name and password, or the OAuth token). ''
     @ ''With a user name and password, do not retry repeatedly: failed logons can lock the user.''"

definition noDetailMessage :: "int \<Rightarrow> string \<Rightarrow> string" where
  "noDetailMessage status fallback = (if status = 401 then unauthorizedMessage else fallback)"

text \<open>The submatches of \<open>OPEN([^<]*)</p>\<close>, for the two HTML expressions.\<close>

fun tag_matches :: "string \<Rightarrow> string \<Rightarrow> string list" where
  "tag_matches opn [] = []"
| "tag_matches opn (c # cs) =
     (let rest = drop (length opn) (c # cs);
          t = takeWhile (\<lambda>x. x \<noteq> CHR ''<'') rest
      in if has_prefix (c # cs) opn \<and> has_prefix (dropWhile (\<lambda>x. x \<noteq> CHR ''<'') rest) ''</p>''
         then t # tag_matches opn cs else tag_matches opn cs)"

definition header_open :: string where
  "header_open = ''<p class='' @ [QUOT] @ ''errorTextHeader'' @ [QUOT] @ ''>''"

definition detail_open :: string where
  "detail_open = ''<p class='' @ [QUOT] @ ''detailText'' @ [QUOT] @ ''>''"

definition em_dash :: string where
  "em_dash = [CHR '' '', CHR 0xE2, CHR 0x80, CHR 0x94, CHR '' '']"

definition parseHTMLErrorBody :: "string \<Rightarrow> string" where
  "parseHTMLErrorBody data =
     (let s = trim_space data; head = to_lower (take 64 s) in
      if s = [] then []
      else if \<not> has_prefix head ''<!doctype html'' \<and> \<not> has_prefix head ''<html'' then []
      else
        (let hdr = take 1 (tag_matches header_open s);
             parts = filter (\<lambda>t. t \<noteq> []) (map trim_space (hdr @ tag_matches detail_open s))
         in if parts = [] then htmlNoDetailMessage else join em_dash parts))"

definition exception_entries :: "xml \<Rightarrow> (string \<times> string) list" where
  "exception_entries x =
     map (\<lambda>en. (xml_attr en ''key'', xml_text en)) (kids_path [''properties'', ''entry''] x)"

definition modern_adt_error :: "int \<Rightarrow> xml \<Rightarrow> adt_error" where
  "modern_adt_error status x =
     (let e = (plain_adt_error status (kid_text ''message'' x))
                \<lparr>Namespace := kid_attr ''namespace'' ''id'' x, ExcType := kid_attr ''type'' ''id'' x\<rparr>;
          es = exception_entries x
      in if es = [] then e
         else (let e' = e\<lparr>Properties := rev es\<rparr> in
           e'\<lparr>T100KeyID := property e' ''T100KEY-ID'', T100KeyNo := property e' ''T100KEY-NO'',
              T100Vars := [property e' ''T100KEY-V1'', property e' ''T100KEY-V2'',
                           property e' ''T100KEY-V3'', property e' ''T100KEY-V4'']\<rparr>))"

text \<open>Layers 3 and 4 of \<open>parseADTError\<close>: an HTML page, then the trimmed body.\<close>

definition parse_untagged :: "int \<Rightarrow> string \<Rightarrow> adt_error" where
  "parse_untagged status data =
     (let html = parseHTMLErrorBody data in
      if html \<noteq> [] then
        plain_adt_error status
          (if html = htmlNoDetailMessage then noDetailMessage status html else html)
      else
        (let msg = trim_space data in
         plain_adt_error status (if msg = [] then noDetailMessage status msg else msg)))"

text \<open>Layer 2: the legacy \<open><ExceptionText>\<close> envelope.\<close>

definition parse_legacy :: "'w env \<Rightarrow> int \<Rightarrow> string \<Rightarrow> adt_error" where
  "parse_legacy E status data =
     (case unmarshal_root E ''ExceptionText'' data of
        Inr x \<Rightarrow>
          (if kid_text ''message'' x \<noteq> [] then plain_adt_error status (kid_text ''message'' x)
           else parse_untagged status data)
      | Inl _ \<Rightarrow> parse_untagged status data)"

definition parseADTError :: "'w env \<Rightarrow> int \<Rightarrow> string \<Rightarrow> adt_error" where
  "parseADTError E status data =
     (case unmarshal_root E ''exception'' data of
        Inr x \<Rightarrow>
          (if kid_text ''message'' x \<noteq> [] then
             (if xspace x = modernExcNS then modern_adt_error status x
              else plain_adt_error status (kid_text ''message'' x))
           else parse_legacy E status data)
      | Inl _ \<Rightarrow> parse_legacy E status data)"

definition checkResponse :: "'w env \<Rightarrow> response \<Rightarrow> err option" where
  "checkResponse E r =
     (if rs_status r \<ge> 400 then Some (Adt (parseADTError E (rs_status r) (rs_body r))) else None)"

lemma StatusCode_parse [simp]:
  "StatusCode (parse_untagged n d) = n"
  "StatusCode (parse_legacy E n d) = n"
  "StatusCode (modern_adt_error n x) = n"
  "StatusCode (parseADTError E n d) = n"
  by (simp_all add: parse_untagged_def parse_legacy_def parseADTError_def modern_adt_error_def
      plain_adt_error_def Let_def split: sum.splits)

lemma checkResponse_unauthorized:
  "rs_status r = 401 \<Longrightarrow> \<exists>e. checkResponse E r = Some e \<and> is_unauthorized e"
  by (simp add: checkResponse_def)

lemma checkResponse_Some_unauthorized:
  "checkResponse E r = Some e \<Longrightarrow> is_unauthorized e \<longleftrightarrow> rs_status r = 401"
  by (auto simp: checkResponse_def split: if_splits)

section \<open>Discovery and content negotiation\<close>

text \<open>The map \<open>parseDiscovery\<close> builds, the latest assignment first; \<open>[]\<close> is also the nil map.\<close>

definition parseDiscovery :: "'w env \<Rightarrow> string \<Rightarrow> (string \<times> string list) list" where
  "parseDiscovery E data =
     (case unmarshal_xml E data of
        Inl _ \<Rightarrow> []
      | Inr x \<Rightarrow>
          rev (filter (\<lambda>(href, accepts). href \<noteq> [] \<and> accepts \<noteq> [])
            (map (\<lambda>c. (xml_attr c ''href'', map xml_text (kids_named ''accept'' c)))
              (kids_path [''workspace'', ''collection''] x))))"

definition accepted_types :: "'w cl \<Rightarrow> string \<Rightarrow> string list" where
  "accepted_types s endpoint =
     (case map_of (discovery s) endpoint of None \<Rightarrow> [] | Some ts \<Rightarrow> ts)"

definition negotiate :: "string list \<Rightarrow> string list \<Rightarrow> string \<Rightarrow> string" where
  "negotiate accepted preferred dflt =
     (if accepted = [] then dflt
      else case find (\<lambda>p. p \<in> set accepted) preferred of Some p \<Rightarrow> p | None \<Rightarrow> dflt)"

definition NegotiateContentType ::
    "string \<Rightarrow> string list \<Rightarrow> string \<Rightarrow> ('w cl, string) state" where
  "NegotiateContentType endpoint preferred dflt =
     gets (\<lambda>s. negotiate (accepted_types s endpoint) preferred dflt)"

section \<open>Namespace paths\<close>

text \<open>
  A slice expression \<open>s[i:j]\<close> of Go: \<open>None\<close> is the run-time panic of bounds out of range.
\<close>

definition go_slice :: "string \<Rightarrow> nat \<Rightarrow> nat \<Rightarrow> string option" where
  "go_slice s i j = (if i \<le> j \<and> j \<le> length s then Some (take (j - i) (drop i s)) else None)"

text \<open>
  \<open>encodeNamespacePath\<close> with every slice expression written out; \<open>None\<close> is a panic.
\<close>

definition encode_ns_query :: "string \<Rightarrow> (string \<times> string) option" where
  "encode_ns_query path =
     (case index_byte path (CHR ''?'') of
        None \<Rightarrow> Some (path, [])
      | Some q \<Rightarrow> do {
          query \<leftarrow> go_slice path q (length path);
          p \<leftarrow> go_slice path 0 q;
          Some (p, query) })"

definition encode_ns_segment :: "string \<Rightarrow> nat \<Rightarrow> string option" where
  "encode_ns_segment path idx = do {
     pre \<leftarrow> go_slice path 0 (idx + 1);
     rest \<leftarrow> go_slice path (idx + 1) (length path);
     rest1 \<leftarrow> go_slice rest 1 (length rest);
     (case index_of rest1 ''/'' of
        None \<Rightarrow> Some path
      | Some endNS \<Rightarrow> do {
          nsName \<leftarrow> go_slice rest 1 (endNS + 1);
          after \<leftarrow> go_slice rest (endNS + 2) (length rest);
          (obj, suffix) \<leftarrow>
            (case index_of after ''/'' of
               None \<Rightarrow> Some (after, [])
             | Some i \<Rightarrow> do {
                 o1 \<leftarrow> go_slice after 0 i;
                 s1 \<leftarrow> go_slice after i (length after);
                 Some (o1, s1) });
          Some (pre @ ''%2f'' @ to_lower nsName @ ''%2f'' @ to_lower obj @ suffix) }) }"

definition encodeNamespacePath :: "string \<Rightarrow> string option" where
  "encodeNamespacePath path0 = do {
     (path, query) \<leftarrow> encode_ns_query path0;
     (case index_of path ''//'' of
        None \<Rightarrow> Some (path @ query)
      | Some idx \<Rightarrow> map_option (\<lambda>p. p @ query) (encode_ns_segment path idx)) }"

text \<open>The path a request uses: the function never panics (\<open>encodeNamespacePath_spec\<close>).\<close>

definition encoded_path :: "string \<Rightarrow> string" where
  "encoded_path p = the (encodeNamespacePath p)"

section \<open>The CSRF preflight\<close>

definition hasSecureCookieOnHTTP :: "string \<Rightarrow> (string \<times> string) list \<Rightarrow> bool" where
  "hasSecureCookieOnHTTP host hs =
     (if has_prefix host ''https://'' then False
      else list_ex (\<lambda>(k, v). equal_fold k ''Set-Cookie'' \<and> contains_str (to_lower v) ''; secure'') hs)"

definition mk_request ::
    "string \<Rightarrow> string \<Rightarrow> (string \<times> string) list \<Rightarrow> credential \<Rightarrow> string option \<Rightarrow> bool \<Rightarrow> nat \<Rightarrow> request" where
  "mk_request meth path hs cred body long j =
     \<lparr>rq_method = meth, rq_path = path, rq_headers = hs, rq_cred = cred, rq_body = body,
      rq_long = long, rq_jar = j\<rparr>"

definition discovery_path :: string where
  "discovery_path = ''/sap/bc/adt/discovery''"

text \<open>
  \<open>fetchCSRFToken\<close>: the OAuth token the preflight carried, and the error if any. Only a
  transport error and a 401 are errors; another error status leaves an empty token behind.
\<close>

definition store_preflight :: "'w env \<Rightarrow> response \<Rightarrow> 'w cl \<Rightarrow> 'w cl" where
  "store_preflight E resp s =
     (let s1 = (if 200 \<le> rs_status resp \<and> rs_status resp < 300 \<and> rs_body resp \<noteq> []
                then s\<lparr>discovery := parseDiscovery E (rs_body resp)\<rparr> else s)
      in s1\<lparr>csrfToken := header (rs_headers resp) ''X-CSRF-Token'',
            hasSecureCookies := hasSecureCookieOnHTTP (cfg_host E) (rs_headers resp)\<rparr>)"

definition fetchCSRFToken :: "'w env \<Rightarrow> ('w cl, string \<times> err option) state" where
  "fetchCSRFToken E =
     (case url_err E (cfg_host E @ discovery_path) of
        Some e \<Rightarrow> State_Monad.return ([], Some e)
      | None \<Rightarrow> do {
          tok \<leftarrow> gets current_token;
          (case setAuth E tok of
             Inl e \<Rightarrow> State_Monad.return ([], Some e)
           | Inr (cred, hs, sent) \<Rightarrow> do {
               j \<leftarrow> gets jar;
               r \<leftarrow> http_send E (mk_request ''GET'' discovery_path
                     (set_headers hs [(''X-CSRF-Token'', ''Fetch''),
                                      (''Accept'', ''application/atomsvc+xml, */*'')])
                     cred None False j);
               (case r of
                  Inl e \<Rightarrow> State_Monad.return (sent, Some (wrapf ''CSRF fetch: '' e))
                | Inr resp \<Rightarrow>
                    if rs_status resp = 401 then do {
                      _ \<leftarrow> modify (\<lambda>s. s\<lparr>csrfToken := []\<rparr>);
                      State_Monad.return (sent, checkResponse E resp) }
                    else do {
                      _ \<leftarrow> modify (store_preflight E resp);
                      State_Monad.return (sent, None) }) }) })"

text \<open>The call of the refresh callback: it acts on the outside world and sends nothing to SAP.\<close>

definition call_refresh :: "(string \<Rightarrow> 'w \<Rightarrow> (err + string) \<times> 'w) \<Rightarrow> string
    \<Rightarrow> ('w cl, err + string) state" where
  "call_refresh cb sent = State (\<lambda>s. (fst (cb sent (world s)), s\<lparr>world := snd (cb sent (world s))\<rparr>))"

text \<open>\<open>tokenSource.refreshAfter401\<close> for one goroutine: no refresh is ever in flight.\<close>

definition refreshAfter401 :: "'w env \<Rightarrow> string \<Rightarrow> ('w, unit) go" where
  "refreshAfter401 E sent = do {
     can \<leftarrow> gets (canRefresh E);
     cur \<leftarrow> gets current_token;
     (if \<not> can then ok ()
      else if cur \<noteq> sent then ok ()
      else case refresh_cb E of
        None \<Rightarrow> ok ()
      | Some cb \<Rightarrow> do {
          r \<leftarrow> call_refresh cb sent;
          (case r of
             Inl e \<Rightarrow> fail (wrapf ''token refresh failed: '' e)
           | Inr t \<Rightarrow> do { _ \<leftarrow> modify (\<lambda>s. s\<lparr>oauth := Some t\<rparr>); ok () }) }) }"

definition ensureCSRF :: "'w env \<Rightarrow> ('w, unit) go" where
  "ensureCSRF E = do {
     tok \<leftarrow> gets csrfToken;
     if tok \<noteq> [] then ok ()
     else do {
       (sent, e) \<leftarrow> fetchCSRFToken E;
       can \<leftarrow> gets (canRefresh E);
       (case e of
          None \<Rightarrow> ok ()
        | Some er \<Rightarrow>
            if \<not> is_unauthorized er \<or> \<not> can then fail er
            else tryE (refreshAfter401 E sent) (\<lambda>_. do {
              tok2 \<leftarrow> gets csrfToken;
              if tok2 \<noteq> [] then ok ()
              else do {
                (_, e2) \<leftarrow> fetchCSRFToken E;
                (case e2 of None \<Rightarrow> ok () | Some er2 \<Rightarrow> fail er2) } })) } }"

section \<open>Reads\<close>

text \<open>One GET: build the request with the current credential, then send it.\<close>

definition sendGet :: "'w env \<Rightarrow> bool \<Rightarrow> string \<Rightarrow> (string \<times> string) list
    \<Rightarrow> ('w cl, string \<times> (err + response)) state" where
  "sendGet E long path headers =
     (case url_err E (cfg_host E @ path) of
        Some e \<Rightarrow> State_Monad.return ([], Inl e)
      | None \<Rightarrow> do {
          tok \<leftarrow> gets current_token;
          (case setAuth E tok of
             Inl e \<Rightarrow> State_Monad.return ([], Inl e)
           | Inr (cred, hs, sent) \<Rightarrow> do {
               j \<leftarrow> gets jar;
               r \<leftarrow> http_send E (mk_request ''GET'' path (set_headers hs headers) cred None long j);
               State_Monad.return (sent, r) }) })"

definition doReadWith :: "'w env \<Rightarrow> bool \<Rightarrow> string \<Rightarrow> (string \<times> string) list \<Rightarrow> ('w, response) go" where
  "doReadWith E long path0 headers =
     (let path = encoded_path path0 in
      tryE (ensureCSRF E) (\<lambda>_. do {
        (sent, r) \<leftarrow> sendGet E long path headers;
        can \<leftarrow> gets (canRefresh E);
        (case r of
           Inl e \<Rightarrow> fail e
         | Inr resp \<Rightarrow>
             if rs_status resp \<noteq> 401 \<or> \<not> can then ok resp
             else tryE (refreshAfter401 E sent) (\<lambda>_. do {
               (_, e) \<leftarrow> fetchCSRFToken E;
               (case e of
                  Some er \<Rightarrow> fail er
                | None \<Rightarrow> do {
                    (_, r2) \<leftarrow> sendGet E long path headers;
                    of_sum r2 }) })) }))"

definition doRead :: "'w env \<Rightarrow> string \<Rightarrow> (string \<times> string) list \<Rightarrow> ('w, response) go" where
  "doRead E path headers = doReadWith E False path headers"

definition doReadLong :: "'w env \<Rightarrow> string \<Rightarrow> (string \<times> string) list \<Rightarrow> ('w, response) go" where
  "doReadLong E path headers = doReadWith E True path headers"

section \<open>Writes\<close>

definition execMutateWith :: "'w env \<Rightarrow> bool \<Rightarrow> string \<Rightarrow> string \<Rightarrow> string option
    \<Rightarrow> (string \<times> string) list \<Rightarrow> string \<Rightarrow> ('w cl, string \<times> (err + response)) state" where
  "execMutateWith E long meth path body headers csrf =
     (case url_err E (cfg_host E @ path) of
        Some e \<Rightarrow> State_Monad.return ([], Inl e)
      | None \<Rightarrow> do {
          tok \<leftarrow> gets current_token;
          (case setAuth E tok of
             Inl e \<Rightarrow> State_Monad.return ([], Inl e)
           | Inr (cred, hs, sent) \<Rightarrow> do {
               j \<leftarrow> gets jar;
               r \<leftarrow> http_send E (mk_request meth path
                     (set_headers (set_header hs ''X-CSRF-Token'' csrf) headers) cred body long j);
               State_Monad.return (sent, r) }) })"

definition secureCookieError :: err where
  "secureCookieError = Msg (''CSRF token validation failed after retry ''
     @ [CHR 0xE2, CHR 0x80, CHR 0x94] @ '' the SAP system sets Secure cookies ''
     @ ''but the connection uses plain HTTP, so session cookies are silently dropped. ''
     @ ''Change the host URL from http:// to https:// to fix this'')"

text \<open>The retry of \<open>doMutateWith\<close> after a 403, or after a 401 that a refresh answered.\<close>

definition retryMutate :: "'w env \<Rightarrow> bool \<Rightarrow> string \<Rightarrow> string \<Rightarrow> string option
    \<Rightarrow> (string \<times> string) list \<Rightarrow> ('w, response) go" where
  "retryMutate E long meth path body headers = do {
     (_, e) \<leftarrow> fetchCSRFToken E;
     (case e of
        Some er \<Rightarrow> fail er
      | None \<Rightarrow> do {
          token \<leftarrow> gets csrfToken;
          secure \<leftarrow> gets hasSecureCookies;
          (_, r2) \<leftarrow> execMutateWith E long meth path body headers token;
          (case r2 of
             Inl e2 \<Rightarrow> fail e2
           | Inr resp2 \<Rightarrow>
               if rs_status resp2 = 403 \<and> secure then fail secureCookieError else ok resp2) }) }"

definition doMutateWith :: "'w env \<Rightarrow> bool \<Rightarrow> string \<Rightarrow> string \<Rightarrow> string option
    \<Rightarrow> (string \<times> string) list \<Rightarrow> ('w, response) go" where
  "doMutateWith E long meth path0 body headers =
     (let path = encoded_path path0 in
      tryE (ensureCSRF E) (\<lambda>_. do {
        token \<leftarrow> gets csrfToken;
        (sent, r) \<leftarrow> execMutateWith E long meth path body headers token;
        can \<leftarrow> gets (canRefresh E);
        (case r of
           Inl e \<Rightarrow> fail e
         | Inr resp \<Rightarrow>
             if rs_status resp = 401 \<and> \<not> can then ok resp
             else if rs_status resp = 401 then
               tryE (refreshAfter401 E sent) (\<lambda>_. retryMutate E long meth path body headers)
             else if rs_status resp = 403 then retryMutate E long meth path body headers
             else ok resp) }))"

definition doMutate :: "'w env \<Rightarrow> string \<Rightarrow> string \<Rightarrow> string option \<Rightarrow> (string \<times> string) list
    \<Rightarrow> ('w, response) go" where
  "doMutate E meth path body headers = doMutateWith E False meth path body headers"

definition doMutateLong :: "'w env \<Rightarrow> string \<Rightarrow> string \<Rightarrow> string option \<Rightarrow> (string \<times> string) list
    \<Rightarrow> ('w, response) go" where
  "doMutateLong E meth path body headers = doMutateWith E True meth path body headers"

section \<open>Sessions\<close>

text \<open>
  The cookie jar is the identity of the inner jar the requests use: \<open>Reset\<close> swaps in a new one.
\<close>

definition Reset :: "'w cl \<Rightarrow> 'w cl" where
  "Reset s = s\<lparr>jar := next_jar s, next_jar := Suc (next_jar s)\<rparr>"

definition Logout :: "'w env \<Rightarrow> ('w, unit) go" where
  "Logout E =
     (case url_err E (cfg_host E @ ''/sap/public/bc/icf/logoff'') of
        Some e \<Rightarrow> fail (wrapf ''Logout: '' e)
      | None \<Rightarrow> do {
          tok \<leftarrow> gets current_token;
          (case setAuth E tok of
             Inl e \<Rightarrow> fail (wrapf ''Logout: '' e)
           | Inr (cred, hs, sent) \<Rightarrow> do {
               j \<leftarrow> gets jar;
               r \<leftarrow> http_send E (mk_request ''GET'' ''/sap/public/bc/icf/logoff'' hs cred None False j);
               (case r of
                  Inl e \<Rightarrow> fail (wrapf ''Logout: '' e)
                | Inr resp \<Rightarrow> do {
                    _ \<leftarrow> modify (\<lambda>s. Reset (s\<lparr>csrfToken := []\<rparr>));
                    (if rs_status resp = 401 then
                       (case checkResponse E resp of
                          Some e \<Rightarrow> fail (wrapf ''Logout: '' e)
                        | None \<Rightarrow> ok ())
                     else ok ()) }) }) })"

text \<open>
  The pattern every operation starts with: send, return a transport error wrapped by \<open>w\<close>, turn
  an error status into an error wrapped by \<open>v\<close>.
\<close>

definition checked :: "'w env \<Rightarrow> (err \<Rightarrow> err) \<Rightarrow> (err \<Rightarrow> err) \<Rightarrow> ('w, response) go \<Rightarrow> ('w, response) go" where
  "checked E w v m = tryw w m (\<lambda>resp.
     (case checkResponse E resp of Some e \<Rightarrow> fail (v e) | None \<Rightarrow> ok resp))"

text \<open>\<open>freshSession\<close>: the client a clone starts as. It shares the OAuth token and nothing else.\<close>

definition freshSession :: "'w cl \<Rightarrow> 'w cl" where
  "freshSession s = s\<lparr>csrfToken := [], hasSecureCookies := False, discovery := [],
     removeObjectSupport := RemoveObjectUnknown, jar := next_jar s, next_jar := Suc (next_jar s)\<rparr>"

text \<open>Back to the parent after an operation on a fresh session: its own session state is untouched.\<close>

definition resumeSession :: "'w cl \<Rightarrow> 'w cl \<Rightarrow> 'w cl" where
  "resumeSession parent s = s\<lparr>csrfToken := csrfToken parent, hasSecureCookies := hasSecureCookies parent,
     discovery := discovery parent, removeObjectSupport := removeObjectSupport parent, jar := jar parent\<rparr>"

datatype system_flavor = SystemFlavorUnknown | SystemFlavorECC | SystemFlavorS4

definition SystemFlavor :: "'w env \<Rightarrow> ('w cl, system_flavor \<times> err option) state" where
  "SystemFlavor E = do {
     r \<leftarrow> ensureCSRF E;
     (case r of
        Inl e \<Rightarrow> State_Monad.return (SystemFlavorUnknown, Some e)
      | Inr _ \<Rightarrow> do {
          has \<leftarrow> gets (\<lambda>s. map_of (discovery s) ''/sap/bc/adt/packages'' \<noteq> None);
          State_Monad.return (if has then SystemFlavorS4 else SystemFlavorECC, None) }) }"

section \<open>Redirects\<close>

record url =
  u_scheme :: string
  u_host :: string
  u_hostname :: string

definition sameOriginRedirect :: "url \<Rightarrow> url list \<Rightarrow> err option" where
  "sameOriginRedirect req via =
     (let origin = hd via in
      if u_scheme req \<noteq> u_scheme origin \<or> \<not> equal_fold (u_host req) (u_host origin) then
        Some (Wrap [] (Sentinel ErrCrossOriginRedirect)
          ('': '' @ u_scheme origin @ ''://'' @ u_host origin @ '' redirected to ''
           @ u_scheme req @ ''://'' @ u_host req
           @ (if u_scheme origin = ''http'' \<and> u_scheme req = ''https''
                 \<and> equal_fold (u_hostname req) (u_hostname origin)
              then '' (the system enforces HTTPS; configure the host as https://'' @ u_host req @ '')''
              else [])))
      else if length via \<ge> 10 then Some (Msg (''adt: stopped after '' @ itoa 10 @ '' redirects''))
      else None)"

text \<open>
  How \<open>net/http\<close> uses it: the chain of requests sent for one call, the redirect targets being
  given; it stops at the first target the check refuses.
\<close>

fun follow_redirects :: "url list \<Rightarrow> url list \<Rightarrow> url list" where
  "follow_redirects via [] = via"
| "follow_redirects via (t # ts) =
     (case sameOriginRedirect t via of
        Some _ \<Rightarrow> via
      | None \<Rightarrow> follow_redirects (via @ [t]) ts)"

section \<open>The contract of the client's requests\<close>

definition pair401 :: "string \<times> (err + response) \<Rightarrow> bool" where
  "pair401 p = resp401 (snd p)"

definition err401 :: "string \<times> err option \<Rightarrow> bool" where
  "err401 p = (case snd p of None \<Rightarrow> False | Some e \<Rightarrow> is_unauthorized e)"

lemma canRefresh_basic [simp]: "oauth s = None \<Longrightarrow> \<not> canRefresh E s"
  by (simp add: canRefresh_def)

lemma current_token_basic [simp]: "oauth s = None \<Longrightarrow> current_token s = []"
  by (simp add: current_token_def)

lemma fetchCSRFToken_stops: "stops401 err401 (fetchCSRFToken E)"
proof -
  have rej: "silent err401 (case r of
        Inl e \<Rightarrow> State_Monad.return (sent, Some (wrapf ''CSRF fetch: '' e))
      | Inr resp \<Rightarrow>
          if rs_status resp = 401 then do {
            _ \<leftarrow> modify (\<lambda>s. s\<lparr>csrfToken := []\<rparr>);
            State_Monad.return (sent, checkResponse E resp) }
          else do {
            _ \<leftarrow> modify (store_preflight E resp);
            State_Monad.return (sent, None) })"
    if "resp401 r" for r sent
    using that
    by (cases r) (auto simp: err401_def checkResponse_def
        intro!: silent_bind [where P = "\<lambda>_. True"] silent_modify)
  show ?thesis
    unfolding fetchCSRFToken_def
    by (auto split: option.splits sum.splits prod.splits
        intro!: stops stops401_bind [OF stops401_http_send] rej
        simp: store_preflight_def Let_def)
qed

lemma sendGet_stops: "stops401 pair401 (sendGet E long path headers)"
  unfolding sendGet_def
  by (auto split: option.splits sum.splits prod.splits
      intro!: stops stops401_bind [OF stops401_http_send] simp: pair401_def)

lemma execMutateWith_stops: "stops401 pair401 (execMutateWith E long meth path body headers csrf)"
  unfolding execMutateWith_def
  by (auto split: option.splits sum.splits prod.splits
      intro!: stops stops401_bind [OF stops401_http_send] simp: pair401_def)

lemma ensureCSRF_stops: "stops401 unauth (ensureCSRF E)"
  unfolding ensureCSRF_def
  apply (intro stops)
  apply (rule stops401_bind [OF fetchCSRFToken_stops])
   apply (auto split: option.splits prod.splits intro!: stops silent_bind_gets simp: err401_def)
  done

lemma retryMutate_stops: "stops401 resp401 (retryMutate E long meth path body headers)"
  unfolding retryMutate_def
  apply (rule stops401_bind [OF fetchCSRFToken_stops])
   apply (auto split: option.splits prod.splits intro!: stops simp: err401_def)
  apply (rule stops401_bind [OF execMutateWith_stops])
   apply (auto split: sum.splits intro!: stops simp: pair401_def)
  done

lemma doReadWith_stops: "stops401 resp401 (doReadWith E long path headers)"
  unfolding doReadWith_def Let_def
  apply (rule stops401_tryw_gen [OF ensureCSRF_stops])
   apply (rule stops401_bind [OF sendGet_stops])
    apply (auto split: sum.splits prod.splits intro!: stops silent_bind_gets simp: pair401_def)
  done

lemma doMutateWith_stops: "stops401 resp401 (doMutateWith E long meth path body headers)"
  unfolding doMutateWith_def Let_def
  apply (rule stops401_tryw_gen [OF ensureCSRF_stops])
   apply (intro stops)
   apply (rule stops401_bind [OF execMutateWith_stops])
    apply (auto split: sum.splits prod.splits intro!: stops silent_bind_gets retryMutate_stops
      simp: pair401_def)
  done

lemma doRead_stops: "stops401 resp401 (doRead E path headers)"
  "stops401 resp401 (doReadLong E path headers)"
  by (simp_all add: doRead_def doReadLong_def doReadWith_stops)

lemma doMutate_stops: "stops401 resp401 (doMutate E meth path body headers)"
  "stops401 resp401 (doMutateLong E meth path body headers)"
  by (simp_all add: doMutate_def doMutateLong_def doMutateWith_stops)

lemma checked_stops [stops]:
  assumes "stops401 resp401 m" and "\<And>e. is_unauthorized e \<Longrightarrow> is_unauthorized (w e)"
    and "\<And>e. is_unauthorized e \<Longrightarrow> is_unauthorized (v e)"
  shows "stops401 unauth (checked E w v m)"
  unfolding checked_def
  by (rule stops401_tryw_resp [OF assms(1)])
    (auto split: option.splits intro!: stops assms simp: checkResponse_def)

lemma Logout_stops: "stops401 unauth (Logout E)"
  unfolding Logout_def
  by (auto split: option.splits sum.splits prod.splits
      intro!: stops stops401_bind [OF stops401_http_send] silent_bind [where P = "\<lambda>_. True"]
        silent_modify
      simp: Reset_def checkResponse_def)

section \<open>Namespace paths: no panic, and what is encoded\<close>

lemma go_slice_full [simp]: "i \<le> length s \<Longrightarrow> go_slice s i (length s) = Some (drop i s)"
  by (simp add: go_slice_def)

lemma go_slice_take [simp]: "j \<le> length s \<Longrightarrow> go_slice s 0 j = Some (take j s)"
  by (simp add: go_slice_def)

lemma encode_ns_query_append:
  assumes "CHR ''?'' \<notin> set p" and "q = [] \<or> hd q = CHR ''?''"
  shows "encode_ns_query (p @ q) = Some (p, q)"
proof -
  have "index_byte (p @ q) (CHR ''?'') = (if q = [] then None else Some (length p))"
    using assms
    by (induction p) (auto simp: index_byte_Cons index_byte_None, cases q, auto simp: index_byte_Cons)
  then show ?thesis by (auto simp: encode_ns_query_def go_slice_def)
qed

lemma index_of_slash: "index_of s ''/'' = index_byte s (CHR ''/'')"
  by (simp add: index_byte_def)

lemma encode_ns_segment_total:
  assumes "index_of path ''//'' = Some idx"
  shows "encode_ns_segment path idx \<noteq> None"
proof -
  have i: "idx \<le> length path" "path = take idx path @ ''//'' @ drop (idx + 2) path"
    using index_of_Some [OF assms] by simp_all
  define w where "w = drop (idx + 2) path"
  have len: "length path = idx + 2 + length w"
    using arg_cong [OF i(2), of length] i(1) by (simp add: w_def)
  have rest: "drop (idx + 1) path = CHR ''/'' # w"
    using i by (metis add_Suc_right append_eq_conv_conj drop_drop Suc_eq_plus1 append_Cons
        append_Nil drop_Suc_Cons length_take min.absorb2 plus_1_eq_Suc w_def add.commute drop0)
  show ?thesis
  proof (cases "index_byte w (CHR ''/'')")
    case None
    then show ?thesis using len rest
      by (simp add: encode_ns_segment_def index_of_slash go_slice_def)
  next
    case (Some j)
    note jw = index_byte_Some [OF Some]
    show ?thesis
    proof (cases "index_byte (drop (Suc j) w) (CHR ''/'')")
      case None
      then show ?thesis using len rest Some jw
        by (simp add: encode_ns_segment_def index_of_slash go_slice_def)
    next
      case (Some k)
      then show ?thesis using len rest \<open>index_byte w (CHR ''/'') = Some j\<close> jw
        index_byte_Some [OF Some]
        by (simp add: encode_ns_segment_def index_of_slash go_slice_def)
    qed
  qed
qed

text \<open>
  \<open>encodeNamespacePath\<close> never panics on an out-of-range slice, whatever the query holds; it
  keeps the query as it is, and changes nothing when the path before the query has no \<open>//\<close>.
\<close>

theorem encodeNamespacePath_total:
  assumes "CHR ''?'' \<notin> set p" and "q = [] \<or> hd q = CHR ''?''"
  shows "\<exists>r. encodeNamespacePath (p @ q) = Some (r @ q) \<and> (\<not> contains_str p ''//'' \<longrightarrow> r = p)"
proof (cases "index_of p ''//''")
  case None
  then show ?thesis
    by (simp add: encodeNamespacePath_def encode_ns_query_append [OF assms])
next
  case (Some idx)
  then obtain r where "encode_ns_segment p idx = Some r"
    using encode_ns_segment_total by blast
  with Some show ?thesis
    by (simp add: encodeNamespacePath_def encode_ns_query_append [OF assms] contains_str_def)
qed

theorem encodeNamespacePath_total_witness:
  "\<exists>r. encodeNamespacePath (''/sap/bc/adt/x'' @ ''?lockHandle=ab//cd'') = Some (r @ ''?lockHandle=ab//cd'')
     \<and> (\<not> contains_str ''/sap/bc/adt/x'' ''//'' \<longrightarrow> r = ''/sap/bc/adt/x'')"
  by (rule encodeNamespacePath_total) simp_all

lemma index_of_double_slash:
  "\<not> contains_str (pre @ ''/'') ''//'' \<Longrightarrow> index_of (pre @ ''//'' @ x) ''//'' = Some (length pre)"
proof (induction pre)
  case Nil
  then show ?case by (simp add: has_prefix_def)
next
  case (Cons c pre)
  have "\<not> contains_str (pre @ ''/'') ''//''" using Cons.prems
    by (auto simp: contains_str_def split: if_splits)
  moreover have "\<not> has_prefix ((c # pre) @ ''//'' @ x) ''//''"
    using Cons.prems by (cases pre) (auto simp: contains_str_def has_prefix_def split: if_splits)
  ultimately show ?case using Cons.IH by simp
qed

text \<open>
  An object of a SAP name space, \<open>//NS/NAME\<close> in the path, is sent as \<open>/%2fns%2fname\<close>: both
  names in lower case, everything before, after and in the query as it was.
\<close>

theorem encodeNamespacePath_namespace:
  assumes "\<not> contains_str (pre @ ''/'') ''//''"
    and "CHR ''?'' \<notin> set (pre @ ns @ obj @ suf)" and "q = [] \<or> hd q = CHR ''?''"
    and "CHR ''/'' \<notin> set ns" and "CHR ''/'' \<notin> set obj" and "suf = [] \<or> hd suf = CHR ''/''"
  shows "encodeNamespacePath (pre @ ''//'' @ ns @ ''/'' @ obj @ suf @ q)
       = Some (pre @ ''/%2f'' @ to_lower ns @ ''%2f'' @ to_lower obj @ suf @ q)"
proof -
  let ?w = "ns @ ''/'' @ obj @ suf" and ?p = "pre @ ''//'' @ ns @ ''/'' @ obj @ suf"
  have "CHR ''?'' \<notin> set ?p" using assms(2) by simp
  from encode_ns_query_append [OF this assms(3)]
  have Q: "encode_ns_query (?p @ q) = Some (?p, q)" .
  have I: "index_of ?p ''//'' = Some (length pre)"
    by (rule index_of_double_slash [OF assms(1)])
  have N: "index_byte ?w (CHR ''/'') = Some (length ns)"
    using assms(4) by (induction ns) (auto simp: index_byte_Cons)
  have O: "index_byte (obj @ suf) (CHR ''/'') = (if suf = [] then None else Some (length obj))"
    using assms(5,6)
    by (induction obj) (auto simp: index_byte_Cons index_byte_None, cases suf, auto simp: index_byte_Cons)
  have "encode_ns_segment ?p (length pre)
      = Some (pre @ ''/%2f'' @ to_lower ns @ ''%2f'' @ to_lower obj @ suf)"
    using N O by (auto simp: encode_ns_segment_def index_of_slash go_slice_def)
  with Q I show ?thesis by (simp add: encodeNamespacePath_def)
qed

theorem encodeNamespacePath_namespace_witness:
  "encodeNamespacePath (''/sap/bc/adt/programs/programs'' @ ''//'' @ ''ABC'' @ ''/'' @ ''REPORT''
       @ ''/source/main'' @ ''?version=active'')
   = Some (''/sap/bc/adt/programs/programs'' @ ''/%2f'' @ to_lower ''ABC'' @ ''%2f''
       @ to_lower ''REPORT'' @ ''/source/main'' @ ''?version=active'')"
  by (rule encodeNamespacePath_namespace) (simp_all add: contains_str_def has_prefix_def)

section \<open>What every request carries\<close>

text \<open>
  The credential of a request is the OAuth token of the moment or the configured user and
  password, and it is never an unresolved placeholder.
\<close>

definition credential_ok :: "'w env \<Rightarrow> credential \<Rightarrow> bool" where
  "credential_ok E c =
     (case c of
        Bearer t \<Rightarrow> t \<noteq> []
      | Basic u p \<Rightarrow> u = cfg_user E \<and> p = cfg_password E
                   \<and> \<not> is_env_placeholder u \<and> \<not> is_env_placeholder p
      | NoAuth \<Rightarrow> False)"

abbreviation sends_ok :: "'w env \<Rightarrow> ('w cl, 'r) state \<Rightarrow> bool" where
  "sends_ok E \<equiv> emits (\<lambda>rq. credential_ok E (rq_cred rq))"

lemma setAuth_credential_ok:
  "setAuth E tok = Inr (cred, hs, sent) \<Longrightarrow> credential_ok E cred"
  by (auto simp: setAuth_def credential_ok_def checkResolved_def split: if_splits option.splits)

lemma mk_request_cred [simp]: "rq_cred (mk_request meth path hs cred body long j) = cred"
  by (simp add: mk_request_def)

lemma mk_request_sel [simp]:
  "rq_method (mk_request meth path hs cred body long j) = meth"
  "rq_path (mk_request meth path hs cred body long j) = path"
  "rq_body (mk_request meth path hs cred body long j) = body"
  by (simp_all add: mk_request_def)

definition is_preflight :: "request \<Rightarrow> bool" where
  "is_preflight rq \<longleftrightarrow> rq_method rq = ''GET'' \<and> rq_path rq = discovery_path \<and> rq_body rq = None"

text \<open>
  The rules take what \<open>P\<close> must accept: a preflight, and the request itself, each with a
  credential that \<open>setAuth\<close> has made.
\<close>

definition accepts_preflight :: "'w env \<Rightarrow> (request \<Rightarrow> bool) \<Rightarrow> bool" where
  "accepts_preflight E P \<longleftrightarrow> (\<forall>rq. is_preflight rq \<and> credential_ok E (rq_cred rq) \<longrightarrow> P rq)"

text \<open>A header the caller of a request decides on: none of the logon and none of the token.\<close>

definition base_header :: "string \<Rightarrow> bool" where
  "base_header k \<longleftrightarrow> list_ex (equal_fold k) [''sap-client'', ''sap-language'', ''Accept-Language'', ''X-CSRF-Token'']"

definition carries :: "request \<Rightarrow> (string \<times> string) list \<Rightarrow> bool" where
  "carries rq headers \<longleftrightarrow>
     (\<forall>k. \<not> base_header k \<longrightarrow> header (rq_headers rq) k = header (set_headers [] headers) k)"

definition accepts :: "'w env \<Rightarrow> (request \<Rightarrow> bool) \<Rightarrow> string \<Rightarrow> string \<Rightarrow> string option
    \<Rightarrow> (string \<times> string) list \<Rightarrow> bool" where
  "accepts E P meth path body headers \<longleftrightarrow> (\<forall>rq. rq_method rq = meth \<and> rq_path rq = path \<and> rq_body rq = body
     \<and> credential_ok E (rq_cred rq) \<and> carries rq headers \<longrightarrow> P rq)"

lemma find_filter_other:
  "(\<And>x. Q x \<Longrightarrow> P x) \<Longrightarrow> find Q (filter P xs) = find Q xs"
  by (induction xs) auto

lemma find_append: "find Q (xs @ ys) = (case find Q xs of None \<Rightarrow> find Q ys | Some x \<Rightarrow> Some x)"
  by (induction xs) auto

lemma equal_fold_sym: "equal_fold a b = equal_fold b a"
  by (auto simp: equal_fold_def)

lemma header_set_header:
  "header (set_header hs k v) k' = (if equal_fold k k' then v else header hs k')"
proof (cases "equal_fold k k'")
  case True
  then have "find (\<lambda>(k0, _). equal_fold k0 k') (filter (\<lambda>(k0, _). \<not> equal_fold k0 k) hs) = None"
    by (auto simp: find_None_iff equal_fold_def)
  with True show ?thesis by (simp add: header_def set_header_def find_append)
next
  case False
  have "find (\<lambda>(k0, _). equal_fold k0 k') (filter (\<lambda>(k0, _). \<not> equal_fold k0 k) hs)
      = find (\<lambda>(k0, _). equal_fold k0 k') hs"
    by (rule find_filter_other) (use False in \<open>auto simp: equal_fold_def\<close>)
  with False show ?thesis by (simp add: header_def set_header_def find_append split: option.splits)
qed

lemma header_set_headers:
  "header h k = header h' k \<Longrightarrow> header (set_headers h hs) k = header (set_headers h' hs) k"
proof (induction hs arbitrary: h h')
  case (Cons kv hs)
  obtain a b where kv: "kv = (a, b)" by fastforce
  have "header (set_header h a b) k = header (set_header h' a b) k"
    by (simp add: header_set_header Cons.prems)
  from Cons.IH [OF this] show ?case by (simp add: set_headers_def kv)
qed (simp add: set_headers_def)

lemma header_logon:
  assumes "\<not> base_header k"
  shows "header (logon_headers E) k = []"
proof -
  have "\<not> equal_fold ''sap-client'' k" "\<not> equal_fold ''sap-language'' k" "\<not> equal_fold ''Accept-Language'' k"
    using assms equal_fold_sym by (simp_all add: base_header_def)
  then show ?thesis by (simp add: header_def logon_headers_def Let_def)
qed

lemma carries_set_headers:
  assumes "\<And>k. \<not> base_header k \<Longrightarrow> header hs k = []"
  shows "carries (mk_request meth path (set_headers hs headers) c b l j) headers"
  unfolding carries_def
proof (intro allI impI)
  fix k
  assume "\<not> base_header k"
  then have "header hs k = header [] k" using assms by (simp add: header_def)
  from header_set_headers [OF this]
  show "header (rq_headers (mk_request meth path (set_headers hs headers) c b l j)) k = header (set_headers [] headers) k"
    by (simp add: mk_request_def)
qed

lemma setAuth_headers: "setAuth E tok = Inr (cred, hs, sent) \<Longrightarrow> hs = logon_headers E"
  by (auto simp: setAuth_def split: if_splits option.splits)

lemma carries_get:
  "setAuth E tok = Inr (cred, hs, sent) \<Longrightarrow> carries (mk_request meth path (set_headers hs headers) c b l j) headers"
  using header_logon by (auto dest!: setAuth_headers intro!: carries_set_headers)

lemma carries_mutate:
  assumes "setAuth E tok = Inr (cred, hs, sent)"
  shows "carries (mk_request meth path (set_headers (set_header hs ''X-CSRF-Token'' csrf) headers) c b l j) headers"
proof (rule carries_set_headers)
  fix k
  assume k: "\<not> base_header k"
  then have "\<not> equal_fold ''X-CSRF-Token'' k" using equal_fold_sym by (simp add: base_header_def)
  with k show "header (set_header hs ''X-CSRF-Token'' csrf) k = []"
    by (simp add: header_set_header setAuth_headers [OF assms] header_logon)
qed

lemma fetchCSRFToken_sends [sends]: "accepts_preflight E P \<Longrightarrow> emits P (fetchCSRFToken E)"
  unfolding fetchCSRFToken_def
  by (auto split: option.splits sum.splits prod.splits intro!: sends
      simp: accepts_preflight_def is_preflight_def setAuth_credential_ok store_preflight_def Let_def)

lemma sendGet_sends [sends]:
  "accepts E P ''GET'' path None headers \<Longrightarrow> emits P (sendGet E long path headers)"
  unfolding sendGet_def
  by (auto split: option.splits sum.splits prod.splits intro!: sends simp: accepts_def setAuth_credential_ok carries_get carries_mutate)

lemma execMutateWith_sends [sends]:
  "accepts E P meth path body headers \<Longrightarrow> emits P (execMutateWith E long meth path body headers csrf)"
  unfolding execMutateWith_def
  by (auto split: option.splits sum.splits prod.splits intro!: sends simp: accepts_def setAuth_credential_ok carries_get carries_mutate)

lemma call_refresh_sends [sends]: "emits P (call_refresh cb sent)"
  by (rule emits_same_wire) (auto simp: call_refresh_def)

lemma refreshAfter401_sends [sends]: "emits P (refreshAfter401 E sent)"
  unfolding refreshAfter401_def
  by (intro sends; auto split: option.splits sum.splits intro!: sends)

lemma ensureCSRF_sends [sends]: "accepts_preflight E P \<Longrightarrow> emits P (ensureCSRF E)"
  unfolding ensureCSRF_def
  by (auto split: option.splits prod.splits intro!: sends)

lemma retryMutate_sends [sends]:
  "accepts_preflight E P \<Longrightarrow> accepts E P meth path body headers \<Longrightarrow>
     emits P (retryMutate E long meth path body headers)"
  unfolding retryMutate_def
  by (auto split: option.splits prod.splits sum.splits intro!: sends)

lemma doReadWith_sends [sends]:
  "accepts_preflight E P \<Longrightarrow> accepts E P ''GET'' (encoded_path path) None headers \<Longrightarrow>
     emits P (doReadWith E long path headers)"
  unfolding doReadWith_def Let_def
  by (auto split: option.splits prod.splits sum.splits intro!: sends)

lemma doMutateWith_sends [sends]:
  "accepts_preflight E P \<Longrightarrow> accepts E P meth (encoded_path path) body headers \<Longrightarrow>
     emits P (doMutateWith E long meth path body headers)"
  unfolding doMutateWith_def Let_def
  by (auto split: option.splits prod.splits sum.splits intro!: sends)

lemma doRead_sends [sends]:
  "accepts_preflight E P \<Longrightarrow> accepts E P ''GET'' (encoded_path path) None headers \<Longrightarrow> emits P (doRead E path headers)"
  "accepts_preflight E P \<Longrightarrow> accepts E P ''GET'' (encoded_path path) None headers \<Longrightarrow> emits P (doReadLong E path headers)"
  by (auto simp: doRead_def doReadLong_def intro: sends)

lemma doMutate_sends [sends]:
  "accepts_preflight E P \<Longrightarrow> accepts E P meth (encoded_path path) body headers \<Longrightarrow> emits P (doMutate E meth path body headers)"
  "accepts_preflight E P \<Longrightarrow> accepts E P meth (encoded_path path) body headers \<Longrightarrow> emits P (doMutateLong E meth path body headers)"
  by (auto simp: doMutate_def doMutateLong_def intro: sends)

lemma checked_sends [sends]: "emits P m \<Longrightarrow> emits P (checked E w v m)"
  unfolding checked_def by (auto split: option.splits intro!: sends)

section \<open>Where errors come from\<close>

text \<open>
  \<open>honest E\<close>: what Go's own libraries report (a refused connection, a URL that does not parse, a
  failed refresh, a cancelled context, a body that breaks off, an XML syntax error) is no answer
  of SAP, so it is no \<open>ADTError\<close>. Then every \<open>ADTError\<close> an operation returns was parsed from an
  answer of SAP with an error status.
\<close>

definition honest :: "'w env \<Rightarrow> bool" where
  "honest E \<longleftrightarrow>
     (\<forall>rq w. case fst (send E rq w) of Inl e \<Rightarrow> as_adt e = None
        | Inr r \<Rightarrow> (case rs_body_err r of None \<Rightarrow> True | Some e \<Rightarrow> as_adt e = None))
     \<and> (\<forall>u e. url_err E u = Some e \<longrightarrow> as_adt e = None)
     \<and> (\<forall>cb t w e. refresh_cb E = Some cb \<longrightarrow> fst (cb t w) = Inl e \<longrightarrow> as_adt e = None)
     \<and> (\<forall>d e. unmarshal_xml E d = Inl e \<longrightarrow> as_adt e = None)
     \<and> (\<forall>w e. ctx_err E w = Some e \<longrightarrow> as_adt e = None)"

definition genuine :: "'w env \<Rightarrow> err \<Rightarrow> bool" where
  "genuine E e \<longleftrightarrow> as_adt e = None
     \<or> (\<exists>status data. status \<ge> 400 \<and> as_adt e = Some (parseADTError E status data))"

definition good_resp :: "'w env \<Rightarrow> err + response \<Rightarrow> bool" where
  "good_resp E r = (case r of Inl e \<Rightarrow> genuine E e
     | Inr x \<Rightarrow> (case rs_body_err x of None \<Rightarrow> True | Some e \<Rightarrow> genuine E e))"

lemma good_resp_simps [simp]:
  "good_resp E (Inl e) = genuine E e"
  "good_resp E (Inr x) = (case rs_body_err x of None \<Rightarrow> True | Some e \<Rightarrow> genuine E e)"
  by (simp_all add: good_resp_def)

lemma genuine_none: "as_adt e = None \<Longrightarrow> genuine E e"
  by (simp add: genuine_def)

lemma genuine_wrap [simp]: "genuine E (Wrap a e b) = genuine E e"
  by (simp add: genuine_def)

lemma genuine_msg [simp]: "genuine E (Msg m)" "genuine E (Sentinel t)"
  by (simp_all add: genuine_def)

lemma genuine_check: "checkResponse E r = Some e \<Longrightarrow> genuine E e"
  unfolding genuine_def checkResponse_def
  by (intro disjI2 exI [of _ "rs_status r"] exI [of _ "rs_body r"]) (auto split: if_splits)

lemma honest_send:
  "honest E \<Longrightarrow> fst (send E rq w) = Inl e \<Longrightarrow> as_adt e = None"
  "honest E \<Longrightarrow> fst (send E rq w) = Inr r \<Longrightarrow> rs_body_err r = Some e \<Longrightarrow> as_adt e = None"
  unfolding honest_def by (fastforce dest!: conjunct1 spec [of _ rq] spec [of _ w])+

lemma http_send_good: "honest E \<Longrightarrow> yields (good_resp E) (http_send E rq)"
  by (auto simp: yields_def run_http_send good_resp_def split: sum.splits option.splits
      intro: genuine_none honest_send)

lemma genuine_url: "honest E \<Longrightarrow> url_err E u = Some e \<Longrightarrow> genuine E e"
  by (auto simp: honest_def intro: genuine_none)

lemma genuine_xml: "honest E \<Longrightarrow> unmarshal_xml E d = Inl e \<Longrightarrow> genuine E e"
  by (auto simp: honest_def intro: genuine_none)

lemma genuine_ctx: "honest E \<Longrightarrow> ctx_err E w = Some e \<Longrightarrow> genuine E e"
  by (auto simp: honest_def intro: genuine_none)

lemma genuine_refresh: "honest E \<Longrightarrow> refresh_cb E = Some cb \<Longrightarrow> fst (cb t w) = Inl e \<Longrightarrow> genuine E e"
  by (auto simp: honest_def intro: genuine_none)

lemma genuine_setAuth: "setAuth E t = Inl e \<Longrightarrow> genuine E e"
  by (auto simp: setAuth_def checkResolved_def split: if_splits option.splits)

definition good_pre :: "'w env \<Rightarrow> string \<times> err option \<Rightarrow> bool" where
  "good_pre E p = (case snd p of None \<Rightarrow> True | Some e \<Rightarrow> genuine E e)"

definition good_pair :: "'w env \<Rightarrow> string \<times> (err + response) \<Rightarrow> bool" where
  "good_pair E p = good_resp E (snd p)"

lemma fetchCSRFToken_good: "honest E \<Longrightarrow> yields (good_pre E) (fetchCSRFToken E)"
  unfolding fetchCSRFToken_def
  by (auto split: option.splits sum.splits prod.splits
      intro!: yields_intro yields_bind [OF http_send_good]
      simp: good_pre_def genuine_url genuine_setAuth genuine_check)

lemma sendGet_good: "honest E \<Longrightarrow> yields (good_pair E) (sendGet E long path headers)"
  unfolding sendGet_def
  by (auto split: option.splits sum.splits prod.splits
      intro!: yields_intro yields_bind [OF http_send_good]
      simp: good_pair_def genuine_url genuine_setAuth)

lemma execMutateWith_good: "honest E \<Longrightarrow> yields (good_pair E) (execMutateWith E long meth path body headers csrf)"
  unfolding execMutateWith_def
  by (auto split: option.splits sum.splits prod.splits
      intro!: yields_intro yields_bind [OF http_send_good]
      simp: good_pair_def genuine_url genuine_setAuth)

lemma refreshAfter401_good: "honest E \<Longrightarrow> yields (errs (genuine E)) (refreshAfter401 E sent)"
proof -
  assume h: "honest E"
  have "yields (errs (genuine E)) (call_refresh cb sent)" if "refresh_cb E = Some cb" for cb
    using genuine_refresh [OF h that] by (auto simp: yields_def call_refresh_def errs_def split: sum.splits)
  then show ?thesis
    unfolding refreshAfter401_def
    by (auto split: option.splits sum.splits intro!: yields_intro yields_bind [of "errs (genuine E)" "call_refresh _ _"])
qed

lemma ensureCSRF_good: "honest E \<Longrightarrow> yields (errs (genuine E)) (ensureCSRF E)"
  unfolding ensureCSRF_def
  by (intro yields_intro, auto split: option.splits prod.splits
      intro!: yields_intro yields_bind [OF fetchCSRFToken_good] refreshAfter401_good simp: good_pre_def)

lemma good_resp_errs: "good_resp E r \<Longrightarrow> errs (genuine E) r"
  by (cases r) auto

lemma yields_tryw_resp:
  assumes "yields (errs (genuine E)) m" and "\<And>x. yields (good_resp E) (k x)" and "\<And>e. genuine E e \<Longrightarrow> genuine E (w e)"
  shows "yields (good_resp E) (tryw w m k)"
  unfolding tryw_def
  by (rule yields_bind [OF assms(1)]) (use assms(2,3) in \<open>auto split: sum.splits intro: yields_intro\<close>)

lemma retryMutate_good: "honest E \<Longrightarrow> yields (good_resp E) (retryMutate E long meth path body headers)"
  unfolding retryMutate_def
  by (auto split: option.splits prod.splits sum.splits
      intro!: yields_intro yields_bind [OF fetchCSRFToken_good] yields_bind [OF execMutateWith_good]
      simp: good_pre_def good_pair_def secureCookieError_def)

lemma doReadWith_good: "honest E \<Longrightarrow> yields (good_resp E) (doReadWith E long path headers)"
  unfolding doReadWith_def Let_def
  by (auto split: option.splits prod.splits sum.splits
      intro!: yields_intro yields_tryw_resp yields_bind [OF fetchCSRFToken_good] yields_bind [OF sendGet_good]
        ensureCSRF_good refreshAfter401_good
      simp: good_pre_def good_pair_def)

lemma doMutateWith_good: "honest E \<Longrightarrow> yields (good_resp E) (doMutateWith E long meth path body headers)"
  unfolding doMutateWith_def Let_def
  by (auto split: option.splits prod.splits sum.splits
      intro!: yields_tryw_resp yields_bind [OF execMutateWith_good] yields_intro
        ensureCSRF_good refreshAfter401_good retryMutate_good
      simp: good_pair_def)

lemma doRead_good:
  "honest E \<Longrightarrow> yields (good_resp E) (doRead E path headers)"
  "honest E \<Longrightarrow> yields (good_resp E) (doReadLong E path headers)"
  by (simp_all add: doRead_def doReadLong_def doReadWith_good)

lemma doMutate_good:
  "honest E \<Longrightarrow> yields (good_resp E) (doMutate E meth path body headers)"
  "honest E \<Longrightarrow> yields (good_resp E) (doMutateLong E meth path body headers)"
  by (simp_all add: doMutate_def doMutateLong_def doMutateWith_good)

lemma checked_good:
  assumes "yields (good_resp E) m" and "\<And>e. genuine E e \<Longrightarrow> genuine E (w e)" and "\<And>e. genuine E e \<Longrightarrow> genuine E (v e)"
  shows "yields (good_resp E) (checked E w v m)"
  unfolding checked_def tryw_def
  by (rule yields_bind [OF assms(1)])
    (use assms(2,3) in \<open>auto split: sum.splits option.splits intro!: yields_intro dest: genuine_check\<close>)

lemma yields_after_checked:
  assumes "yields (good_resp E) m" and "\<And>x. good_resp E (Inr x) \<Longrightarrow> yields (errs (genuine E)) (k x)"
    and "\<And>e. genuine E e \<Longrightarrow> genuine E (w e)"
  shows "yields (errs (genuine E)) (tryw w m k)"
  unfolding tryw_def
  by (rule yields_bind [OF assms(1)]) (use assms(2,3) in \<open>auto split: sum.splits intro: yields_intro\<close>)

section \<open>What one call changes\<close>

text \<open>
  Reads and preflights take no effect, and a write takes effect once exactly when it returns a
  response with a status below 400: a repetition follows only a rejected attempt.
\<close>

lemma fetchCSRFToken_quiet [effects]: "quiet (fetchCSRFToken E)"
  unfolding fetchCSRFToken_def
  by (auto split: option.splits sum.splits prod.splits
      intro!: effects counts_bind_quiet [OF quiet_http_get]
      simp: store_preflight_def Let_def)

lemma call_refresh_quiet [effects]: "quiet (call_refresh cb sent)"
  by (rule counts_silent) (auto simp: call_refresh_def)

lemma refreshAfter401_quiet [effects]: "quiet (refreshAfter401 E sent)"
  unfolding refreshAfter401_def
  by (auto split: option.splits sum.splits intro!: effects counts_bind_quiet [OF call_refresh_quiet])

lemma ensureCSRF_quiet [effects]: "quiet (ensureCSRF E)"
  unfolding ensureCSRF_def
  by (auto split: option.splits prod.splits
      intro!: effects counts_bind_quiet [OF fetchCSRFToken_quiet] counts_tryw_quiet [OF refreshAfter401_quiet])

lemma sendGet_quiet [effects]: "quiet (sendGet E long path headers)"
  unfolding sendGet_def
  by (auto split: option.splits sum.splits prod.splits
      intro!: effects counts_bind_quiet [OF quiet_http_get])

lemma doReadWith_quiet [effects]: "quiet (doReadWith E long path headers)"
  unfolding doReadWith_def Let_def
  by (auto split: option.splits sum.splits prod.splits
      intro!: effects counts_tryw_quiet [OF ensureCSRF_quiet] counts_bind_quiet [OF sendGet_quiet]
        counts_tryw_quiet [OF refreshAfter401_quiet] counts_bind_quiet [OF fetchCSRFToken_quiet])

lemma doRead_quiet [effects]: "quiet (doRead E path headers)" "quiet (doReadLong E path headers)"
  by (simp_all add: doRead_def doReadLong_def doReadWith_quiet)

lemma execMutateWith_once:
  "meth \<noteq> ''GET'' \<Longrightarrow> once (\<lambda>p. succeeded (snd p)) (execMutateWith E long meth path body headers csrf)"
  unfolding execMutateWith_def
  by (auto split: option.splits sum.splits prod.splits
      intro!: effects counts_bind_once [OF once_http_send])

lemma retryMutate_once: "meth \<noteq> ''GET'' \<Longrightarrow> once succeeded (retryMutate E long meth path body headers)"
  unfolding retryMutate_def
  by (auto split: option.splits sum.splits prod.splits
      intro!: effects counts_bind_quiet [OF fetchCSRFToken_quiet] counts_bind_once [OF execMutateWith_once])

lemma doMutateWith_once: "meth \<noteq> ''GET'' \<Longrightarrow> once succeeded (doMutateWith E long meth path body headers)"
  unfolding doMutateWith_def Let_def
  by (auto split: option.splits sum.splits prod.splits
      intro!: effects counts_tryw_quiet [OF ensureCSRF_quiet] counts_bind_once [OF execMutateWith_once]
        counts_tryw_quiet [OF refreshAfter401_quiet] retryMutate_once)

lemma doMutate_once:
  "meth \<noteq> ''GET'' \<Longrightarrow> once succeeded (doMutate E meth path body headers)"
  "meth \<noteq> ''GET'' \<Longrightarrow> once succeeded (doMutateLong E meth path body headers)"
  by (simp_all add: doMutate_def doMutateLong_def doMutateWith_once)

definition isInr :: "'e + 'a \<Rightarrow> bool" where
  "isInr r = (case r of Inl _ \<Rightarrow> False | Inr _ \<Rightarrow> True)"

lemma isInr_simps [simp]: "\<not> isInr (Inl e)" "isInr (Inr x)"
  by (simp_all add: isInr_def)

text \<open>\<open>halts m\<close>: after a rejected credential \<open>m\<close> sends nothing more and fails, with whatever error.\<close>

abbreviation halts :: "('w cl, 'e + 'a) state \<Rightarrow> bool" where
  "halts m \<equiv> stops401 (\<lambda>r. \<not> isInr r) m"

lemma halts_stops: "stops401 unauth m \<Longrightarrow> halts m"
  by (erule stops401_weaken) (auto simp: unauth_def isInr_def split: sum.splits)

lemma halts_tryw: "halts m \<Longrightarrow> (\<And>x. halts (k x)) \<Longrightarrow> halts (tryw w m k)"
  unfolding tryw_def
  by (rule stops401_bind, assumption) (auto split: sum.splits intro!: stops)

lemma checked_once: "once succeeded m \<Longrightarrow> once isInr (checked E w v m)"
  unfolding checked_def
  by (rule counts_tryw_once, assumption) (auto split: option.splits intro!: effects simp: checkResponse_def)

lemma checked_quiet [effects]: "quiet m \<Longrightarrow> quiet (checked E w v m)"
  unfolding checked_def
  by (rule counts_tryw_quiet) (auto split: option.splits intro!: effects)

lemma still_seq [effects]:
  "quiet m \<Longrightarrow> (\<And>x. quiet (k x)) \<Longrightarrow> quiet (tryw w m k)"
  by (rule counts_tryw_quiet) auto

lemma once_then_ok:
  assumes "once isInr m"
  shows "once isInr (tryw w m (\<lambda>x. ok (f x)))"
  by (rule counts_tryw_once [OF assms]) (auto intro!: effects)

section \<open>Properties of the client\<close>

lemma stopped_shape:
  "stopped P r es \<Longrightarrow> (\<forall>ev \<in> set (tl es). \<not> is401 ev) \<and> (list_ex is401 es \<longrightarrow> P r)"
  by (cases es) (auto simp: stopped_def no401_def list_all_iff list_ex_iff)

lemma stops401_shape:
  assumes "stops401 P m" and "oauth s = None"
  shows "\<exists>es. wire (snd (run_state m s)) = es @ wire s
       \<and> (\<forall>ev \<in> set (tl es). \<not> is401 ev) \<and> (list_ex is401 es \<longrightarrow> P (fst (run_state m s)))"
proof -
  have "run_state m s = (fst (run_state m s), snd (run_state m s))" by simp
  from assms(1) this assms(2) obtain es where
    es: "wire (snd (run_state m s)) = es @ wire s" "stopped P (fst (run_state m s)) es"
    by (rule stops401E)
  from stopped_shape [OF es(2)] es(1) show ?thesis by (intro exI [of _ es]) simp
qed

text \<open>
  The contract every operation of the client promises its callers, stated once: an operation is a
  stateful computation that stops at the first rejected credential and hands the rejection on.
\<close>

locale operation =
  fixes oper :: "('w cl, err + 'a) state"
  assumes stops_here: "stops401 unauth oper"
begin

lemma at_most_one_rejection:
  assumes "oauth s = None"
  shows "\<exists>es. wire (snd (run_state oper s)) = es @ wire s
       \<and> (\<forall>ev \<in> set (tl es). \<not> is401 ev)
       \<and> (list_ex is401 es \<longrightarrow> unauth (fst (run_state oper s)))"
  by (rule stops401_shape [OF stops_here assms])

lemma result_means_no_rejection:
  assumes "oauth s = None" and "run_state oper s = (Inr x, s')"
  shows "\<exists>es. wire s' = es @ wire s \<and> no401 es"
proof -
  from stops_here assms(2,1) obtain es where
    "wire s' = es @ wire s" "stopped unauth (Inr x) es" by (rule stops401E)
  then show ?thesis by (auto simp: stopped_def)
qed

lemma then_stops:
  assumes "\<And>x. stops401 unauth (k x)" and "\<And>e. is_unauthorized e \<Longrightarrow> is_unauthorized (w e)"
  shows "stops401 unauth (tryw w oper k)"
  using stops_here assms by (rule stops401_tryw)

end

text \<open>
  C1. With Basic authentication a read or a write sends nothing after the first request SAP
  answers with 401, the preflight included, and the caller gets that 401: as the response, or as
  the error of the preflight.
\<close>

theorem request_stops_at_401:
  assumes "oauth s = None"
  shows "(\<exists>es. wire (snd (run_state (doMutateWith E long meth path body headers) s)) = es @ wire s
       \<and> (\<forall>ev \<in> set (tl es). \<not> is401 ev)
       \<and> (list_ex is401 es \<longrightarrow> resp401 (fst (run_state (doMutateWith E long meth path body headers) s))))
    \<and> (\<exists>es. wire (snd (run_state (doReadWith E long path headers) s)) = es @ wire s
       \<and> (\<forall>ev \<in> set (tl es). \<not> is401 ev)
       \<and> (list_ex is401 es \<longrightarrow> resp401 (fst (run_state (doReadWith E long path headers) s))))"
  using stops401_shape [OF doMutateWith_stops assms] stops401_shape [OF doReadWith_stops assms]
  by auto

theorem request_stops_at_401_witness:
  "(\<exists>es. wire (snd (run_state (doMutateWith scripted False ''POST'' ''/x'' None []) (new_client [answer 401 []])))
       = es @ wire (new_client [answer 401 []])
     \<and> (\<forall>ev \<in> set (tl es). \<not> is401 ev)
     \<and> (list_ex is401 es \<longrightarrow> resp401 (fst (run_state (doMutateWith scripted False ''POST'' ''/x'' None [])
          (new_client [answer 401 []])))))
   \<and> oauth (new_client [answer 401 []]) = None"
  using request_stops_at_401 [of "new_client [answer 401 []]" scripted False "''POST''" "''/x''" None "[]"]
  by simp


section \<open>How many requests one call sends\<close>

definition sends_at_most :: "nat \<Rightarrow> ('w cl, 'r) state \<Rightarrow> bool" where
  "sends_at_most n m \<longleftrightarrow> (\<forall>s. length (wire (snd (run_state m s))) \<le> length (wire s) + n)"

lemma at_most_mono: "sends_at_most a m \<Longrightarrow> a \<le> b \<Longrightarrow> sends_at_most b m"
  by (auto simp: sends_at_most_def intro: order_trans)

lemma at_most_pure:
  "sends_at_most n (State_Monad.return r)" "sends_at_most n (gets f)"
  by (simp_all add: sends_at_most_def)

lemma at_most_pure_sum:
  "sends_at_most n (ok x)" "sends_at_most n (fail e)" "sends_at_most n (of_sum z)"
  by (simp_all add: sends_at_most_def)

lemma at_most_modify: "(\<And>s. wire (f s) = wire s) \<Longrightarrow> sends_at_most n (modify f)"
  by (simp add: sends_at_most_def)

lemma at_most_send: "sends_at_most (Suc 0) (http_send E rq)"
  by (simp add: sends_at_most_def run_http_send)

lemma at_most_bind:
  assumes "sends_at_most a m" and "\<And>r. sends_at_most b (k r)"
  shows "sends_at_most (a + b) (State_Monad.bind m k)"
  unfolding sends_at_most_def
proof
  fix s
  obtain r1 s1 where 1: "run_state m s = (r1, s1)" by fastforce
  have "length (wire s1) \<le> length (wire s) + a"
    using assms(1) 1 by (auto simp: sends_at_most_def dest: spec [of _ s])
  moreover have "length (wire (snd (run_state (k r1) s1))) \<le> length (wire s1) + b"
    using assms(2) [of r1] by (simp add: sends_at_most_def)
  ultimately show "length (wire (snd (run_state (State_Monad.bind m k) s))) \<le> length (wire s) + (a + b)"
    using 1 by simp
qed

lemma at_most_bind0:
  "sends_at_most 0 m \<Longrightarrow> (\<And>r. sends_at_most b (k r)) \<Longrightarrow> sends_at_most b (State_Monad.bind m k)"
  using at_most_bind [of 0 m b k] by simp

lemma at_most_last:
  "sends_at_most (Suc 0) m \<Longrightarrow> (\<And>r. sends_at_most 0 (k r)) \<Longrightarrow> sends_at_most (Suc 0) (State_Monad.bind m k)"
  using at_most_bind [of "Suc 0" m 0 k] by simp

lemma at_most_two:
  "sends_at_most (Suc 0) m \<Longrightarrow> (\<And>r. sends_at_most (Suc 0) (k r)) \<Longrightarrow> sends_at_most 2 (State_Monad.bind m k)"
  using at_most_bind [of "Suc 0" m "Suc 0" k] by (simp add: numeral_2_eq_2)

lemma at_most_tryw:
  "sends_at_most a m \<Longrightarrow> (\<And>x. sends_at_most b (k x)) \<Longrightarrow> sends_at_most (a + b) (tryw w m k)"
  unfolding tryw_def by (rule at_most_bind) (auto split: sum.splits intro: at_most_pure_sum)

lemma at_most_gets: "(\<And>x. sends_at_most n (k x)) \<Longrightarrow> sends_at_most n (State_Monad.bind (gets f) k)"
  by (rule at_most_bind0) (auto intro: at_most_pure)

lemma at_most_set:
  "(\<And>s. wire (f s) = wire s) \<Longrightarrow> sends_at_most n (k ()) \<Longrightarrow> sends_at_most n (State_Monad.bind (modify f) k)"
  by (rule at_most_bind0) (auto intro: at_most_modify)

lemma at_most_call:
  "(\<And>r. sends_at_most n (k r)) \<Longrightarrow> sends_at_most n (State_Monad.bind (call_refresh cb sent) k)"
  by (rule at_most_bind0) (auto simp: sends_at_most_def call_refresh_def)

lemmas at_most = at_most_pure at_most_pure_sum at_most_gets at_most_set at_most_call

lemma at_most_refresh: "sends_at_most 0 (refreshAfter401 E sent)"
  unfolding refreshAfter401_def
  by (intro at_most; auto split: option.splits sum.splits intro!: at_most)

lemma at_most_after_refresh:
  "(\<And>x. sends_at_most n (k x)) \<Longrightarrow> sends_at_most n (tryw w (refreshAfter401 E sent) k)"
  using at_most_tryw [OF at_most_refresh, of n] by simp

lemma at_most_fetch: "sends_at_most (Suc 0) (fetchCSRFToken E)"
  unfolding fetchCSRFToken_def
  by (auto split: option.splits sum.splits prod.splits intro!: at_most
      at_most_last [OF at_most_send] simp: store_preflight_def Let_def)

lemma at_most_sendGet: "sends_at_most (Suc 0) (sendGet E long path headers)"
  unfolding sendGet_def
  by (auto split: option.splits sum.splits prod.splits intro!: at_most
      at_most_last [OF at_most_send])

lemma at_most_exec: "sends_at_most (Suc 0) (execMutateWith E long meth path body headers csrf)"
  unfolding execMutateWith_def
  by (auto split: option.splits sum.splits prod.splits intro!: at_most
      at_most_last [OF at_most_send])

lemma at_most_ensure: "sends_at_most 2 (ensureCSRF E)"
proof -
  have f: "sends_at_most (Suc 0) (fetchCSRFToken E \<bind> (\<lambda>(_, e2). case e2 of None \<Rightarrow> ok () | Some er2 \<Rightarrow> fail er2))"
    by (rule at_most_last [OF at_most_fetch])
      (auto split: option.splits prod.splits intro: at_most)
  show ?thesis
    unfolding ensureCSRF_def
    apply (intro at_most)
    apply (auto intro!: at_most)
    apply (rule at_most_two [OF at_most_fetch])
    apply (auto split: option.splits prod.splits intro!: at_most at_most_after_refresh f)
    done
qed

lemma at_most_retry: "sends_at_most 2 (retryMutate E long meth path body headers)"
  unfolding retryMutate_def
  apply (rule at_most_two [OF at_most_fetch])
  apply (auto split: option.splits prod.splits intro!: at_most)
  apply (rule at_most_last [OF at_most_exec])
  apply (auto split: sum.splits prod.splits intro!: at_most)
  done

lemma at_most_mutate: "sends_at_most 5 (doMutateWith E long meth path body headers)"
proof -
  have "sends_at_most (2 + (Suc 0 + 2)) (doMutateWith E long meth path body headers)"
    unfolding doMutateWith_def Let_def
    apply (rule at_most_tryw [OF at_most_ensure])
    apply (rule at_most_gets)
    apply (rule at_most_bind [OF at_most_exec])
    apply (auto split: sum.splits prod.splits intro!: at_most at_most_after_refresh at_most_retry)
    done
  then show ?thesis by simp
qed

lemma at_most_read: "sends_at_most 5 (doReadWith E long path headers)"
proof -
  have "sends_at_most (2 + (Suc 0 + 2)) (doReadWith E long path headers)"
    unfolding doReadWith_def Let_def
    apply (rule at_most_tryw [OF at_most_ensure])
    apply (rule at_most_bind [OF at_most_sendGet])
    apply (auto split: sum.splits prod.splits intro!: at_most at_most_after_refresh)
    apply (rule at_most_two [OF at_most_fetch])
    apply (auto split: option.splits prod.splits intro!: at_most)
    apply (rule at_most_last [OF at_most_sendGet])
    apply (auto split: prod.splits intro!: at_most)
    done
  then show ?thesis by simp
qed

text \<open>
  C37. One call sends at most five requests: two preflights, the request, and one repetition after
  one more preflight; nothing loops, whatever the system answers.
\<close>

theorem request_bound:
  "length (wire (snd (run_state (doMutateWith E long meth path body headers) s))) \<le> length (wire s) + 5
   \<and> length (wire (snd (run_state (doReadWith E long path headers) s))) \<le> length (wire s) + 5"
  using at_most_mutate [of E long meth path body headers] at_most_read [of E long path headers]
  by (simp add: sends_at_most_def)

section \<open>Redirects and error texts\<close>

lemma equal_fold_trans: "equal_fold a b \<Longrightarrow> equal_fold b c \<Longrightarrow> equal_fold a c"
  by (simp add: equal_fold_def)

text \<open>
  C29. Whatever redirects SAP answers with, every request of the chain goes to the scheme and host
  of the first one, and the chain has at most ten requests.
\<close>

theorem redirects_stay_on_origin:
  "let chain = follow_redirects [u] ts in
     length chain \<le> 10
     \<and> list_all (\<lambda>v. u_scheme v = u_scheme u \<and> equal_fold (u_host v) (u_host u)) chain"
proof -
  have "length via \<le> 10 \<Longrightarrow> via \<noteq> [] \<Longrightarrow> hd via = u \<Longrightarrow>
      \<forall>v \<in> set via. u_scheme v = u_scheme u \<and> equal_fold (u_host v) (u_host u) \<Longrightarrow>
      length (follow_redirects via ts) \<le> 10 \<and>
      (\<forall>v \<in> set (follow_redirects via ts). u_scheme v = u_scheme u \<and> equal_fold (u_host v) (u_host u))"
    for via
  proof (induction via ts rule: follow_redirects.induct)
    case (1 via)
    then show ?case by simp
  next
    case (2 via t ts)
    show ?case
    proof (cases "sameOriginRedirect t via")
      case None
      then have "u_scheme t = u_scheme u" "equal_fold (u_host t) (u_host u)" "length via < 10"
        using 2(4) by (auto simp: sameOriginRedirect_def Let_def split: if_splits)
      with 2 None show ?thesis by (auto simp: hd_append)
    next
      case (Some e)
      with 2 show ?thesis by simp
    qed
  qed
  from this [of "[u]"] show ?thesis by (simp add: Let_def list_all_iff)
qed

text \<open>
  The error made of a 401 response always has a text and the status 401, whatever the body:
  SAP's own text when there is one, and otherwise the advice to check the credentials.
\<close>

theorem unauthorized_error_has_text:
  "StatusCode (parseADTError E 401 data) = 401 \<and> Message (parseADTError E 401 data) \<noteq> []"
proof -
  have "Message (parse_untagged 401 data) \<noteq> []"
    by (simp add: parse_untagged_def plain_adt_error_def noDetailMessage_def unauthorizedMessage_def Let_def)
  then have "Message (parse_legacy E 401 data) \<noteq> []"
    by (auto simp: parse_legacy_def plain_adt_error_def split: sum.splits)
  then show ?thesis
    by (auto simp: parseADTError_def modern_adt_error_def plain_adt_error_def Let_def split: sum.splits)
qed

end
