(* ===== verification/Utf8.thy ===== *)
theory Utf8
  imports Prelude "HOL-Library.Code_Target_Nat"
begin

text \<open>
  Go strings are bytes; \<open>range\<close>, \<open>[]rune\<close> and \<open>utf8.RuneCountInString\<close> read them as UTF-8. Runes
  are kept as the bytes that encode them, so that a rune list is a segmentation of a string.
\<close>

section \<open>UTF-8\<close>

text \<open>
  A rune is the byte string that encodes it. \<open>decode\<close> is \<open>[]rune(s)\<close>: a byte that starts no valid
  sequence becomes U+FFFD, and \<open>rune_count\<close> is \<open>utf8.RuneCountInString\<close>.
\<close>

type_synonym rune = string

definition in_range :: "nat \<Rightarrow> nat \<Rightarrow> char \<Rightarrow> bool" where
  "in_range lo hi c \<longleftrightarrow> lo \<le> (of_char c :: nat) \<and> (of_char c :: nat) \<le> hi"

definition seq_len :: "char \<Rightarrow> nat" where
  "seq_len a = (if in_range 0 127 a then 1 else if in_range 194 223 a then 2
     else if in_range 224 239 a then 3 else if in_range 240 244 a then 4 else 0)"

definition continuation_ok :: "char \<Rightarrow> string \<Rightarrow> bool" where
  "continuation_ok a bs =
     (let n = (of_char a :: nat);
          lo = (if n = 224 then 160 else if n = 240 then 144 else 128);
          hi = (if n = 237 then 159 else if n = 244 then 143 else 191)
      in case bs of [] \<Rightarrow> True | b # cs \<Rightarrow> in_range lo hi b \<and> list_all (in_range 128 191) cs)"

definition utf8_len :: "string \<Rightarrow> nat" where
  "utf8_len s =
     (case s of
        [] \<Rightarrow> 0
      | a # r \<Rightarrow>
          (let n = seq_len a; bs = take (n - 1) r
           in if length bs = n - 1 \<and> continuation_ok a bs then n else 0))"

definition replacement_rune :: rune where
  "replacement_rune = [CHR 0xEF, CHR 0xBF, CHR 0xBD]"

function decode :: "string \<Rightarrow> rune list" where
  "decode s =
     (if s = [] then []
      else if utf8_len s = 0 then replacement_rune # decode (tl s)
      else take (utf8_len s) s # decode (drop (utf8_len s) s))"
  by pat_completeness auto
termination
  by (relation "measure length") (auto simp: neq_Nil_conv)

declare decode.simps [simp del]

definition rune_count :: "string \<Rightarrow> nat" where
  "rune_count s = length (decode s)"

definition rune_ok :: "rune \<Rightarrow> bool" where
  "rune_ok c \<longleftrightarrow> c \<noteq> [] \<and> utf8_len c = length c"

lemma utf8_len_Nil [simp]: "utf8_len [] = 0"
  by (simp add: utf8_len_def)

lemma utf8_len_le: "utf8_len s \<le> length s"
  by (cases s) (auto simp: utf8_len_def Let_def min_def split: if_splits)

lemma utf8_len_append: "rune_ok c \<Longrightarrow> utf8_len (c @ r) = length c"
  by (cases c) (auto simp: rune_ok_def utf8_len_def Let_def split: if_splits)

lemma utf8_len_take:
  assumes "utf8_len s \<noteq> 0"
  shows "rune_ok (take (utf8_len s) s)"
proof (cases s)
  case Nil
  with assms show ?thesis by simp
next
  case (Cons a r)
  let ?n = "seq_len a"
  let ?bs = "take (?n - 1) r"
  from assms Cons have n: "utf8_len s = ?n" "length ?bs = ?n - 1" "continuation_ok a ?bs" "?n \<noteq> 0"
    by (auto simp: utf8_len_def Let_def split: if_splits)
  then have t: "take ?n (a # r) = a # ?bs" by (cases ?n) auto
  have "utf8_len (a # ?bs) = ?n"
    unfolding utf8_len_def Let_def list.case
    using n(2,3) by (simp add: take_all)
  then show ?thesis
    using n(2,4) unfolding Cons rune_ok_def n(1) [unfolded Cons] t by simp
qed

lemma rune_ok_ascii: "in_range 0 127 c \<Longrightarrow> rune_ok [c]"
  by (simp add: rune_ok_def utf8_len_def seq_len_def continuation_ok_def)

lemma rune_ok_replacement: "rune_ok replacement_rune"
  by (simp add: rune_ok_def replacement_rune_def in_range_def utf8_len_def seq_len_def continuation_ok_def)

lemma decode_ok: "list_all rune_ok (decode s)"
proof (induction s rule: decode.induct)
  case (1 s)
  then show ?case
    by (subst decode.simps) (auto simp: rune_ok_replacement utf8_len_take)
qed

lemma decode_Nil [simp]: "decode [] = []"
  by (simp add: decode.simps)

lemma decode_Cons: "rune_ok c \<Longrightarrow> decode (c @ r) = c # decode r"
  by (subst decode.simps) (auto simp: utf8_len_append rune_ok_def)

lemma decode_concat: "list_all rune_ok rs \<Longrightarrow> decode (concat rs) = rs"
  by (induction rs) (auto simp: decode_Cons)

lemma decode_append: "list_all rune_ok rs \<Longrightarrow> decode (concat rs @ s) = rs @ decode s"
  by (induction rs) (auto simp: decode_Cons)

lemma rune_count_concat: "list_all rune_ok rs \<Longrightarrow> rune_count (concat rs) = length rs"
  by (simp add: rune_count_def decode_concat)

text \<open>Decoding only rewrites bytes from 128 upwards.\<close>

lemma decode_ascii_byte:
  "in_range 0 127 c \<Longrightarrow> r \<in> set (decode s) \<Longrightarrow> c \<in> set r \<Longrightarrow> c \<in> set s"
proof (induction s rule: decode.induct)
  case (1 s)
  show ?case
  proof (cases "s = []")
    case False
    then show ?thesis
      using 1 by (subst (asm) (3) decode.simps)
        (auto simp: replacement_rune_def in_range_def dest: in_set_takeD in_set_dropD list.set_sel(2)
          split: if_splits)
  qed (use 1 in simp)
qed

lemma utf8_len_snoc_ascii:
  assumes "in_range 0 127 c" and "t \<noteq> []"
  shows "utf8_len (t @ [c]) = utf8_len t"
proof (cases t)
  case (Cons a r)
  let ?n = "seq_len a"
  show ?thesis
  proof (cases "?n - 1 \<le> length r")
    case True
    then show ?thesis by (simp add: Cons utf8_len_def Let_def)
  next
    case False
    then have "take (?n - 1) (r @ [c]) = r @ [c]" by simp
    moreover have "\<not> continuation_ok a (r @ [c])"
      using assms(1) by (cases r) (auto simp: continuation_ok_def in_range_def Let_def split: if_splits)
    ultimately show ?thesis using False by (auto simp: Cons utf8_len_def Let_def)
  qed
qed (use assms in simp)

lemma decode_snoc_ascii: "in_range 0 127 c \<Longrightarrow> decode (t @ [c]) = decode t @ [[c]]"
proof (induction t rule: decode.induct)
  case (1 t)
  show ?case
  proof (cases "t = []")
    case True
    then show ?thesis
      using decode_Cons [OF rune_ok_ascii [OF 1(3)], of "[]"] by simp
  next
    case False
    note len = utf8_len_snoc_ascii [OF 1(3) False]
    show ?thesis
    proof (cases "utf8_len t = 0")
      case True
      with False len have "decode (t @ [c]) = replacement_rune # decode (tl t @ [c])"
        by (subst decode.simps) simp
      also have "\<dots> = replacement_rune # decode (tl t) @ [[c]]"
        using 1(1) [OF False True 1(3)] by simp
      also have "\<dots> = decode t @ [[c]]"
        using True False by (subst (2) decode.simps) simp
      finally show ?thesis .
    next
      case n: False
      have le: "utf8_len t \<le> length t" by (rule utf8_len_le)
      from n False len le have "decode (t @ [c])
          = take (utf8_len t) t # decode (drop (utf8_len t) t @ [c])"
        by (subst decode.simps) simp
      also have "\<dots> = take (utf8_len t) t # decode (drop (utf8_len t) t) @ [[c]]"
        using 1(2) [OF False n 1(3)] by simp
      also have "\<dots> = decode t @ [[c]]"
        using n False by (subst (2) decode.simps) simp
      finally show ?thesis .
    qed
  qed
qed

definition valid_utf8 :: "string \<Rightarrow> bool" where
  "valid_utf8 v \<longleftrightarrow> concat (decode v) = v"

lemma rune_ok_ascii_mem:
  assumes "rune_ok r" and "in_range 0 127 c" and "c \<in> set r"
  shows "r = [c]"
proof (cases r)
  case (Cons a t)
  show ?thesis
  proof (cases "c \<in> set t")
    case True
    from assms(1) Cons have n: "utf8_len (a # t) = Suc (length t)" by (simp add: rune_ok_def)
    then have "seq_len a = Suc (length t)" "continuation_ok a (take (seq_len a - 1) t)"
      by (auto simp: utf8_len_def Let_def split: if_splits)
    then have "continuation_ok a t" by simp
    with True assms(2) show ?thesis
      by (cases t) (auto simp: continuation_ok_def in_range_def list_all_iff Let_def
        dest!: bspec split: if_splits)
  next
    case False
    with assms Cons have "c = a" by simp
    with assms(1,2) Cons have "length t = 0"
      by (auto simp: rune_ok_def utf8_len_def seq_len_def Let_def split: if_splits)
    with Cons \<open>c = a\<close> show ?thesis by simp
  qed
qed (use assms in simp)


end
