(* ===== verification/Wire.thy ===== *)
theory Wire
  imports Utf8 "HOL-Library.Multiset" "HOL-Library.List_Lexorder" "HOL-Library.Char_ord"
begin

text \<open>
  What Go's standard library makes of values on their way into a request: \<open>url.QueryEscape\<close>,
  \<open>url.PathEscape\<close>, \<open>url.Values.Encode\<close>, and \<open>xml.EscapeText\<close> with the elements
  \<open>xml.Marshal\<close> writes. The readers on the other side are here too, for the round trips.
\<close>

section \<open>URLs\<close>

definition hex_digit :: "nat \<Rightarrow> char" where
  "hex_digit n = ''0123456789ABCDEF'' ! n"

definition hex_value :: "char \<Rightarrow> nat option" where
  "hex_value c =
     (let n = (of_char c :: nat) in
      if 48 \<le> n \<and> n \<le> 57 then Some (n - 48)
      else if 65 \<le> n \<and> n \<le> 70 then Some (n - 55)
      else if 97 \<le> n \<and> n \<le> 102 then Some (n - 87)
      else None)"

definition unreserved :: "char \<Rightarrow> bool" where
  "unreserved c \<longleftrightarrow> is_upper c \<or> is_lower c \<or> is_digit c \<or> c \<in> {CHR ''-'', CHR ''_'', CHR ''.'', CHR ''~''}"

definition percent :: "char \<Rightarrow> string" where
  "percent c = (let n = (of_char c :: nat) in [CHR ''%'', hex_digit (n div 16), hex_digit (n mod 16)])"

definition query_byte :: "char \<Rightarrow> string" where
  "query_byte c = (if unreserved c then [c] else if c = CHR '' '' then ''+'' else percent c)"

definition query_escape :: "string \<Rightarrow> string" where
  "query_escape s = concat (map query_byte s)"

definition path_byte :: "char \<Rightarrow> string" where
  "path_byte c = (if unreserved c \<or> c \<in> {CHR ''$'', CHR ''&'', CHR ''+'', CHR ''='', CHR '':'', CHR ''@''}
     then [c] else percent c)"

definition path_escape :: "string \<Rightarrow> string" where
  "path_escape s = concat (map path_byte s)"

text \<open>\<open>url.Values.Encode\<close>: the pairs in the order of their keys.\<close>

definition values_encode :: "(string \<times> string) list \<Rightarrow> string" where
  "values_encode ps = join ''&'' (map (\<lambda>(k, v). query_escape k @ ''='' @ query_escape v) (sort_key fst ps))"

fun query_unescape :: "string \<Rightarrow> string option" where
  "query_unescape [] = Some []"
| "query_unescape (c # s) =
     (if c = CHR ''%'' then
        (case s of
           a # b # r \<Rightarrow>
             (case (hex_value a, hex_value b) of
                (Some x, Some y) \<Rightarrow> map_option (Cons (char_of (16 * x + y))) (query_unescape r)
              | _ \<Rightarrow> None)
         | _ \<Rightarrow> None)
      else if c = CHR ''+'' then map_option (Cons (CHR '' '')) (query_unescape s)
      else map_option (Cons c) (query_unescape s))"

definition query_pair :: "string \<Rightarrow> (string \<times> string) option" where
  "query_pair s = (case index_byte s (CHR ''='') of
      None \<Rightarrow> None
    | Some i \<Rightarrow> (case (query_unescape (take i s), query_unescape (drop (Suc i) s)) of
        (Some k, Some v) \<Rightarrow> Some (k, v) | _ \<Rightarrow> None))"

definition parse_query :: "string \<Rightarrow> (string \<times> string) option list" where
  "parse_query q = (if q = [] then [] else map query_pair (split_on (CHR ''&'') q))"

lemma hex_digit_value: "n < 16 \<Longrightarrow> hex_value (hex_digit n) = Some n"
  by (auto simp: hex_digit_def hex_value_def Let_def numeral_eq_Suc less_Suc_eq)

lemma query_unescape_byte: "query_unescape (query_byte c @ s) = map_option (Cons c) (query_unescape s)"
proof (cases "unreserved c \<or> c = CHR '' ''")
  case True
  moreover have "\<not> unreserved (CHR ''%'')" "\<not> unreserved (CHR ''+'')"
    by (simp_all add: unreserved_def is_upper_def is_lower_def is_digit_def)
  ultimately show ?thesis by (auto simp: query_byte_def)
next
  case False
  have "(of_char c :: nat) div 16 < 16" "(of_char c :: nat) mod 16 < 16"
    by (simp_all add: div_less_iff_less_mult)
  then show ?thesis using False
    by (simp add: query_byte_def percent_def Let_def hex_digit_value)
qed

lemma query_unescape_escape [simp]: "query_unescape (query_escape s) = Some s"
  by (induction s) (simp_all add: query_escape_def query_unescape_byte del: query_unescape.simps(2))

lemma hex_digit_plain:
  "n < 16 \<Longrightarrow> hex_digit n \<noteq> CHR ''&'' \<and> hex_digit n \<noteq> CHR ''='' \<and> hex_digit n \<noteq> CHR ''?'' \<and> hex_digit n \<noteq> CHR ''#''"
  by (auto simp: hex_digit_def numeral_eq_Suc less_Suc_eq)

lemma not_unreserved: "c \<in> {CHR ''&'', CHR ''='', CHR ''?'', CHR ''#''} \<Longrightarrow> \<not> unreserved c"
  by (elim insertE) (simp_all add: unreserved_def is_upper_def is_lower_def is_digit_def)

lemma query_byte_plain:
  assumes "c \<in> {CHR ''&'', CHR ''='', CHR ''?'', CHR ''#''}"
  shows "c \<notin> set (query_byte d)"
proof (cases "unreserved d")
  case True
  with not_unreserved [OF assms] show ?thesis by (auto simp: query_byte_def)
next
  case False
  have "(of_char d :: nat) div 16 < 16" "(of_char d :: nat) mod 16 < 16"
    by (simp_all add: div_less_iff_less_mult)
  with hex_digit_plain assms have "c \<noteq> hex_digit (of_char d div 16)" "c \<noteq> hex_digit (of_char d mod 16)"
    by blast+
  with False assms show ?thesis by (auto simp: query_byte_def percent_def Let_def)
qed

lemma query_escape_plain:
  "c \<in> {CHR ''&'', CHR ''='', CHR ''?'', CHR ''#''} \<Longrightarrow> c \<notin> set (query_escape s)"
  using query_byte_plain by (auto simp: query_escape_def)

lemma query_pair_encode: "query_pair (query_escape k @ ''='' @ query_escape v) = Some (k, v)"
proof -
  have n: "CHR ''='' \<notin> set (query_escape k)" by (rule query_escape_plain) simp
  have "index_byte (w @ CHR ''='' # z) (CHR ''='') = Some (length w)" if "CHR ''='' \<notin> set w" for w z
    using that by (induction w) (auto simp: index_byte_Cons)
  with n show ?thesis by (simp add: query_pair_def)
qed

lemma parse_values_encode: "parse_query (values_encode ps) = map Some (sort_key fst ps)"
proof (cases "ps = []")
  case True
  then show ?thesis by (simp add: parse_query_def values_encode_def)
next
  case False
  let ?f = "\<lambda>(k, v). query_escape k @ ''='' @ query_escape v"
  let ?qs = "map ?f (sort_key fst ps)"
  have ne: "?qs \<noteq> []" using False by (metis length_0_conv length_map length_sort)
  have "CHR ''&'' \<notin> set q" if "q \<in> set ?qs" for q
    using that query_escape_plain [of "CHR ''&''"] by auto
  with ne have "split_on (CHR ''&'') (values_encode ps) = ?qs"
    by (simp add: values_encode_def split_on_join)
  moreover have "values_encode ps \<noteq> []"
    using ne by (cases ?qs; cases "tl ?qs") (auto simp: values_encode_def)
  ultimately show ?thesis
    using query_pair_encode by (auto simp: parse_query_def)
qed

section \<open>XML text\<close>

text \<open>\<open>xml.EscapeText\<close>, rune by rune; a rune XML does not allow becomes U+FFFD.\<close>

definition xml_references :: "(string \<times> rune) list" where
  "xml_references = [(''&#34;'', [QUOT]), (''&#39;'', [APOS]), (''&amp;'', ''&''), (''&lt;'', ''<''),
     (''&gt;'', ''>''), (''&#x9;'', [TAB]), (''&#xA;'', [NL]), (''&#xD;'', [CR])]"

definition xml_rune_illegal :: "rune \<Rightarrow> bool" where
  "xml_rune_illegal r \<longleftrightarrow> (length r = 1 \<and> in_range 0 31 (hd r) \<and> hd r \<notin> {TAB, NL, CR})
     \<or> r = [CHR 0xEF, CHR 0xBF, CHR 0xBE] \<or> r = [CHR 0xEF, CHR 0xBF, CHR 0xBF]"

definition xml_rune :: "rune \<Rightarrow> string" where
  "xml_rune r = (case find (\<lambda>(_, x). x = r) xml_references of
      Some (ref, _) \<Rightarrow> ref
    | None \<Rightarrow> if xml_rune_illegal r then replacement_rune else r)"

definition xml_escape :: "string \<Rightarrow> string" where
  "xml_escape s = concat (map xml_rune (decode s))"

definition xml_attr_text :: "string \<times> string \<Rightarrow> string" where
  "xml_attr_text kv = '' '' @ fst kv @ ''='' @ [QUOT] @ xml_escape (snd kv) @ [QUOT]"

definition xml_open :: "string \<Rightarrow> (string \<times> string) list \<Rightarrow> string" where
  "xml_open tag as = ''<'' @ tag @ concat (map xml_attr_text as) @ ''>''"

definition xml_elem :: "string \<Rightarrow> (string \<times> string) list \<Rightarrow> string \<Rightarrow> string" where
  "xml_elem tag as body = xml_open tag as @ body @ ''</'' @ tag @ ''>''"

text \<open>An attribute with \<open>omitempty\<close>.\<close>

definition opt_attr :: "string \<Rightarrow> string \<Rightarrow> (string \<times> string) list" where
  "opt_attr k v = (if v = [] then [] else [(k, v)])"

definition xml_header :: string where
  "xml_header = ''<?xml version='' @ [QUOT] @ ''1.0'' @ [QUOT] @ '' encoding='' @ [QUOT] @ ''UTF-8'' @ [QUOT] @ ''?>'' @ [NL]"

text \<open>Reading a value back.\<close>

fun xml_unescape :: "nat \<Rightarrow> string \<Rightarrow> string" where
  "xml_unescape 0 s = s"
| "xml_unescape (Suc n) s =
     (case s of
        [] \<Rightarrow> []
      | c # t \<Rightarrow>
          (case find (\<lambda>(ref, _). has_prefix s ref) xml_references of
             Some (ref, r) \<Rightarrow> r @ xml_unescape n (drop (length ref) s)
           | None \<Rightarrow> c # xml_unescape n t))"

definition xml_text_legal :: "string \<Rightarrow> bool" where
  "xml_text_legal s \<longleftrightarrow> valid_utf8 s \<and> list_all (\<lambda>r. \<not> xml_rune_illegal r) (decode s)"

lemma find_reference_None: "c \<noteq> CHR ''&'' \<Longrightarrow> find (\<lambda>(ref, _). has_prefix (c # s) ref) xml_references = None"
  by (simp add: xml_references_def has_prefix_def)

lemma xml_unescape_plain:
  "CHR ''&'' \<notin> set r \<Longrightarrow> length r \<le> n \<Longrightarrow> xml_unescape n (r @ s) = r @ xml_unescape (n - length r) s"
proof (induction r arbitrary: n)
  case (Cons c r)
  then obtain m where "n = Suc m" by (cases n) auto
  with Cons show ?case by (auto simp: find_reference_None dest: not_sym)
qed simp

lemma xml_unescape_reference:
  "(ref, r) \<in> set xml_references \<Longrightarrow> xml_unescape (Suc n) (ref @ s) = r @ xml_unescape n s"
  by (auto simp: xml_references_def has_prefix_def)

lemma xml_rune_cases:
  assumes "rune_ok r" and "\<not> xml_rune_illegal r"
  obtains "(xml_rune r, r) \<in> set xml_references" | "xml_rune r = r" "CHR ''&'' \<notin> set r"
proof (cases "find (\<lambda>(_, x). x = r) xml_references")
  case (Some p)
  then have "p \<in> set xml_references" "snd p = r"
    using nth_mem by (fastforce simp: find_Some_iff)+
  with Some that(1) show ?thesis by (cases p) (simp add: xml_rune_def)
next
  case None
  then have "r \<noteq> ''&''" by (auto simp: xml_references_def)
  with rune_ok_ascii_mem [OF assms(1), of "CHR ''&''"] have "CHR ''&'' \<notin> set r"
    by (auto simp: in_range_def)
  with None assms(2) that(2) show ?thesis by (simp add: xml_rune_def)
qed

lemma xml_unescape_runes:
  "list_all rune_ok rs \<Longrightarrow> list_all (\<lambda>r. \<not> xml_rune_illegal r) rs \<Longrightarrow> length (concat rs) \<le> n \<Longrightarrow>
     xml_unescape n (concat (map xml_rune rs)) = concat rs"
proof (induction rs arbitrary: n)
  case Nil
  then show ?case by (cases n) auto
next
  case (Cons r rs)
  from Cons.prems have r: "rune_ok r" "\<not> xml_rune_illegal r" by simp_all
  from r(1) have "r \<noteq> []" by (simp add: rune_ok_def)
  with Cons.prems(3) obtain m where m: "n = Suc m" by (cases n) auto
  from r show ?case
  proof (rule xml_rune_cases)
    assume ref: "(xml_rune r, r) \<in> set xml_references"
    then have "length r = 1" by (auto simp: xml_references_def)
    with Cons.prems m have "xml_unescape m (concat (map xml_rune rs)) = concat rs"
      by (intro Cons.IH) auto
    with xml_unescape_reference [OF ref, of m] m show ?thesis by simp
  next
    assume "xml_rune r = r" "CHR ''&'' \<notin> set r"
    with xml_unescape_plain [of r n] Cons.prems Cons.IH [of "n - length r"] show ?thesis by simp
  qed
qed

lemma xml_unescape_escape:
  "xml_text_legal s \<Longrightarrow> xml_unescape (length s) (xml_escape s) = s"
  using xml_unescape_runes [OF decode_ok, of s "length s"]
  by (simp add: xml_text_legal_def valid_utf8_def xml_escape_def)

text \<open>
  A value put into an XML body arrives as it is and cannot break out of its place: the escaped
  text has no angle bracket and no quote, and reading the references back gives the value.
\<close>

lemma xml_value_arrives:
  assumes "xml_text_legal s"
  shows "xml_unescape (length s) (xml_escape s) = s
    \<and> list_all (\<lambda>c. c \<notin> {CHR ''<'', CHR ''>'', QUOT, APOS}) (xml_escape s)"
proof -
  have refs: "list_all (\<lambda>(ref, _). list_all (\<lambda>c. c \<notin> {CHR ''<'', CHR ''>'', QUOT, APOS}) ref) xml_references"
    by (simp add: xml_references_def)
  have "c \<notin> set (xml_rune r)" if r: "rune_ok r" and c: "c \<in> {CHR ''<'', CHR ''>'', QUOT, APOS}" for r c
  proof (cases "find (\<lambda>(_, x). x = r) xml_references")
    case (Some p)
    then have "p \<in> set xml_references" using nth_mem by (fastforce simp: find_Some_iff)
    with refs c Some show ?thesis by (fastforce simp: xml_rune_def list_all_iff)
  next
    case None
    from c have "[c] \<in> snd ` set xml_references" by (auto simp: xml_references_def)
    with None have "r \<noteq> [c]" by (fastforce simp: find_None_iff)
    with rune_ok_ascii_mem [OF r, of c] c have "c \<notin> set r" by (auto simp: in_range_def)
    with None c show ?thesis by (auto simp: xml_rune_def replacement_rune_def)
  qed
  then have "list_all (\<lambda>c. c \<notin> {CHR ''<'', CHR ''>'', QUOT, APOS}) (xml_escape s)"
    using decode_ok [of s] by (fastforce simp: xml_escape_def list_all_iff)
  with xml_unescape_escape [OF assms] show ?thesis by simp
qed

end
