(* ===== verification/Repo.thy ===== *)
theory Repo
  imports Client Wire
begin

text \<open>
  Reading object documents (\<open>adt/repository.go\<close>): the Accept header an object's URI asks for, the
  retry after a 406, \<open>GetObjectInfo\<close> with its lookups of a missing package, and \<open>BrowsePackage\<close>.
\<close>

section \<open>Object types and media types\<close>

definition contentTypeXML :: string where "contentTypeXML = ''application/xml''"
definition nsADTCore :: string where "nsADTCore = ''http://www.sap.com/adt/core''"
definition httpServiceContentType :: string where
  "httpServiceContentType = ''application/vnd.sap.adt.uconn.http.v1+xml''"
definition fugrIncludeContentType :: string where
  "fugrIncludeContentType = ''application/vnd.sap.adt.functions.fincludes.v2+xml''"
definition fugrModuleContentType :: string where
  "fugrModuleContentType = ''application/vnd.sap.adt.functions.fmodules.v3+xml''"
definition vitObjectPropertiesContentType :: string where
  "vitObjectPropertiesContentType = ''application/vnd.sap.adt.basic.object.properties+xml''"
definition vitObjectTypePrefix :: string where
  "vitObjectTypePrefix = ''/sap/bc/adt/vit/wb/object_type/''"
definition groupsPrefix :: string where
  "groupsPrefix = ''/sap/bc/adt/functions/groups/''"

text \<open>\<open>objectTypeMap\<close>: object type, endpoint, ADT type.\<close>

definition objectTypeMap :: "(string \<times> string \<times> string) list" where
  "objectTypeMap = [
     (''PROG'', ''/sap/bc/adt/programs/programs'', ''PROG/P''),
     (''CLAS'', ''/sap/bc/adt/oo/classes'', ''CLAS/OC''),
     (''INTF'', ''/sap/bc/adt/oo/interfaces'', ''INTF/OI''),
     (''FUGR'', ''/sap/bc/adt/functions/groups'', ''FUGR/F''),
     (''DTEL'', ''/sap/bc/adt/ddic/dataelements'', ''DTEL/DE''),
     (''DOMA'', ''/sap/bc/adt/ddic/domains'', ''DOMA/DD''),
     (''TABL'', ''/sap/bc/adt/ddic/tables'', ''TABL/DT''),
     (''DDLS'', ''/sap/bc/adt/ddic/ddl/sources'', ''DDLS/STOB''),
     (''MSAG'', ''/sap/bc/adt/messageclass'', ''MSAG/N''),
     (''BDEF'', ''/sap/bc/adt/bo/behaviordefinitions'', ''BDEF/BDO''),
     (''SRVD'', ''/sap/bc/adt/ddic/srvd/sources'', ''SRVD/SRV''),
     (''SRVB'', ''/sap/bc/adt/businessservices/bindings'', ''SRVB/SVB''),
     (''HTTP'', ''/sap/bc/adt/ucon/httpservices'', ''HTTP'')]"

definition httpServicesPrefix :: string where
  "httpServicesPrefix = ''/sap/bc/adt/ucon/httpservices/''"

definition objectTypeAcceptHeaders :: "(string \<times> string) list" where
  "objectTypeAcceptHeaders = [
     (''/sap/bc/adt/programs/programs'', ''application/vnd.sap.adt.programs.programs.v2+xml''),
     (''/sap/bc/adt/programs/includes'', ''application/vnd.sap.adt.programs.includes.v2+xml''),
     (''/sap/bc/adt/oo/classes'', ''application/vnd.sap.adt.oo.classes.v4+xml''),
     (''/sap/bc/adt/oo/interfaces'', ''application/vnd.sap.adt.oo.interfaces.v5+xml''),
     (''/sap/bc/adt/functions/groups'', ''application/vnd.sap.adt.functions.groups.v3+xml''),
     (''/sap/bc/adt/ddic/dataelements'', ''application/vnd.sap.adt.dataelements.v2+xml''),
     (''/sap/bc/adt/ddic/domains'', ''application/vnd.sap.adt.domains.v2+xml''),
     (''/sap/bc/adt/ddic/tables'', ''application/vnd.sap.adt.tables.v2+xml''),
     (''/sap/bc/adt/ddic/tabletypes'', ''application/vnd.sap.adt.tabletype.v1+xml''),
     (''/sap/bc/adt/ddic/typegroups'', ''application/vnd.sap.adt.ddic.typegroups.v2+xml''),
     (''/sap/bc/adt/ddic/ddl/sources'', ''application/vnd.sap.adt.ddlSource+xml''),
     (''/sap/bc/adt/ddic/ddlx/sources'', ''application/vnd.sap.adt.ddic.ddlx.v1+xml''),
     (''/sap/bc/adt/ddic/ddla/sources'', ''application/vnd.sap.adt.ddic.ddla.v1+xml''),
     (''/sap/bc/adt/ddic/srvd/sources'', ''application/vnd.sap.adt.ddic.srvd.v1+xml''),
     (''/sap/bc/adt/packages'', ''application/vnd.sap.adt.packages.v2+xml''),
     (''/sap/bc/adt/bo/behaviordefinitions'', ''application/vnd.sap.adt.blues.v1+xml''),
     (''/sap/bc/adt/businessservices/bindings'', ''application/vnd.sap.adt.businessservices.servicebinding.v2+xml''),
     (''/sap/bc/adt/acm/dcl/sources'', ''application/vnd.sap.adt.dclSource+xml''),
     (''/sap/bc/adt/vit/wb/object_type'', vitObjectPropertiesContentType),
     (''/sap/bc/adt/fiori/uiad'', ''application/vnd.sap.adt.blues.v2+xml''),
     (''/sap/bc/adt/ucon/httpservices'', httpServiceContentType)]"

text \<open>
  The loop over a Go map for the longest prefix of \<open>uri\<close>: the first entry of a key in the list is
  the map's entry. The order of the keys does not matter (\<open>longest_prefix_of_map\<close>).
\<close>

fun longest_prefix :: "string \<Rightarrow> (string \<times> 'a) list \<Rightarrow> (string \<times> 'a) option" where
  "longest_prefix uri [] = None"
| "longest_prefix uri ((p, a) # ps) =
     (case longest_prefix uri ps of
        None \<Rightarrow> if has_prefix uri p \<and> p \<noteq> [] then Some (p, a) else None
      | Some (q, b) \<Rightarrow> if has_prefix uri p \<and> length q \<le> length p then Some (p, a) else Some (q, b))"

definition acceptHeaderFor :: "(string \<Rightarrow> string list) \<Rightarrow> string \<Rightarrow> string" where
  "acceptHeaderFor accepted uri =
     (if has_prefix uri groupsPrefix \<and> contains_str uri ''/includes/'' then
        fugrIncludeContentType @ '', application/xml''
      else if has_prefix uri groupsPrefix \<and> contains_str uri ''/fmodules/'' then
        fugrModuleContentType @ '', application/xml''
      else case longest_prefix uri objectTypeAcceptHeaders of
        None \<Rightarrow> contentTypeXML
      | Some (p, hardcoded) \<Rightarrow>
          (case accepted p of
             a # _ \<Rightarrow> a @ '', application/xml''
           | [] \<Rightarrow> hardcoded @ '', application/xml''))"

definition acceptHeaderForURI :: "string \<Rightarrow> 'w cl \<Rightarrow> string" where
  "acceptHeaderForURI uri s = acceptHeaderFor (accepted_types s) uri"

definition readWithAcceptFallback :: "'w env \<Rightarrow> string \<Rightarrow> string \<Rightarrow> ('w, response) go" where
  "readWithAcceptFallback E uri accept =
     tryE (doRead E uri [(''Accept'', accept)]) (\<lambda>resp.
       if rs_status resp \<noteq> 406 then ok resp
       else doRead E uri [(''Accept'', ''*/*'')])"

section \<open>Object documents\<close>

record object_info =
  oi_uri :: string
  oi_type :: string
  oi_name :: string
  oi_description :: string
  oi_package :: string
  oi_abap_version :: string
  oi_package_version :: string

definition nsPackages :: string where "nsPackages = ''http://www.sap.com/adt/packages''"

definition parseGenericObjectInfo :: "'w env \<Rightarrow> string \<Rightarrow> string \<Rightarrow> err + object_info" where
  "parseGenericObjectInfo E data uri =
     (case unmarshal_any E data of
        Inl e \<Rightarrow> Inl (wrapf ''GetObjectInfo parsing: '' e)
      | Inr x \<Rightarrow>
          if xml_attr x ''name'' = [] then
            Inl (Msg (''GetObjectInfo parsing: response carried no adtcore:name ''
              @ [CHR 0xE2, CHR 0x80, CHR 0x94] @ '' it is not an ADT object document''))
          else Inr \<lparr>oi_uri = uri, oi_type = xml_attr x ''type'', oi_name = xml_attr x ''name'',
            oi_description = xml_attr x ''description'', oi_package = kid_attr ''packageRef'' ''name'' x,
            oi_abap_version = xml_attr x ''abapLanguageVersion'',
            oi_package_version = (let ks = kids_named_ns nsPackages ''attributes'' x in
              if ks = [] then [] else xml_attr_ns nsPackages (last ks) ''languageVersion'')\<rparr>)"

definition vitObjectNotFound :: "string \<Rightarrow> err" where
  "vitObjectNotFound uri = Adt ((plain_adt_error 404
     (''GetObjectInfo: '' @ uri @ '' does not exist (VIT answered 200 and echoed the name ''
      @ ''without a package, which it does for a name it did not find)''
      @ (if contains_str uri ''+'' then ''; the URI contains a raw '' @ [APOS] @ ''+'' @ [APOS]
           @ '', which SAP reads as a blank '' @ [CHR 0xE2, CHR 0x80, CHR 0x94] @ '' encode it as %2B''
         else [])))\<lparr>ExcType := ''ExceptionResourceNotFound''\<rparr>)"

definition functionGroupURIOfPart :: "string \<Rightarrow> string option" where
  "functionGroupURIOfPart uri =
     (if \<not> has_prefix uri groupsPrefix then None
      else let rest = drop (length groupsPrefix) uri in
        case index_byte rest (CHR ''/'') of
          None \<Rightarrow> None
        | Some i \<Rightarrow>
            (let grp = take i rest; part = drop (Suc i) rest in
             if grp = [] then None
             else if \<not> has_prefix part ''fmodules/'' \<and> \<not> has_prefix part ''includes/'' then None
             else Some (groupsPrefix @ grp)))"

text \<open>\<open>return "", ctx.Err()\<close>: the best-effort lookups give up quietly unless the caller's context is done.\<close>

definition ctx_result :: "'w env \<Rightarrow> 'a \<Rightarrow> ('w, 'a) go" where
  "ctx_result E x = State (\<lambda>s. (case ctx_err E (world s) of Some e \<Rightarrow> Inl e | None \<Rightarrow> Inr x, s))"

definition packageFromObjectProperties :: "'w env \<Rightarrow> string \<Rightarrow> ('w, string) go" where
  "packageFromObjectProperties E uri = State_Monad.bind
     (checked E (\<lambda>e. e) (\<lambda>e. e) (readWithAcceptFallback E
        (''/sap/bc/adt/repository/informationsystem/objectproperties/values?''
          @ values_encode [(''uri'', uri), (''facet'', ''package'')])
        ''application/vnd.sap.adt.repository.objproperties.result.v1+xml''))
     (\<lambda>r. case r of
        Inl e \<Rightarrow> if is_unauthorized e then fail e else ctx_result E []
      | Inr resp \<Rightarrow>
          (case read_all resp of
             Inl _ \<Rightarrow> ctx_result E []
           | Inr data \<Rightarrow>
               (case unmarshal_any E data of
                  Inl _ \<Rightarrow> ok []
                | Inr x \<Rightarrow> ok (kid_attr ''object'' ''package'' x))))"

text \<open>
  \<open>GetObjectInfo\<close> calls itself for the function group of a part. A group is never a part
  (\<open>group_is_no_part\<close>), so \<open>objectInfo\<close> takes the lookup of the group as an argument and the
  recursion ends after one step.
\<close>

definition packageOfFunctionGroup :: "'w env \<Rightarrow> (string \<Rightarrow> ('w, object_info) go) \<Rightarrow> string \<Rightarrow> ('w, string) go" where
  "packageOfFunctionGroup E lookup g = State_Monad.bind (lookup g) (\<lambda>r. case r of
      Inl _ \<Rightarrow> ctx_result E []
    | Inr info2 \<Rightarrow> ok (oi_package info2))"

definition partPackage :: "'w env \<Rightarrow> (string \<Rightarrow> ('w, object_info) go) \<Rightarrow> string \<Rightarrow> ('w, string) go" where
  "partPackage E lookup uri = (case functionGroupURIOfPart uri of
      None \<Rightarrow> ok [] | Some g \<Rightarrow> packageOfFunctionGroup E lookup g)"

definition servicePackage :: "'w env \<Rightarrow> string \<Rightarrow> object_info \<Rightarrow> string \<Rightarrow> ('w, object_info) go" where
  "servicePackage E uri info pkg =
     (if pkg \<noteq> [] then ok (info\<lparr>oi_package := pkg\<rparr>)
      else if has_prefix uri httpServicesPrefix then
        tryE (packageFromObjectProperties E uri) (\<lambda>p. ok (info\<lparr>oi_package := p\<rparr>))
      else ok info)"

definition objectInfo :: "'w env \<Rightarrow> (string \<Rightarrow> ('w, object_info) go) \<Rightarrow> string \<Rightarrow> ('w, object_info) go" where
  "objectInfo E lookup uri = State_Monad.bind (gets (acceptHeaderForURI uri)) (\<lambda>accept.
     tryE (checked E (wrapf ''GetObjectInfo: '') (\<lambda>e. e) (readWithAcceptFallback E uri accept)) (\<lambda>resp.
     tryE (of_sum (parseGenericObjectInfo E (rs_body resp) uri)) (\<lambda>info.
       if oi_package info \<noteq> [] then ok info
       else if has_prefix uri vitObjectTypePrefix then fail (vitObjectNotFound uri)
       else tryE (partPackage E lookup uri) (servicePackage E uri info))))"

definition GetObjectInfo :: "'w env \<Rightarrow> string \<Rightarrow> ('w, object_info) go" where
  "GetObjectInfo E uri =
     objectInfo E (objectInfo E (\<lambda>_. fail (Msg ''unreachable''))) uri"

definition BrowsePackage :: "'w env \<Rightarrow> string \<Rightarrow> ('w, object_info list) go" where
  "BrowsePackage E packageName =
     tryE (checked E (wrapf ''BrowsePackage: '') (\<lambda>e. e) (doMutate E ''POST''
        (''/sap/bc/adt/repository/nodestructure?'' @ values_encode
           [(''parent_type'', ''DEVC/K''), (''parent_name'', packageName), (''withShortDescriptions'', ''true'')])
        None [(''Accept'', ''application/vnd.sap.as+xml''), (''Content-Type'', contentTypeXML)])) (\<lambda>resp.
     tryw (wrapf ''BrowsePackage parsing: '') (of_sum (unmarshal_asx E (rs_body resp))) (\<lambda>x.
       ok (map (\<lambda>n. \<lparr>oi_uri = kid_text ''OBJECT_URI'' n, oi_type = kid_text ''OBJECT_TYPE'' n,
             oi_name = kid_text ''OBJECT_NAME'' n, oi_description = kid_text ''DESCRIPTION'' n,
             oi_package = to_upper packageName, oi_abap_version = [], oi_package_version = []\<rparr>)
           (filter (\<lambda>n. kid_text ''OBJECT_NAME'' n \<noteq> [])
             (kids_path [''TREE_CONTENT'', ''SEU_ADT_REPOSITORY_OBJ_NODE''] x)))))"

section \<open>The choice of the longest prefix\<close>

lemma longest_prefix_None:
  "longest_prefix uri ps = None \<longleftrightarrow> list_all (\<lambda>(p, _). \<not> (has_prefix uri p \<and> p \<noteq> [])) ps"
  by (induction ps rule: longest_prefix.induct [of "\<lambda>_. _"]) (auto split: option.splits)

lemma longest_prefix_Some:
  "longest_prefix uri ps = Some (q, b) \<Longrightarrow>
     has_prefix uri q \<and> map_of ps q = Some b \<and>
     (\<forall>(p, _) \<in> set ps. has_prefix uri p \<longrightarrow> length p \<le> length q)"
proof (induction ps arbitrary: q b)
  case (Cons pa ps)
  obtain p a where pa: "pa = (p, a)" by fastforce
  show ?case
  proof (cases "longest_prefix uri ps")
    case None
    with Cons.prems pa have "has_prefix uri p" "q = p" "b = a"
      by (auto split: if_splits)
    moreover from None have "\<forall>(p', _) \<in> set ps. has_prefix uri p' \<longrightarrow> p' = []"
      by (auto simp: longest_prefix_None list_all_iff)
    ultimately show ?thesis using pa by fastforce
  next
    case (Some rc)
    obtain r c where rc: "rc = (r, c)" by fastforce
    from Cons.IH [of r c] Some rc have ih: "has_prefix uri r" "map_of ps r = Some c"
      "\<forall>(p', _) \<in> set ps. has_prefix uri p' \<longrightarrow> length p' \<le> length r" by auto
    show ?thesis
    proof (cases "has_prefix uri p \<and> length r \<le> length p")
      case True
      with Cons.prems pa Some rc ih(3) show ?thesis by fastforce
    next
      case False
      with Cons.prems pa Some rc have "q = r" "b = c" by auto
      moreover have "p \<noteq> r" using False ih(1) by auto
      ultimately show ?thesis using ih pa False by auto
    qed
  qed
qed simp

text \<open>Prefixes of one string with the same length are equal, so the order of the map is irrelevant.\<close>

lemma longest_prefix_of_map:
  assumes "map_of ps = map_of ps'"
  shows "longest_prefix uri ps = longest_prefix uri ps'"
proof (cases "longest_prefix uri ps")
  case None
  have "fst ` set ps = fst ` set ps'" using assms by (metis dom_map_of_conv_image_fst)
  with None have "longest_prefix uri ps' = None"
    by (force simp: longest_prefix_None list_all_iff)
  with None show ?thesis by simp
next
  case (Some qb)
  obtain q b where qb: "qb = (q, b)" by fastforce
  from longest_prefix_Some [of uri ps q b] Some qb have q: "has_prefix uri q" "map_of ps q = Some b"
    "\<forall>(p, _) \<in> set ps. has_prefix uri p \<longrightarrow> length p \<le> length q" by auto
  have dom: "fst ` set ps = fst ` set ps'" using assms by (metis dom_map_of_conv_image_fst)
  have "longest_prefix uri ps' \<noteq> None"
  proof
    assume "longest_prefix uri ps' = None"
    with dom have "longest_prefix uri ps = None" by (force simp: longest_prefix_None list_all_iff)
    with Some show False by simp
  qed
  then obtain r c where rc: "longest_prefix uri ps' = Some (r, c)" by (metis surj_pair not_None_eq)
  from longest_prefix_Some [OF rc] have r: "has_prefix uri r" "map_of ps' r = Some c"
    "\<forall>(p, _) \<in> set ps'. has_prefix uri p \<longrightarrow> length p \<le> length r" by auto
  from q(2) r(2) have "q \<in> fst ` set ps'" "r \<in> fst ` set ps" using dom
    by (metis dom_map_of_conv_image_fst domI)+
  with q r have "length q = length r" by fastforce
  with q(1) r(1) have "q = r" by (metis has_prefix_def)
  with q(2) r(2) assms rc Some qb show ?thesis by simp
qed

section \<open>After a rejected credential\<close>

lemma readWithAcceptFallback_stops: "stops401 resp401 (readWithAcceptFallback E uri accept)"
  unfolding readWithAcceptFallback_def
  by (rule stops401_tryw_resp [OF doRead_stops(1)]) (auto intro!: stops doRead_stops)

lemma silent_ctx_result: "(\<And>r. P r) \<Longrightarrow> silent P (ctx_result E x)"
  by (auto simp: silent_def ctx_result_def)

lemma ctx_result_stops [stops]: "stops401 P (ctx_result E x)"
  by (rule silent_stops [OF silent_ctx_result]) simp

lemma packageFromObjectProperties_stops [stops]: "stops401 unauth (packageFromObjectProperties E uri)"
  unfolding packageFromObjectProperties_def
  by (rule stops401_bind [of unauth])
    (auto split: sum.splits intro!: stops readWithAcceptFallback_stops)

lemma BrowsePackage_stops [stops]: "stops401 unauth (BrowsePackage E packageName)"
  unfolding BrowsePackage_def
  by (auto intro!: stops doMutate_stops)

lemma group_part_shape:
  assumes "functionGroupURIOfPart uri = Some g"
  shows "\<exists>grp. g = groupsPrefix @ grp \<and> grp \<noteq> [] \<and> CHR ''/'' \<notin> set grp \<and> has_prefix uri groupsPrefix"
proof -
  let ?rest = "drop (length groupsPrefix) uri"
  from assms obtain i where i: "index_byte ?rest (CHR ''/'') = Some i" "g = groupsPrefix @ take i ?rest"
    "take i ?rest \<noteq> []" "has_prefix uri groupsPrefix"
    by (auto simp: functionGroupURIOfPart_def Let_def split: if_splits option.splits)
  from index_byte_Some [OF i(1)] have "CHR ''/'' \<notin> set (take i ?rest)" by simp
  with i show ?thesis by blast
qed

lemma group_is_no_part:
  assumes "functionGroupURIOfPart uri = Some g"
  shows "functionGroupURIOfPart g = None"
proof -
  from group_part_shape [OF assms] obtain grp where
    g: "g = groupsPrefix @ grp" "CHR ''/'' \<notin> set grp" by blast
  then have "index_byte grp (CHR ''/'') = None" by (simp add: index_byte_None)
  with g show ?thesis by (simp add: functionGroupURIOfPart_def)
qed

lemma objectInfo_lookup_cong:
  "(\<And>g. functionGroupURIOfPart uri = Some g \<Longrightarrow> l g = l' g) \<Longrightarrow> objectInfo E l uri = objectInfo E l' uri"
proof -
  assume l: "\<And>g. functionGroupURIOfPart uri = Some g \<Longrightarrow> l g = l' g"
  then have pp: "partPackage E l uri = partPackage E l' uri"
    by (simp add: partPackage_def packageOfFunctionGroup_def split: option.splits)
  show ?thesis unfolding objectInfo_def by (subst pp) (rule refl)
qed

lemma part_is_no_http_service:
  assumes "functionGroupURIOfPart uri = Some g"
  shows "\<not> has_prefix uri httpServicesPrefix"
proof
  assume "has_prefix uri httpServicesPrefix"
  moreover have "has_prefix uri groupsPrefix" using group_part_shape [OF assms] by blast
  ultimately have "take 13 groupsPrefix = take 13 httpServicesPrefix"
    by (auto simp: has_prefix_iff groupsPrefix_def httpServicesPrefix_def)
  then show False by (simp add: groupsPrefix_def httpServicesPrefix_def)
qed

lemma servicePackage_stops: "stops401 (\<lambda>_. True) (servicePackage E uri info pkg)"
  unfolding servicePackage_def
  by (auto intro!: stops stops401_tryw_gen [OF packageFromObjectProperties_stops])

lemma partPackage_then_service:
  assumes "\<And>g. stops401 (\<lambda>_. True) (lookup g)"
  shows "stops401 (\<lambda>_. True) (tryE (partPackage E lookup uri) (servicePackage E uri info))"
proof (cases "functionGroupURIOfPart uri")
  case None
  then have "tryE (partPackage E lookup uri) (servicePackage E uri info) = servicePackage E uri info []"
    by (simp add: partPackage_def tryw_def ok_def)
  then show ?thesis using servicePackage_stops by simp
next
  case (Some g)
  note http = part_is_no_http_service [OF Some]
  have "stops401 (\<lambda>_. True) (partPackage E lookup uri)"
    unfolding partPackage_def packageOfFunctionGroup_def Some option.case
    by (rule stops401_bind [OF assms]) (auto split: sum.splits intro!: stops silent_ctx_result)
  then show ?thesis
    unfolding tryw_def
    by (rule stops401_bind) (auto split: sum.splits simp: servicePackage_def http intro: stops)
qed

lemma objectInfo_halts:
  assumes "\<And>g. stops401 (\<lambda>_. True) (lookup g)"
  shows "stops401 (\<lambda>_. True) (objectInfo E lookup uri)"
proof -
  have parsed: "stops401 (\<lambda>_. True) (tryE (of_sum (parseGenericObjectInfo E (rs_body resp) uri)) (\<lambda>info.
       if oi_package info \<noteq> [] then ok info
       else if has_prefix uri vitObjectTypePrefix then fail (vitObjectNotFound uri)
       else tryE (partPackage E lookup uri) (servicePackage E uri info)))" for resp
    by (rule stops401_tryw_gen, rule stops401_pure) (auto intro!: stops partPackage_then_service assms)
  show ?thesis
    unfolding objectInfo_def
    apply (rule stops)
    apply (rule stops401_tryw_gen [OF _ parsed])
     apply (rule checked_stops [OF readWithAcceptFallback_stops])
      apply auto
    done
qed

lemma GetObjectInfo_halts: "stops401 (\<lambda>_. True) (GetObjectInfo E uri)"
  unfolding GetObjectInfo_def
  by (rule objectInfo_halts, rule objectInfo_halts) (rule stops401_pure)

text \<open>
  \<open>GetObjectInfo\<close> reads one function group at most beside the object and always ends: its
  recursive call never recurses again.
\<close>

theorem GetObjectInfo_unfolds:
  "GetObjectInfo E uri = objectInfo E (GetObjectInfo E) uri"
proof -
  have "objectInfo E (\<lambda>_. fail (Msg ''unreachable'')) g = GetObjectInfo E g"
    if "functionGroupURIOfPart uri = Some g" for g
    unfolding GetObjectInfo_def
    by (rule objectInfo_lookup_cong) (simp add: group_is_no_part [OF that])
  then show ?thesis
    unfolding GetObjectInfo_def [of E uri] by (intro objectInfo_lookup_cong) simp
qed

text \<open>
  The Accept header of an object read does not depend on the order Go walks its maps in: any
  list of the table's entries and of the discovered types gives the same header, and the entry
  used is the longest one the URI starts with.
\<close>

theorem acceptHeader_order_irrelevant:
  assumes "map_of table = map_of objectTypeAcceptHeaders"
  shows "longest_prefix uri table = longest_prefix uri objectTypeAcceptHeaders
    \<and> list_all (\<lambda>(p, _). has_prefix uri p \<longrightarrow>
        (case longest_prefix uri table of None \<Rightarrow> p = [] | Some (q, _) \<Rightarrow> length p \<le> length q)) table"
proof (cases "longest_prefix uri table")
  case None
  then have "list_all (\<lambda>(p, _). \<not> (has_prefix uri p \<and> p \<noteq> [])) table"
    by (simp only: longest_prefix_None)
  then show ?thesis
    using longest_prefix_of_map [OF assms, of uri, symmetric]
    by (auto simp: None list_all_iff)
next
  case (Some qb)
  obtain q b where qb: "qb = (q, b)" by fastforce
  with Some longest_prefix_Some [of uri table q b] have
    "\<forall>(p, _) \<in> set table. has_prefix uri p \<longrightarrow> length p \<le> length q" by simp
  with longest_prefix_of_map [OF assms, of uri, symmetric] Some qb show ?thesis
    by (simp add: list_all_iff case_prod_beta')
qed

theorem acceptHeader_order_irrelevant_witness:
  "longest_prefix ''/sap/bc/adt/oo/classes/zcl'' (rev objectTypeAcceptHeaders)
     = longest_prefix ''/sap/bc/adt/oo/classes/zcl'' objectTypeAcceptHeaders"
proof -
  have "distinct (map fst objectTypeAcceptHeaders)" by (simp add: objectTypeAcceptHeaders_def)
  then have "map_of (rev objectTypeAcceptHeaders) = map_of objectTypeAcceptHeaders"
    by (rule map_of_rev_distinct)
  from acceptHeader_order_irrelevant [OF this, of "''/sap/bc/adt/oo/classes/zcl''"]
  show ?thesis by simp
qed

end
