(* ===== verification/Source.thy ===== *)
theory Source
  imports Repo
begin

text \<open>
  Locks and sources (\<open>adt/lock.go\<close>, \<open>adt/source.go\<close>): locking and unlocking, ETags, reading and
  writing the main source and the class includes, with the two deliveries of a lock handle and the
  retry between them.
\<close>

section \<open>URIs\<close>

definition sourceMainSuffix :: string where "sourceMainSuffix = ''/source/main''"

definition normalizeObjectURI :: "string \<Rightarrow> string" where
  "normalizeObjectURI uri = trim_suffix (takeWhile (\<lambda>c. c \<noteq> CHR ''?'' \<and> c \<noteq> CHR ''#'') uri) ''/''"

definition bareObjectURI :: "string \<Rightarrow> string" where
  "bareObjectURI uri0 =
     (let uri = normalizeObjectURI uri0 in
      if length sourceMainSuffix \<le> length uri
         \<and> equal_fold (drop (length uri - length sourceMainSuffix) uri) sourceMainSuffix
      then take (length uri - length sourceMainSuffix) uri else uri)"

definition isDDLSourceURI :: "string \<Rightarrow> bool" where
  "isDDLSourceURI uri \<longleftrightarrow> has_prefix uri ''/sap/bc/adt/ddic/ddl/sources/''"

definition isClassURI :: "string \<Rightarrow> bool" where
  "isClassURI uri \<longleftrightarrow> contains_str uri ''/oo/classes/''"

section \<open>Locks\<close>

definition stateful :: "string \<times> string" where
  "stateful = (''X-sap-adt-sessiontype'', ''stateful'')"

definition LockObject :: "'w env \<Rightarrow> string \<Rightarrow> ('w, string) go" where
  "LockObject E uri =
     tryE (checked E (wrapf ''LockObject: '') (\<lambda>e. e) (doMutate E ''POST'' (uri @ ''?_action=LOCK&accessMode=MODIFY'')
        None [(''Accept'', ''application/vnd.sap.as+xml;charset=UTF-8;dataname=com.sap.adt.lock.result''), stateful]))
       (\<lambda>resp.
     tryw (wrapf ''LockObject reading body: '') (of_sum (read_all resp)) (\<lambda>data.
       (let from_xml = (case unmarshal_asx E data of Inl _ \<Rightarrow> [] | Inr x \<Rightarrow> kid_text ''LOCK_HANDLE'' x) in
        if from_xml \<noteq> [] then ok from_xml
        else (let handle = trim_space data in
          if handle = [] then fail (Msg ''LockObject: empty lock handle in response'') else ok handle))))"

definition unlock_path :: "string \<Rightarrow> string \<Rightarrow> string" where
  "unlock_path uri lockHandle = uri @ ''?_action=UNLOCK&lockHandle='' @ query_escape lockHandle"

definition UnlockObject :: "'w env \<Rightarrow> string \<Rightarrow> string \<Rightarrow> ('w, unit) go" where
  "UnlockObject E uri lockHandle =
     tryE (checked E (wrapf ''UnlockObject: '') (\<lambda>e. e)
       (doMutate E ''POST'' (unlock_path uri lockHandle) None [stateful])) (\<lambda>_. ok ())"

section \<open>Reading\<close>

definition FetchETag :: "'w env \<Rightarrow> string \<Rightarrow> ('w, string) go" where
  "FetchETag E uri = State_Monad.bind (gets (acceptHeaderForURI uri)) (\<lambda>accept.
     tryE (checked E (wrapf ''FetchETag: '') (wrapf ''FetchETag: '') (readWithAcceptFallback E uri accept)) (\<lambda>resp.
       (let etag = header (rs_headers resp) ''ETag'' in
        if etag = [] then fail (Msg (''FetchETag: no ETag returned for '' @ uri)) else ok etag)))"

definition sourceContentType :: "string \<Rightarrow> 'w cl \<Rightarrow> string" where
  "sourceContentType endpoint s =
     negotiate (case longest_prefix endpoint (discovery s) of None \<Rightarrow> [] | Some (_, ts) \<Rightarrow> ts)
       [''text/plain; charset=utf-8'', ''text/plain''] ''text/plain''"

record source_result =
  sr_source :: string
  sr_etag :: string

definition readSource :: "'w env \<Rightarrow> string \<Rightarrow> string \<Rightarrow> string \<Rightarrow> ('w, source_result) go" where
  "readSource E opname uri path =
     tryw (wrapf (opname @ '': '')) (ensureCSRF E) (\<lambda>_.
     State_Monad.bind (gets (sourceContentType uri)) (\<lambda>accept.
     tryE (checked E (wrapf (opname @ '': '')) (\<lambda>e. e) (doRead E path [(''Accept'', accept)])) (\<lambda>resp.
     tryw (wrapf (opname @ '' reading body: '')) (of_sum (read_all resp)) (\<lambda>body.
       ok \<lparr>sr_source = body, sr_etag = header (rs_headers resp) ''ETag''\<rparr>))))"

definition GetSource :: "'w env \<Rightarrow> string \<Rightarrow> ('w, source_result) go" where
  "GetSource E uri0 =
     (let uri = bareObjectURI uri0 in readSource E ''GetSource'' uri (uri @ sourceMainSuffix))"

definition classIncludePath :: "string \<Rightarrow> string \<Rightarrow> err + string" where
  "classIncludePath uri incl =
     (if incl \<notin> {''testclasses'', ''definitions'', ''implementations'', ''macros''} then
        Inl (Msg (''unknown include type '' @ quoted incl
          @ '' (valid: testclasses, definitions, implementations, macros)''))
      else Inr (uri @ ''/includes/'' @ incl))"

definition GetIncludeSource :: "'w env \<Rightarrow> string \<Rightarrow> string \<Rightarrow> ('w, source_result) go" where
  "GetIncludeSource E uri0 incl =
     (let uri = bareObjectURI uri0 in
      tryE (of_sum (classIncludePath uri incl)) (\<lambda>path. readSource E ''GetIncludeSource'' uri path))"

text \<open>The end line of the class definition in the object structure.\<close>

definition parseDefinitionEndLine :: "'w env \<Rightarrow> string \<Rightarrow> err + int" where
  "parseDefinitionEndLine E data =
     (case unmarshal_root E ''objectStructureElement'' data of
        Inl e \<Rightarrow> Inl (wrapf ''parsing objectstructure: '' e)
      | Inr x \<Rightarrow>
          (case find (\<lambda>l. xml_attr l ''rel'' = ''http://www.sap.com/adt/relations/source/definitionBlock'')
                  (kids_named ''link'' x) of
             None \<Rightarrow> Inl (Msg ''definitionBlock link not found in objectstructure'')
           | Some link \<Rightarrow>
               (let href = xml_attr link ''href'' in
                case index_of href ''end='' of
                  None \<Rightarrow> Inl (Msg (''no end= in definitionBlock href: '' @ href))
                | Some i \<Rightarrow>
                    (let endPart = drop (i + 4) href in
                     case index_byte endPart (CHR '','') of
                       None \<Rightarrow> Inl (Msg (''no comma in end position: '' @ endPart))
                     | Some comma \<Rightarrow>
                         (case atoi (take comma endPart) of
                            None \<Rightarrow> Inl (Msg (''parsing end line '' @ quoted (take comma endPart) @ '': invalid''))
                          | Some n \<Rightarrow> Inr n)))))"

text \<open>
  The truncation of \<open>GetClassDefinition\<close>: \<open>lines[:endLine]\<close> with the end capped at the number of
  lines; \<open>None\<close> is Go's panic for a negative bound.
\<close>

definition cut_definition :: "int \<Rightarrow> string \<Rightarrow> string option" where
  "cut_definition endLine source =
     (let lines = split_on NL source; n = min endLine (int (length lines)) in
      if n < 0 then None else Some (join [NL] (take (nat n) lines)))"

definition readStructure :: "'w env \<Rightarrow> string \<Rightarrow> ('w, string) go" where
  "readStructure E uri =
     tryE (checked E (wrapf ''GetClassDefinition objectstructure: '') (\<lambda>e. e)
       (doRead E (uri @ ''/objectstructure'') [(''Accept'', ''application/xml'')])) (\<lambda>resp. of_sum (read_all resp))"

text \<open>
  \<open>GetClassDefinition\<close> reads the source and the structure in two goroutines and waits for both. They
  are run one after the other here, \<open>source_first\<close> saying in which order; the result \<open>None\<close> is the
  panic of \<open>cut_definition\<close>.
\<close>

definition GetClassDefinition :: "'w env \<Rightarrow> bool \<Rightarrow> string \<Rightarrow> ('w, source_result option) go" where
  "GetClassDefinition E source_first uri0 =
     (let uri = bareObjectURI uri0;
          finish = (\<lambda>sr str. case sr of
              Inl e \<Rightarrow> fail e
            | Inr src \<Rightarrow>
                (case str of
                   Inl e \<Rightarrow> fail e
                 | Inr data \<Rightarrow>
                     tryE (of_sum (parseDefinitionEndLine E data)) (\<lambda>n.
                       ok (map_option (\<lambda>d. src\<lparr>sr_source := d\<rparr>) (cut_definition n (sr_source src))))))
      in if source_first then
           State_Monad.bind (GetSource E uri) (\<lambda>sr. State_Monad.bind (readStructure E uri) (\<lambda>str. finish sr str))
         else
           State_Monad.bind (readStructure E uri) (\<lambda>str. State_Monad.bind (GetSource E uri) (\<lambda>sr. finish sr str)))"

section \<open>Writing\<close>

definition writeBody :: "'w env \<Rightarrow> string \<Rightarrow> string \<Rightarrow> string \<Rightarrow> (string \<times> string) list \<Rightarrow> ('w, string) go" where
  "writeBody E opname path source headers =
     tryE (checked E (wrapf (opname @ '': '')) (\<lambda>e. e) (doMutate E ''PUT'' path (Some source) headers)) (\<lambda>resp.
       ok (header (rs_headers resp) ''ETag''))"

definition doSetSource :: "'w env \<Rightarrow> string \<Rightarrow> string \<Rightarrow> (string \<times> string) list \<Rightarrow> ('w, string) go" where
  "doSetSource E path source headers = writeBody E ''SetSource'' path source headers"

definition with_params :: "string \<Rightarrow> (string \<times> string) list \<Rightarrow> string" where
  "with_params path ps = (if ps = [] then path else path @ ''?'' @ values_encode ps)"

definition opt_param :: "string \<Rightarrow> string \<Rightarrow> (string \<times> string) list" where
  "opt_param k v = (if v = [] then [] else [(k, v)])"

definition source_headers :: "string \<Rightarrow> (string \<times> string) list" where
  "source_headers ct = [(''Content-Type'', ct), (''Accept'', ct), stateful]"

definition setSourceWithLockHeader ::
    "'w env \<Rightarrow> string \<Rightarrow> string \<Rightarrow> string \<Rightarrow> string \<Rightarrow> string \<Rightarrow> ('w, string) go" where
  "setSourceWithLockHeader E uri source lockHandle transport etag =
     State_Monad.bind (gets (sourceContentType uri)) (\<lambda>ct.
       doSetSource E (uri @ sourceMainSuffix
           @ (if transport \<noteq> [] then ''?corrNr='' @ query_escape transport else []))
         source (source_headers ct @ opt_param ''If-Match'' etag @ opt_param ''X-SAP-Lock-Handle'' lockHandle))"

definition setSourceWithLockParam ::
    "'w env \<Rightarrow> string \<Rightarrow> string \<Rightarrow> string \<Rightarrow> string \<Rightarrow> string \<Rightarrow> ('w, string) go" where
  "setSourceWithLockParam E uri source lockHandle transport etag =
     State_Monad.bind (gets (sourceContentType uri)) (\<lambda>ct.
       doSetSource E (with_params (uri @ sourceMainSuffix)
           (opt_param ''lockHandle'' lockHandle @ opt_param ''corrNr'' transport))
         source (source_headers ct @ opt_param ''If-Match'' etag))"

text \<open>One attempt, and another delivery when the error of the first one asks for it.\<close>

definition retry_on :: "(err \<Rightarrow> bool) \<Rightarrow> ('w, 'a) go \<Rightarrow> ('w, 'a) go \<Rightarrow> ('w, 'a) go" where
  "retry_on p first second = State_Monad.bind first (\<lambda>r. case r of
      Inl e \<Rightarrow> if p e then second else fail e
    | Inr x \<Rightarrow> ok x)"

definition setClassSourceIntoRequest ::
    "'w env \<Rightarrow> string \<Rightarrow> string \<Rightarrow> string \<Rightarrow> string \<Rightarrow> string \<Rightarrow> ('w, string) go" where
  "setClassSourceIntoRequest E uri source lockHandle transport etag =
     retry_on isInvalidLockHandle
       (setSourceWithLockParam E uri source lockHandle transport etag)
       (setSourceWithLockHeader E uri source lockHandle transport etag)"

definition trySetSource ::
    "'w env \<Rightarrow> string \<Rightarrow> string \<Rightarrow> string \<Rightarrow> string \<Rightarrow> string \<Rightarrow> ('w, string) go" where
  "trySetSource E uri source lockHandle transport etag =
     (if isDDLSourceURI uri then
        setSourceWithLockParam E uri source lockHandle transport (if lockHandle \<noteq> [] then [] else etag)
      else if lockHandle \<noteq> [] \<and> transport \<noteq> [] \<and> isClassURI uri then
        setClassSourceIntoRequest E uri source lockHandle transport etag
      else retry_on (\<lambda>e. lockHandle \<noteq> []
             \<and> (isInvalidLockHandle e \<or> isCurrentlyEditing e \<or> isLockHandleParameterNotFound e))
         (setSourceWithLockHeader E uri source lockHandle transport etag)
         (setSourceWithLockParam E uri source lockHandle transport etag))"

definition SetSource ::
    "'w env \<Rightarrow> string \<Rightarrow> string \<Rightarrow> string \<Rightarrow> string \<Rightarrow> string \<Rightarrow> ('w, string) go" where
  "SetSource E uri0 source lockHandle transport etag =
     (let uri = bareObjectURI uri0 in
      tryw (wrapf ''SetSource: '') (ensureCSRF E) (\<lambda>_. trySetSource E uri source lockHandle transport etag))"

definition SetIncludeSource ::
    "'w env \<Rightarrow> string \<Rightarrow> string \<Rightarrow> string \<Rightarrow> string \<Rightarrow> string \<Rightarrow> string \<Rightarrow> ('w, string) go" where
  "SetIncludeSource E uri0 incl source lockHandle transport etag =
     (let uri = bareObjectURI uri0 in
      tryE (of_sum (classIncludePath uri incl)) (\<lambda>path.
      tryw (wrapf ''SetIncludeSource: '') (ensureCSRF E) (\<lambda>_.
      State_Monad.bind (gets (sourceContentType uri)) (\<lambda>ct.
        writeBody E ''SetIncludeSource''
          (with_params path (opt_param ''lockHandle'' lockHandle @ opt_param ''corrNr'' transport))
          source (source_headers ct @ (if lockHandle = [] then opt_param ''If-Match'' etag else []))))))"

definition test_include_body :: string where
  "test_include_body = ''<?xml version='' @ [QUOT] @ ''1.0'' @ [QUOT] @ '' encoding='' @ [QUOT] @ ''UTF-8'' @ [QUOT]
     @ ''?>'' @ [NL] @ ''<class:abapClassInclude xmlns:class='' @ [QUOT] @ ''http://www.sap.com/adt/oo/classes'' @ [QUOT]
     @ [NL] @ ''  xmlns:adtcore='' @ [QUOT] @ nsADTCore @ [QUOT] @ [NL]
     @ ''  adtcore:name='' @ [QUOT] @ ''dummy'' @ [QUOT] @ '' class:includeType='' @ [QUOT] @ ''testclasses'' @ [QUOT] @ ''/>''"

definition CreateTestInclude :: "'w env \<Rightarrow> string \<Rightarrow> string \<Rightarrow> string \<Rightarrow> ('w, unit) go" where
  "CreateTestInclude E uri0 lockHandle transport =
     (let uri = bareObjectURI uri0 in
      tryE (checked E (wrapf ''CreateTestInclude: '') (\<lambda>e. e) (doMutate E ''POST''
          (uri @ ''/includes?'' @ values_encode ((''lockHandle'', lockHandle) # opt_param ''corrNr'' transport))
          (Some test_include_body) [(''Content-Type'', ''application/*''), stateful])) (\<lambda>_. ok ()))"

section \<open>After a rejected credential\<close>

lemma LockObject_stops [stops]: "stops401 unauth (LockObject E uri)"
  unfolding LockObject_def Let_def by (auto split: sum.splits intro!: stops doMutate_stops)

lemma UnlockObject_stops [stops]: "stops401 unauth (UnlockObject E uri lockHandle)"
  unfolding UnlockObject_def by (auto intro!: stops doMutate_stops)

lemma FetchETag_stops [stops]: "stops401 unauth (FetchETag E uri)"
  unfolding FetchETag_def Let_def by (auto intro!: stops readWithAcceptFallback_stops)

lemma readSource_stops [stops]: "stops401 unauth (readSource E opname uri path)"
  unfolding readSource_def by (auto intro!: stops doRead_stops ensureCSRF_stops)

lemma GetSource_stops [stops]: "stops401 unauth (GetSource E uri)"
  unfolding GetSource_def Let_def by (rule readSource_stops)

lemma GetIncludeSource_stops [stops]: "stops401 unauth (GetIncludeSource E uri incl)"
  unfolding GetIncludeSource_def Let_def by (auto intro!: stops)

lemma writeBody_stops [stops]: "stops401 unauth (writeBody E opname path source headers)"
  unfolding writeBody_def by (auto intro!: stops doMutate_stops)

text \<open>
  The retries of a write look only at the exception type of the error. They stay silent after a 401
  as long as SAP names none of the lock exceptions in the body of a 401 (\<open>no_lock_401\<close>).
\<close>

definition no_lock_401 :: "'w env \<Rightarrow> bool" where
  "no_lock_401 E \<longleftrightarrow> (\<forall>data. ExcType (parseADTError E 401 data) \<notin>
     {''ExceptionResourceInvalidLockHandle'', ''ExceptionResourceNoAccess'', ''ExceptionParameterNotFound''})"

definition lock_retry :: "err \<Rightarrow> bool" where
  "lock_retry e \<longleftrightarrow> isInvalidLockHandle e \<or> isCurrentlyEditing e \<or> isLockHandleParameterNotFound e"

lemma no_retry_after_401:
  assumes "no_lock_401 E" and "genuine E e" and "is_unauthorized e"
  shows "\<not> lock_retry e"
proof -
  from assms(2,3) obtain status data where
    e: "as_adt e = Some (parseADTError E status data)" "StatusCode (parseADTError E status data) = 401"
    by (auto simp: genuine_def is_unauthorized_def)
  then have "status = 401" by simp
  with e(1) assms(1) show ?thesis
    by (auto simp: lock_retry_def isInvalidLockHandle_def IsInvalidLockHandle_def isCurrentlyEditing_def
        isLockHandleParameterNotFound_def no_lock_401_def split: if_splits)
qed

lemma writeBody_good: "honest E \<Longrightarrow> yields (errs (genuine E)) (writeBody E opname path source headers)"
  unfolding writeBody_def
  by (rule yields_after_checked [OF checked_good [OF doMutate_good(1)]]) (auto intro!: yields_intro)

definition unauth_genuine :: "'w env \<Rightarrow> err + 'a \<Rightarrow> bool" where
  "unauth_genuine E r \<longleftrightarrow> unauth r \<and> errs (genuine E) r"

lemma withLockHeader_stops:
  "honest E \<Longrightarrow> stops401 (unauth_genuine E) (setSourceWithLockHeader E uri source lockHandle transport etag)"
  unfolding setSourceWithLockHeader_def doSetSource_def unauth_genuine_def
  by (auto intro!: stops401_yields stops writeBody_stops yields_intro writeBody_good)

lemma withLockParam_stops:
  "honest E \<Longrightarrow> stops401 (unauth_genuine E) (setSourceWithLockParam E uri source lockHandle transport etag)"
  unfolding setSourceWithLockParam_def doSetSource_def unauth_genuine_def
  by (auto intro!: stops401_yields stops writeBody_stops yields_intro writeBody_good)

lemma retry_on_stops:
  assumes "honest E" and "no_lock_401 E" and "stops401 (unauth_genuine E) first" and "stops401 (unauth_genuine E) second"
    and "\<And>e. p e \<Longrightarrow> lock_retry e"
  shows "stops401 unauth (retry_on p first second)"
  unfolding retry_on_def
proof (rule stops401_bind [OF assms(3)])
  have second: "stops401 unauth second"
    by (rule stops401_weaken [OF assms(4)]) (simp add: unauth_genuine_def)
  show "stops401 unauth (case r of Inl e \<Rightarrow> if p e then second else fail e | Inr x \<Rightarrow> ok x)" for r
    using second by (auto split: sum.splits intro: stops)
  show "silent unauth (case r of Inl e \<Rightarrow> if p e then second else fail e | Inr x \<Rightarrow> ok x)"
    if "unauth_genuine E r" for r
  proof (cases r)
    case (Inl e)
    with that have "\<not> lock_retry e" "is_unauthorized e"
      using no_retry_after_401 [OF assms(2)] by (auto simp: unauth_genuine_def)
    with assms(5) Inl show ?thesis by auto
  qed (use that in \<open>simp add: unauth_genuine_def\<close>)
qed

lemma trySetSource_stops:
  assumes "honest E" and "no_lock_401 E"
  shows "stops401 unauth (trySetSource E uri source lockHandle transport etag)"
proof -
  have param: "stops401 unauth (setSourceWithLockParam E uri source lockHandle transport etag)"
    for lockHandle transport etag
    by (rule stops401_weaken [OF withLockParam_stops [OF assms(1)]]) (simp add: unauth_genuine_def)
  show ?thesis
    unfolding trySetSource_def setClassSourceIntoRequest_def
    by (auto intro!: stops param retry_on_stops [OF assms] withLockHeader_stops withLockParam_stops assms
        simp: lock_retry_def)
qed

lemma SetSource_stops:
  "honest E \<Longrightarrow> no_lock_401 E \<Longrightarrow> stops401 unauth (SetSource E uri source lockHandle transport etag)"
  unfolding SetSource_def Let_def
  by (auto intro!: stops ensureCSRF_stops trySetSource_stops)

lemma SetIncludeSource_stops [stops]:
  "stops401 unauth (SetIncludeSource E uri incl source lockHandle transport etag)"
  unfolding SetIncludeSource_def Let_def
  by (auto intro!: stops ensureCSRF_stops)

lemma CreateTestInclude_stops [stops]: "stops401 unauth (CreateTestInclude E uri lockHandle transport)"
  unfolding CreateTestInclude_def Let_def
  by (auto intro!: stops doMutate_stops)

section \<open>What the operations change\<close>

lemma readWithAcceptFallback_quiet [effects]: "quiet (readWithAcceptFallback E uri accept)"
  unfolding readWithAcceptFallback_def by (auto intro!: effects)

lemma source_reads_quiet [effects]:
  "quiet (FetchETag E uri)" "quiet (readSource E opname uri path)" "quiet (GetSource E uri)"
  "quiet (GetIncludeSource E uri incl)" "quiet (readStructure E uri)"
  by (auto simp: FetchETag_def readSource_def GetSource_def GetIncludeSource_def readStructure_def Let_def
      intro!: effects)

lemma writeBody_once: "once isInr (writeBody E opname path source headers)"
  unfolding writeBody_def
  by (auto intro!: once_then_ok checked_once doMutate_once)

lemma retry_on_once: "once isInr first \<Longrightarrow> once isInr second \<Longrightarrow> once isInr (retry_on p first second)"
  unfolding retry_on_def
  by (rule counts_bind_once, assumption) (auto split: sum.splits intro!: effects)

lemma trySetSource_once: "once isInr (trySetSource E uri source lockHandle transport etag)"
  unfolding trySetSource_def setClassSourceIntoRequest_def setSourceWithLockHeader_def
    setSourceWithLockParam_def doSetSource_def
  by (auto intro!: effects retry_on_once writeBody_once)

lemma SetSource_once: "once isInr (SetSource E uri source lockHandle transport etag)"
  unfolding SetSource_def Let_def
  by (auto intro!: effects trySetSource_once counts_tryw_quiet)

section \<open>The parameters of a request\<close>

text \<open>The part of a path behind the first question mark, and a parameter as SAP reads it there.\<close>

definition query_part :: "string \<Rightarrow> string" where
  "query_part p = (case index_byte p (CHR ''?'') of None \<Rightarrow> [] | Some i \<Rightarrow> drop (Suc i) p)"

definition query_value :: "string \<Rightarrow> string \<Rightarrow> string" where
  "query_value p k = (case find (\<lambda>x. map_option fst x = Some k) (parse_query (query_part p)) of
      Some (Some (_, v)) \<Rightarrow> v | _ \<Rightarrow> [])"

lemma index_byte_append: "c \<notin> set u \<Longrightarrow> index_byte (u @ c # v) c = Some (length u)"
  by (induction u) (auto simp: index_byte_Cons)

lemma query_part_append: "CHR ''?'' \<notin> set u \<Longrightarrow> query_part (u @ CHR ''?'' # q) = q"
  by (simp add: query_part_def index_byte_append)

lemma query_part_none: "CHR ''?'' \<notin> set u \<Longrightarrow> query_part u = []"
  using index_byte_None [of u "CHR ''?''"] by (simp add: query_part_def)

lemma question_mark_lower: "CHR ''?'' \<in> set (to_lower s) \<Longrightarrow> CHR ''?'' \<in> set s"
proof -
  have "lower_char c = CHR ''?'' \<Longrightarrow> c = CHR ''?''" for c
    by (auto simp: lower_char_def is_upper_def split: if_splits dest: arg_cong [of _ _ "of_char :: char \<Rightarrow> nat"])
  then show "CHR ''?'' \<in> set (to_lower s) \<Longrightarrow> CHR ''?'' \<in> set s"
    by (force simp: to_lower_def)
qed

lemma go_slice_set: "go_slice s i j = Some t \<Longrightarrow> set t \<subseteq> set s"
  by (auto simp: go_slice_def split: if_splits dest: in_set_takeD in_set_dropD)

lemma encode_ns_segment_mark:
  assumes "encode_ns_segment u idx = Some r" and "CHR ''?'' \<notin> set u"
  shows "CHR ''?'' \<notin> set r"
  using assms
  by (fastforce simp: encode_ns_segment_def bind_eq_Some_conv split: option.splits prod.splits
      dest!: go_slice_set question_mark_lower)

lemma encoded_path_query:
  assumes "CHR ''?'' \<notin> set u" and "q = [] \<or> hd q = CHR ''?''"
  shows "\<exists>u'. encoded_path (u @ q) = u' @ q \<and> CHR ''?'' \<notin> set u'"
proof (cases "index_of u ''//''")
  case None
  then show ?thesis
    using assms encode_ns_query_append [OF assms] by (simp add: encoded_path_def encodeNamespacePath_def)
next
  case (Some idx)
  then obtain r where r: "encode_ns_segment u idx = Some r" using encode_ns_segment_total by blast
  with Some encode_ns_query_append [OF assms] have "encodeNamespacePath (u @ q) = Some (r @ q)"
    by (simp add: encodeNamespacePath_def)
  with encode_ns_segment_mark [OF r assms(1)] show ?thesis by (simp add: encoded_path_def)
qed

lemma query_value_encoded:
  assumes "CHR ''?'' \<notin> set u"
  shows "query_value (encoded_path (u @ ''?'' @ q)) k =
     (case find (\<lambda>x. map_option fst x = Some k) (parse_query q) of Some (Some (_, v)) \<Rightarrow> v | _ \<Rightarrow> [])"
    and "query_value (encoded_path u) k = []"
proof -
  from encoded_path_query [OF assms, of "''?'' @ q"] obtain u' where
    "encoded_path (u @ ''?'' @ q) = u' @ CHR ''?'' # q" "CHR ''?'' \<notin> set u'" by auto
  then show "query_value (encoded_path (u @ ''?'' @ q)) k =
     (case find (\<lambda>x. map_option fst x = Some k) (parse_query q) of Some (Some (_, v)) \<Rightarrow> v | _ \<Rightarrow> [])"
    by (simp add: query_value_def query_part_append)
  from encoded_path_query [OF assms, of "[]"] obtain u' where
    "encoded_path u = u'" "CHR ''?'' \<notin> set u'" by auto
  then show "query_value (encoded_path u) k = []"
    by (simp add: query_value_def query_part_none parse_query_def)
qed

lemma bare_no_mark: "CHR ''?'' \<notin> set (bareObjectURI uri)"
proof -
  have "CHR ''?'' \<notin> set (takeWhile (\<lambda>c. c \<noteq> CHR ''?'' \<and> c \<noteq> CHR ''#'') uri)"
    by (auto dest: set_takeWhileD)
  then have "CHR ''?'' \<notin> set (normalizeObjectURI uri)"
    using trim_suffix_set by (fastforce simp: normalizeObjectURI_def)
  then show ?thesis by (auto simp: bareObjectURI_def Let_def dest: in_set_takeD)
qed

lemma header_opt:
  "header (set_headers [] (source_headers ct @ opt_param ''If-Match'' etag @ opt_param ''X-SAP-Lock-Handle'' h))
     ''X-SAP-Lock-Handle'' = h"
  "header (set_headers [] (source_headers ct @ opt_param ''If-Match'' etag)) ''X-SAP-Lock-Handle'' = []"
  by (auto simp: source_headers_def stateful_def opt_param_def set_headers_def header_set_header)
    (simp_all add: header_def equal_fold_def to_lower_def lower_char_def is_upper_def)

section \<open>Properties\<close>

text \<open>
  The handle as SAP finds it in a write: in the header of its own, or as a query parameter.
\<close>

definition lock_delivery :: "request \<Rightarrow> string \<times> string" where
  "lock_delivery rq = (header (rq_headers rq) ''X-SAP-Lock-Handle'', query_value (rq_path rq) ''lockHandle'')"

definition write_ok :: "string \<Rightarrow> string \<Rightarrow> request \<Rightarrow> bool" where
  "write_ok source lockHandle rq \<longleftrightarrow> is_preflight rq
     \<or> (rq_method rq = ''PUT'' \<and> rq_body rq = Some source
        \<and> lock_delivery rq \<in> {(lockHandle, []), ([], lockHandle)})"

lemma not_base_lock: "\<not> base_header ''X-SAP-Lock-Handle''"
  by (simp add: base_header_def equal_fold_def to_lower_def lower_char_def is_upper_def)

lemma write_ok_preflight: "accepts_preflight E (write_ok source lockHandle)"
  by (simp add: accepts_preflight_def write_ok_def)

lemma sourceMainSuffix_mark: "CHR ''?'' \<notin> set sourceMainSuffix"
  by (simp add: sourceMainSuffix_def)

lemma withLockHeader_writes:
  assumes "CHR ''?'' \<notin> set uri"
  shows "emits (write_ok source lockHandle) (setSourceWithLockHeader E uri source lockHandle transport etag)"
proof -
  have mark: "CHR ''?'' \<notin> set (uri @ sourceMainSuffix)" using assms sourceMainSuffix_mark by simp
  have q: "query_value (encoded_path (uri @ sourceMainSuffix
      @ (if transport \<noteq> [] then ''?corrNr='' @ query_escape transport else []))) ''lockHandle'' = []"
  proof (cases "transport = []")
    case True
    then show ?thesis using query_value_encoded(2) [OF mark] by simp
  next
    case False
    have "parse_query (''corrNr='' @ query_escape transport) = [Some (''corrNr'', transport)]"
      using parse_values_encode [of "[(''corrNr'', transport)]"]
      by (simp add: values_encode_def query_escape_def query_byte_def unreserved_def is_upper_def is_lower_def)
    with False query_value_encoded(1) [OF mark, of "''corrNr='' @ query_escape transport" "''lockHandle''"]
    show ?thesis by simp
  qed
  show ?thesis
    unfolding setSourceWithLockHeader_def doSetSource_def writeBody_def
    using q header_opt(1) not_base_lock
    by (auto intro!: sends write_ok_preflight
        simp: accepts_def carries_def write_ok_def lock_delivery_def)
qed

lemma parse_lock_params:
  "find (\<lambda>x. map_option fst x = Some ''lockHandle'')
     (parse_query (values_encode (opt_param ''lockHandle'' h @ opt_param ''corrNr'' t)))
   = (if h = [] then None else Some (Some (''lockHandle'', h)))"
proof -
  have "sort_key fst (opt_param ''lockHandle'' h @ opt_param ''corrNr'' t) = opt_param ''corrNr'' t @ opt_param ''lockHandle'' h"
    by (simp add: opt_param_def less_eq_char_def less_char_def)
  then show ?thesis by (simp add: parse_values_encode opt_param_def)
qed

lemma withLockParam_writes:
  assumes "CHR ''?'' \<notin> set uri"
  shows "emits (write_ok source lockHandle) (setSourceWithLockParam E uri source lockHandle transport etag)"
proof -
  have mark: "CHR ''?'' \<notin> set (uri @ sourceMainSuffix)" using assms sourceMainSuffix_mark by simp
  let ?ps = "opt_param ''lockHandle'' lockHandle @ opt_param ''corrNr'' transport"
  have q: "query_value (encoded_path (with_params (uri @ sourceMainSuffix) ?ps)) ''lockHandle'' = lockHandle"
  proof (cases "?ps = []")
    case True
    then show ?thesis using query_value_encoded(2) [OF mark]
      by (simp add: with_params_def opt_param_def split: if_splits)
  next
    case False
    with query_value_encoded(1) [OF mark, of "values_encode ?ps" "''lockHandle''"]
      parse_lock_params [of lockHandle transport]
    show ?thesis by (auto simp: with_params_def split: if_splits)
  qed
  show ?thesis
    unfolding setSourceWithLockParam_def doSetSource_def writeBody_def
    using q header_opt(2) not_base_lock
    by (auto intro!: sends write_ok_preflight
        simp: accepts_def carries_def write_ok_def lock_delivery_def)
qed

lemma retry_on_emits [sends]: "emits P first \<Longrightarrow> emits P second \<Longrightarrow> emits P (retry_on p first second)"
  unfolding retry_on_def by (auto split: sum.splits intro!: sends)

lemma trySetSource_writes:
  "CHR ''?'' \<notin> set uri \<Longrightarrow> emits (write_ok source lockHandle) (trySetSource E uri source lockHandle transport etag)"
  unfolding trySetSource_def setClassSourceIntoRequest_def
  by (auto intro!: sends withLockHeader_writes withLockParam_writes)

text \<open>
  C3. \<open>SetSource\<close> stores a source at most once, and exactly when it reports success: neither the
  second delivery of the lock handle nor the repetition after an expired token follows a write SAP
  carried out.
\<close>

theorem SetSource_stores_once:
  "\<exists>es. wire (snd (run_state (SetSource E uri source lockHandle transport etag) s)) = es @ wire s
     \<and> effect_count es
        = (if isInr (fst (run_state (SetSource E uri source lockHandle transport etag) s)) then 1 else 0)"
  by (rule counts_run [OF SetSource_once])

text \<open>
  C26. Every request of \<open>SetSource\<close> is a preflight or a PUT of the whole, unchanged source that
  delivers the lock handle in exactly one way, header or query, and byte for byte.
\<close>

theorem SetSource_delivers_lock_once:
  "\<exists>es. wire (snd (run_state (SetSource E uri source lockHandle transport etag) s)) = es @ wire s
     \<and> list_all (\<lambda>ev. write_ok source lockHandle (fst ev)) es"
  by (rule emits_run)
    (auto simp: SetSource_def Let_def intro!: sends write_ok_preflight trySetSource_writes bare_no_mark)

text \<open>
  \<open>SetSource\<close> stops at the first 401 like a single call, the other delivery of the lock
  handle included, as long as SAP names no lock exception in the body of a 401.
\<close>

theorem SetSource_stops_at_401:
  assumes "honest E" and "no_lock_401 E" and "oauth s = None"
  shows "\<exists>es. wire (snd (run_state (SetSource E uri source lockHandle transport etag) s)) = es @ wire s
       \<and> (\<forall>ev \<in> set (tl es). \<not> is401 ev)
       \<and> (list_ex is401 es \<longrightarrow> unauth (fst (run_state (SetSource E uri source lockHandle transport etag) s)))"
  by (rule stops401_shape [OF SetSource_stops [OF assms(1,2)] assms(3)])

lemma scripted_honest: "honest scripted"
  by (auto simp: honest_def scripted_def split: list.splits sum.splits option.splits)


lemma scripted_no_lock_401: "no_lock_401 scripted"
  by (simp add: no_lock_401_def parseADTError_def scripted_def Let_def parse_legacy_def
      parse_untagged_def plain_adt_error_def unmarshal_root_def)

theorem SetSource_stops_at_401_witness:
  "honest scripted \<and> no_lock_401 scripted \<and> oauth (new_client [answer 200 [], answer 401 []]) = None
   \<and> (\<exists>es. wire (snd (run_state (SetSource scripted ''/sap/bc/adt/programs/programs/z'' ''REPORT z.'' ''h'' [] [])
          (new_client [answer 200 [], answer 401 []]))) = es @ wire (new_client [answer 200 [], answer 401 []])
       \<and> (\<forall>ev \<in> set (tl es). \<not> is401 ev)
       \<and> (list_ex is401 es \<longrightarrow> unauth (fst (run_state (SetSource scripted ''/sap/bc/adt/programs/programs/z''
            ''REPORT z.'' ''h'' [] []) (new_client [answer 200 [], answer 401 []])))))"
  using SetSource_stops_at_401 [OF scripted_honest scripted_no_lock_401, of "new_client [answer 200 [], answer 401 []]"]
    scripted_honest scripted_no_lock_401 by simp

section \<open>Where the code departs from its documentation\<close>

text \<open>A system that answers every request in the same way, and whose bodies are all one XML document.\<close>

definition constant_system :: "response \<Rightarrow> xml \<Rightarrow> unit env" where
  "constant_system r x = \<lparr>cfg_host = ''http://sap'', cfg_client = ''100'', cfg_user = ''DEVELOPER'',
     cfg_password = ''secret'', cfg_language = ''EN'', send = (\<lambda>rq w. (Inr r, w)),
     url_err = (\<lambda>_. None), refresh_cb = None, unmarshal_xml = (\<lambda>_. Inr x), ctx_err = (\<lambda>_. None)\<rparr>"

definition rejections :: "'w cl \<Rightarrow> nat" where
  "rejections s = length (filter is401 (wire s))"

definition with_token :: "'w cl \<Rightarrow> 'w cl" where
  "with_token s = s\<lparr>csrfToken := ''tok''\<rparr>"

text \<open>
  \<open>GetClassDefinition\<close> reads source and structure side by side, so a rejected credential is sent
  twice, in either order of the two goroutines.
\<close>

theorem GetClassDefinition_rejected_twice:
  "rejections (snd (run_state (GetClassDefinition (constant_system (answer 401 []) (Text [])) True ''/sap/bc/adt/oo/classes/zcl'')
      (with_token (new_client ())))) = 2
   \<and> rejections (snd (run_state (GetClassDefinition (constant_system (answer 401 []) (Text [])) False ''/sap/bc/adt/oo/classes/zcl'')
      (with_token (new_client ())))) = 2"
  by code_simp

definition no_access_body :: xml where
  "no_access_body = Elem ''exception'' modernExcNS []
     [Elem ''type'' modernExcNS [(''id'', [], ''ExceptionResourceNoAccess'')] [],
      Elem ''message'' modernExcNS [] [Text ''No access'']]"

text \<open>
  A 401 whose body names a lock exception is taken for a lock handle in the wrong place:
  \<open>SetSource\<close> sends the rejected credential again.
\<close>

theorem SetSource_retries_rejected_credential:
  "rejections (snd (run_state (SetSource (constant_system (answer 401 ''x'') no_access_body)
      ''/sap/bc/adt/programs/programs/z'' ''REPORT z.'' ''h'' [] []) (with_token (new_client ())))) = 2"
  by code_simp

definition negative_structure :: xml where
  "negative_structure = Elem ''objectStructureElement'' [] []
     [Elem ''link'' [] [(''rel'', [], ''http://www.sap.com/adt/relations/source/definitionBlock''),
        (''href'', [], ''./source/main#start=1,0;end=-1,0'')] []]"

text \<open>
  The end line is SAP's to choose, and a negative one ends in a slice out of range: Go panics.
\<close>

theorem GetClassDefinition_negative_end_panics:
  "fst (run_state (GetClassDefinition (constant_system (answer 200 ''CLASS zcl DEFINITION.'') negative_structure) True
      ''/sap/bc/adt/oo/classes/zcl'') (with_token (new_client ()))) = Inr None"
  by code_simp

end
