(* ===== verification/Versions.thy ===== *)
theory Versions
  imports Source
begin

text \<open>Version histories and the comparison of the active with the inactive source (\<open>adt/version.go\<close>).\<close>

record version_info =
  vi_number :: string
  vi_author :: string
  vi_date :: string
  vi_transport :: string
  vi_transport_desc :: string
  vi_content :: string
  vi_include :: string

definition classIncludeMain :: string where "classIncludeMain = ''main''"

definition classIncludes :: "string list" where
  "classIncludes = [classIncludeMain, ''definitions'', ''implementations'', ''macros'', ''testclasses'']"

text \<open>One entry of the feed; of several transport links the last one counts.\<close>

definition versionEntry :: "xml \<Rightarrow> version_info" where
  "versionEntry e =
     (let links = filter (\<lambda>l. contains_str (xml_attr l ''rel'') ''trans'') (kids_named ''link'' e);
          tr = (if links = [] then [] else xml_attr (last links) ''name'');
          desc = (if links = [] then [] else xml_attr (last links) ''href'');
          title = kid_text ''title'' e in
      \<lparr>vi_number = kid_text ''id'' e,
       vi_author = (case kids_named ''author'' e of [] \<Rightarrow> [] | a # _ \<Rightarrow> kid_text ''name'' a),
       vi_date = kid_text ''updated'' e, vi_transport = tr,
       vi_transport_desc = (if tr = [] \<and> title \<noteq> [] then title else desc),
       vi_content = kid_attr ''content'' ''src'' e, vi_include = []\<rparr>)"

definition parseVersionFeed :: "'w env \<Rightarrow> string \<Rightarrow> err + version_info list" where
  "parseVersionFeed E data =
     (case unmarshal_any E data of
        Inl e \<Rightarrow> Inl (wrapf ''parsing version feed: '' e)
      | Inr x \<Rightarrow> Inr (map versionEntry (kids_named ''entry'' x)))"

definition getVersionFeed :: "'w env \<Rightarrow> string \<Rightarrow> string \<Rightarrow> ('w, version_info list) go" where
  "getVersionFeed E path incl =
     tryE (checked E (wrapf ''GetVersionHistory: '') (\<lambda>e. e)
       (doRead E path [(''Accept'', ''application/atom+xml;type=feed'')])) (\<lambda>resp.
     tryw (wrapf ''GetVersionHistory reading body: '') (of_sum (read_all resp)) (\<lambda>data.
     tryE (of_sum (parseVersionFeed E data)) (\<lambda>vs.
       ok (if incl \<noteq> [] then map (\<lambda>v. v\<lparr>vi_include := incl\<rparr>) vs else vs))))"

fun getClassVersionHistory :: "'w env \<Rightarrow> string \<Rightarrow> string list \<Rightarrow> version_info list \<Rightarrow> ('w, version_info list) go" where
  "getClassVersionHistory E uri [] all = ok all"
| "getClassVersionHistory E uri (incl # incls) all =
     State_Monad.bind (getVersionFeed E (uri @ ''/includes/'' @ incl @ ''/versions'') incl) (\<lambda>r. case r of
        Inl e \<Rightarrow>
          if incl \<noteq> classIncludeMain \<and> ClassifyError e = ErrorNotFound then getClassVersionHistory E uri incls all
          else fail (wrapf (''GetVersionHistory '' @ incl @ '': '') e)
      | Inr vs \<Rightarrow> getClassVersionHistory E uri incls (all @ vs))"

definition GetVersionHistory :: "'w env \<Rightarrow> string \<Rightarrow> ('w, version_info list) go" where
  "GetVersionHistory E uri0 =
     (let uri = bareObjectURI uri0 in
      if isClassURI uri then getClassVersionHistory E uri classIncludes []
      else getVersionFeed E (uri @ sourceMainSuffix @ ''/versions'') [])"

definition readText :: "'w env \<Rightarrow> (err \<Rightarrow> err) \<Rightarrow> (err \<Rightarrow> err) \<Rightarrow> string \<Rightarrow> ('w, string) go" where
  "readText E w w2 path =
     tryE (checked E w (\<lambda>e. e) (doRead E path [(''Accept'', ''text/plain'')])) (\<lambda>resp.
       tryw w2 (of_sum (read_all resp)) ok)"

definition GetVersionSource :: "'w env \<Rightarrow> string \<Rightarrow> ('w, string) go" where
  "GetVersionSource E contentURI =
     readText E (wrapf ''GetVersionSource: '') (wrapf ''GetVersionSource reading body: '') contentURI"

record diff_result =
  df_changes :: bool
  df_active :: string
  df_inactive :: string

definition getSourceWithVersion :: "'w env \<Rightarrow> string \<Rightarrow> string \<Rightarrow> ('w, string) go" where
  "getSourceWithVersion E uri version =
     readText E (\<lambda>e. e) (\<lambda>e. e) (uri @ sourceMainSuffix @ ''?version='' @ version)"

definition DiffActiveInactive :: "'w env \<Rightarrow> string \<Rightarrow> ('w, diff_result) go" where
  "DiffActiveInactive E uri0 =
     (let uri = bareObjectURI uri0 in
      tryw (wrapf ''DiffActiveInactive active: '') (getSourceWithVersion E uri ''active'') (\<lambda>a.
      tryw (wrapf ''DiffActiveInactive inactive: '') (getSourceWithVersion E uri ''inactive'') (\<lambda>i.
        ok \<lparr>df_changes = (a \<noteq> i), df_active = a, df_inactive = i\<rparr>)))"

section \<open>After a rejected credential\<close>

lemma getVersionFeed_stops [stops]: "stops401 unauth (getVersionFeed E path incl)"
  unfolding getVersionFeed_def by (auto intro!: stops doRead_stops)

lemma unauthorized_is_found: "is_unauthorized e \<Longrightarrow> ClassifyError e \<noteq> ErrorNotFound"
  by (auto simp: is_unauthorized_def ClassifyError_def Let_def classifyByExceptionType_def
      classifyByStatusCode_def refineLockConflict_def split: option.splits)

lemma classHistory_stops: "stops401 unauth (getClassVersionHistory E uri incls all)"
proof (induction incls arbitrary: all)
  case (Cons incl incls)
  show ?case
    unfolding getClassVersionHistory.simps
    by (rule stops401_bind [OF getVersionFeed_stops])
      (auto split: sum.splits intro!: stops Cons.IH simp: unauthorized_is_found)
qed (auto intro: stops)

lemma GetVersionHistory_stops [stops]: "stops401 unauth (GetVersionHistory E uri)"
  unfolding GetVersionHistory_def Let_def by (auto intro!: stops classHistory_stops)

lemma readText_stops:
  "(\<And>e. is_unauthorized e \<Longrightarrow> is_unauthorized (w e)) \<Longrightarrow> (\<And>e. is_unauthorized e \<Longrightarrow> is_unauthorized (w2 e)) \<Longrightarrow>
   stops401 unauth (readText E w w2 path)"
  unfolding readText_def by (auto intro!: stops doRead_stops)

lemma GetVersionSource_stops [stops]: "stops401 unauth (GetVersionSource E contentURI)"
  unfolding GetVersionSource_def by (rule readText_stops) auto

lemma DiffActiveInactive_stops [stops]: "stops401 unauth (DiffActiveInactive E uri)"
  unfolding DiffActiveInactive_def getSourceWithVersion_def Let_def by (auto intro!: stops readText_stops)

section \<open>The history of a class\<close>

text \<open>The labels of a history are in the order of the includes.\<close>

lemma getVersionFeed_labels:
  assumes "run_state (getVersionFeed E path incl) s = (Inr vs, s')" and "incl \<noteq> []"
  shows "list_all (\<lambda>v. vi_include v = incl) vs"
proof -
  have "yields (\<lambda>r. case r of Inl _ \<Rightarrow> True | Inr vs \<Rightarrow> list_all (\<lambda>v. vi_include v = incl) vs) (getVersionFeed E path incl)"
    unfolding getVersionFeed_def tryw_def
    using assms(2) by (auto split: sum.splits intro!: yields_bind_any yields_intro simp: list_all_iff)
  from yieldsD [OF this assms(1)] show ?thesis by simp
qed

text \<open>
  What the history of a class consists of: of every include in turn the whole feed, or nothing where
  the feed was not found; \<open>main\<close> is never left out.
\<close>

fun history_of :: "string list \<Rightarrow> version_info list list \<Rightarrow> bool" where
  "history_of [] [] = True"
| "history_of (incl # incls) (vs # vss) =
     (list_all (\<lambda>v. vi_include v = incl) vs \<and> history_of incls vss)"
| "history_of _ _ = False"

lemma classHistory_parts:
  "run_state (getClassVersionHistory E uri incls all) s = (Inr vs, s') \<Longrightarrow> [] \<notin> set incls \<Longrightarrow>
     \<exists>vss. vs = all @ concat vss \<and> history_of incls vss"
proof (induction incls arbitrary: all s)
  case Nil
  then show ?case by (intro exI [of _ "[]"]) simp
next
  case (Cons incl incls)
  obtain r s1 where feed: "run_state (getVersionFeed E (uri @ ''/includes/'' @ incl @ ''/versions'') incl) s = (r, s1)"
    by fastforce
  show ?case
  proof (cases r)
    case (Inl e)
    with Cons.prems feed have "run_state (getClassVersionHistory E uri incls all) s1 = (Inr vs, s')"
      by (auto split: if_splits)
    from Cons.IH [OF this] Cons.prems(2) obtain vss where "vs = all @ concat vss" "history_of incls vss" by auto
    then show ?thesis by (intro exI [of _ "[] # vss"]) simp
  next
    case (Inr ws)
    with Cons.prems feed have "run_state (getClassVersionHistory E uri incls (all @ ws)) s1 = (Inr vs, s')" by simp
    from Cons.IH [OF this] Cons.prems(2) obtain vss where "vs = (all @ ws) @ concat vss" "history_of incls vss" by auto
    moreover have "list_all (\<lambda>v. vi_include v = incl) ws"
      by (rule getVersionFeed_labels) (use feed Inr Cons.prems(2) in auto)
    ultimately show ?thesis by (intro exI [of _ "ws # vss"]) simp
  qed
qed

section \<open>Properties\<close>

text \<open>
  The history of a class is the histories of its five includes one after the other, \<open>main\<close>
  first, each entry labelled with the include it belongs to.
\<close>

theorem class_history_in_order:
  assumes "run_state (GetVersionHistory E uri) s = (Inr vs, s')" and "isClassURI (bareObjectURI uri)"
  shows "\<exists>vss. vs = concat vss \<and> history_of classIncludes vss"
  using assms classHistory_parts [of E "bareObjectURI uri" classIncludes "[]" s vs s']
  by (auto simp: GetVersionHistory_def Let_def classIncludes_def classIncludeMain_def)

definition feed_example :: xml where
  "feed_example = Elem ''feed'' [] [] [Elem ''entry'' [] [] [Elem ''id'' [] [] [Text ''00001'']]]"

definition version_example :: "string \<Rightarrow> version_info" where
  "version_example incl = \<lparr>vi_number = ''00001'', vi_author = [], vi_date = [], vi_transport = [],
     vi_transport_desc = [], vi_content = [], vi_include = incl\<rparr>"

lemma class_history_example:
  "fst (run_state (GetVersionHistory (constant_system (answer 200 []) feed_example) ''/sap/bc/adt/oo/classes/zcl/source/main'')
     (with_token (new_client ()))) = Inr (map version_example classIncludes)"
  by code_simp

theorem class_history_in_order_witness:
  "\<exists>vss. map version_example classIncludes = concat vss \<and> history_of classIncludes vss"
proof -
  let ?m = "GetVersionHistory (constant_system (answer 200 []) feed_example) ''/sap/bc/adt/oo/classes/zcl/source/main''"
  have "run_state ?m (with_token (new_client ()))
      = (Inr (map version_example classIncludes), snd (run_state ?m (with_token (new_client ()))))"
    using class_history_example by (simp add: prod_eq_iff)
  then show ?thesis by (rule class_history_in_order) code_simp
qed

end
