(* ===== verification/Objects.thy ===== *)
theory Objects
  imports Source
begin

text \<open>
  Creating and deleting objects (\<open>adt/object.go\<close> with the request bodies of \<open>adt/adtxml/object.go\<close>)
  and reading an HTTP service (\<open>adt/httpservice.go\<close>).
\<close>

section \<open>Object types\<close>

definition supportedObjectTypes :: "string list" where
  "supportedObjectTypes = sort (map fst objectTypeMap)"

definition ObjectURI :: "string \<Rightarrow> string \<Rightarrow> err + string" where
  "ObjectURI objectType nm =
     (case map_of objectTypeMap (to_upper objectType) of
        None \<Rightarrow> Inl (Msg (''unsupported object type '' @ quoted objectType @ '', supported: ''
          @ join '', '' supportedObjectTypes))
      | Some (endpoint, _) \<Rightarrow> Inr (endpoint @ ''/'' @ to_lower nm))"

section \<open>Request bodies\<close>

text \<open>
  The structs \<open>Create...\<close> of \<open>adtxml\<close>: per object type the root element, the prefix it declares and
  the name space of that prefix. All of them continue with the same attributes and the package.
\<close>

definition create_roots :: "(string \<times> string \<times> string \<times> string) list" where
  "create_roots = [
     (''PROG'', ''program:abapProgram'', ''xmlns:program'', ''http://www.sap.com/adt/programs/programs''),
     (''CLAS'', ''class:abapClass'', ''xmlns:class'', ''http://www.sap.com/adt/oo/classes''),
     (''INTF'', ''intf:abapInterface'', ''xmlns:intf'', ''http://www.sap.com/adt/oo/interfaces''),
     (''FUGR'', ''group:abapFunctionGroup'', ''xmlns:group'', ''http://www.sap.com/adt/functions/groups''),
     (''DTEL'', ''dtel:wbobj'', ''xmlns:dtel'', ''http://www.sap.com/wbobj/dictionary/dtel''),
     (''DOMA'', ''domain:domain'', ''xmlns:domain'', ''http://www.sap.com/dictionary/domain''),
     (''TABL'', ''blue:blueSource'', ''xmlns:blue'', ''http://www.sap.com/wbobj/blue''),
     (''DDLS'', ''ddl:ddlSource'', ''xmlns:ddl'', ''http://www.sap.com/adt/ddic/ddlsources''),
     (''MSAG'', ''mc:messageClass'', ''xmlns:mc'', ''http://www.sap.com/adt/MessageClass''),
     (''HTTP'', ''http:abap'', ''xmlns:http'', ''http://www.sap.com/uc_object_type_group/http/abapxml'')]"

definition packageRef :: "string \<Rightarrow> string" where
  "packageRef p = xml_elem ''adtcore:packageRef'' [(''adtcore:name'', p)] []"

definition core_attrs :: "string \<Rightarrow> string \<Rightarrow> string \<Rightarrow> string \<Rightarrow> string \<Rightarrow> (string \<times> string) list" where
  "core_attrs nsAttr ns adtType description nm =
     [(nsAttr, ns), (''xmlns:adtcore'', nsADTCore), (''adtcore:type'', adtType),
      (''adtcore:description'', description), (''adtcore:name'', nm)]"

text \<open>\<open>marshalCreateBody\<close>; \<open>None\<close> is the nil body of a type without an arm. \<open>xml.Marshal\<close> of these
  structs of strings never fails.\<close>

definition marshalCreateBody :: "string \<Rightarrow> string \<Rightarrow> string \<Rightarrow> string \<Rightarrow> string \<Rightarrow> string \<Rightarrow> string option" where
  "marshalCreateBody objectType nm packageName description handlerClass adtType =
     (let ot = to_upper objectType in
      case map_of create_roots ot of
        None \<Rightarrow> None
      | Some (root, nsAttr, ns) \<Rightarrow>
          Some (xml_elem root
            (core_attrs nsAttr ns adtType description nm
              @ (if ot = ''HTTP'' then opt_attr ''http:handler_servicehandler'' (to_upper handlerClass) else []))
            (packageRef packageName)))"

definition creatableObjectTypes :: "string list" where
  "creatableObjectTypes = sort (map fst (filter (\<lambda>(objectType, _, adtType).
     marshalCreateBody objectType ''PROBE'' ''PROBE'' ''probe'' [] adtType \<noteq> None) objectTypeMap))"

definition functionModuleBody :: "string \<Rightarrow> string \<Rightarrow> string \<Rightarrow> string" where
  "functionModuleBody moduleName description packageName =
     xml_elem ''fmodule:abapFunctionModule''
       (core_attrs ''xmlns:fmodule'' ''http://www.sap.com/adt/functions/fmodules'' ''FUGR/FF'' description (to_upper moduleName))
       (packageRef packageName)"

definition packageBody :: "string \<Rightarrow> string \<Rightarrow> string \<Rightarrow> string \<Rightarrow> string \<Rightarrow> string \<Rightarrow> string" where
  "packageBody nm description responsible softwareComponent transportLayer languageVersion =
     xml_elem ''pak:package''
       [(''xmlns:pak'', ''http://www.sap.com/adt/packages''), (''xmlns:adtcore'', nsADTCore),
        (''adtcore:name'', to_upper nm), (''adtcore:type'', ''DEVC/K''),
        (''adtcore:description'', description), (''adtcore:responsible'', to_upper responsible)]
       (xml_elem ''pak:attributes''
          ((''pak:packageType'', ''development'') # opt_attr ''pak:languageVersion'' languageVersion) []
        @ xml_elem ''pak:superPackage'' [] [] @ xml_elem ''pak:applicationComponent'' [] []
        @ xml_elem ''pak:transport'' []
            (xml_elem ''pak:softwareComponent'' [(''pak:name'', softwareComponent)] []
             @ xml_elem ''pak:transportLayer'' [(''pak:name'', transportLayer)] [])
        @ xml_elem ''pak:useAccesses'' [] [] @ xml_elem ''pak:packageInterfaces'' [] []
        @ xml_elem ''pak:subPackages'' [] [])"

section \<open>Creating\<close>

definition createContentType :: "string \<Rightarrow> string" where
  "createContentType ot = (case map_of [
       (''DTEL'', ''application/vnd.sap.adt.dataelements.v2+xml''),
       (''DOMA'', ''application/vnd.sap.adt.domains.v2+xml''),
       (''TABL'', ''application/vnd.sap.adt.tables.v2+xml''),
       (''DDLS'', ''application/vnd.sap.adt.ddlSource+xml''),
       (''HTTP'', httpServiceContentType)] ot of None \<Rightarrow> contentTypeXML | Some ct \<Rightarrow> ct)"

definition corr_suffix :: "string \<Rightarrow> string" where
  "corr_suffix transport = (if transport \<noteq> [] then ''?corrNr='' @ transport else [])"

definition ddicUnavailable :: "string \<Rightarrow> err" where
  "ddicUnavailable ot = Msg (''CreateObject: the /sap/bc/adt/ddic/ endpoint for '' @ ot
     @ '' is not available on this SAP system'' @ em_dash
     @ ''DDIC object creation via ADT REST requires S/4HANA or a recent ABAP Platform version. ''
     @ ''On older ECC systems, create DDIC objects via transaction SE11'')"

text \<open>What \<open>createObject\<close> makes of SAP's answer to the POST.\<close>

definition createAnswer :: "'w env \<Rightarrow> string \<Rightarrow> string \<Rightarrow> response \<Rightarrow> err option" where
  "createAnswer E objectType endpoint resp =
     (let ot = to_upper objectType in
      if (rs_status resp = 404 \<or> rs_status resp = 415) \<and> ot \<in> {''DTEL'', ''DOMA'', ''TABL'', ''DDLS''} then
        Some (ddicUnavailable ot)
      else map_option (\<lambda>e.
        if rs_status resp = 404 \<and> equal_fold objectType ''HTTP'' then
          wrapf (''CreateObject: the '' @ endpoint @ '' endpoint for HTTP services is probably not available on this SAP system''
            @ em_dash @ ''HTTP service objects need S/4HANA or a recent ABAP Platform version: '') e
        else e) (checkResponse E resp))"

text \<open>The logout that frees the lock a create leaves behind on S/4HANA: only a rejected credential counts.\<close>

definition logoutAfterCreate :: "'w env \<Rightarrow> string \<Rightarrow> string \<Rightarrow> ('w, unit) go" where
  "logoutAfterCreate E objectType nm = State_Monad.bind (Logout E) (\<lambda>r.
     State_Monad.bind (gets (canRefresh E)) (\<lambda>can. case r of
        Inr _ \<Rightarrow> ok ()
      | Inl e \<Rightarrow>
          if is_unauthorized e \<and> \<not> can then
            fail (Wrap2 (''CreateObject: '' @ objectType @ '' '' @ nm @ '': '') (Sentinel ErrObjectCreated)
              '', but the logout after it failed: '' e)
          else ok ()))"

definition createObject ::
    "'w env \<Rightarrow> string \<Rightarrow> string \<Rightarrow> string \<Rightarrow> string \<Rightarrow> string \<Rightarrow> string \<Rightarrow> ('w, unit) go" where
  "createObject E objectType nm packageName description handlerClass transport =
     (case map_of objectTypeMap (to_upper objectType) of
        None \<Rightarrow> fail (Msg (''unsupported object type '' @ quoted objectType @ '', creatable types: ''
          @ join '', '' creatableObjectTypes))
      | Some (endpoint, adtType) \<Rightarrow>
          (case marshalCreateBody objectType nm packageName description handlerClass adtType of
             None \<Rightarrow> fail (Msg (''CreateObject: this client cannot create '' @ to_upper objectType @ '' objects'' @ em_dash
               @ ''it can address and read them, but no ADT create request body for this type has been measured yet ''
               @ ''(see adtler#148 for the RAP object types)''))
           | Some body \<Rightarrow>
               (let ct = createContentType (to_upper objectType) in
                tryw (wrapf ''CreateObject: '') (doMutate E ''POST'' (endpoint @ corr_suffix transport)
                    (Some (xml_header @ body)) [(''Content-Type'', ct), (''Accept'', ct)]) (\<lambda>resp.
                  case createAnswer E objectType endpoint resp of
                    Some e \<Rightarrow> fail e
                  | None \<Rightarrow> logoutAfterCreate E objectType nm))))"

definition CreateObject :: "'w env \<Rightarrow> string \<Rightarrow> string \<Rightarrow> string \<Rightarrow> string \<Rightarrow> string \<Rightarrow> ('w, unit) go" where
  "CreateObject E objectType nm packageName description transport =
     createObject E objectType nm packageName description [] transport"

definition CreateHTTPService :: "'w env \<Rightarrow> string \<Rightarrow> string \<Rightarrow> string \<Rightarrow> string \<Rightarrow> string \<Rightarrow> ('w, unit) go" where
  "CreateHTTPService E nm packageName description handlerClass transport =
     createObject E ''HTTP'' nm packageName description handlerClass transport"

definition CreateFunctionModule ::
    "'w env \<Rightarrow> string \<Rightarrow> string \<Rightarrow> string \<Rightarrow> string \<Rightarrow> string \<Rightarrow> ('w, unit) go" where
  "CreateFunctionModule E groupName moduleName description packageName transport =
     tryE (checked E (wrapf ''CreateFunctionModule: '') (\<lambda>e. e) (doMutate E ''POST''
        (''/sap/bc/adt/functions/groups/'' @ to_lower groupName @ ''/fmodules'' @ corr_suffix transport)
        (Some (xml_header @ functionModuleBody moduleName description packageName))
        [(''Content-Type'', ''application/vnd.sap.adt.functions.fmodules.v2+xml'')])) (\<lambda>_. ok ())"

definition pkgContentType :: string where
  "pkgContentType = ''application/vnd.sap.adt.packages.v2+xml''"

definition CreatePackage ::
    "'w env \<Rightarrow> string \<Rightarrow> string \<Rightarrow> string \<Rightarrow> string \<Rightarrow> string \<Rightarrow> string \<Rightarrow> string \<Rightarrow> ('w, unit) go" where
  "CreatePackage E nm description responsible softwareComponent transportLayer languageVersion transport =
     (if languageVersion \<notin> {[], ''2'', ''5''} then
        fail (Msg (''CreatePackage: language version '' @ quoted languageVersion
          @ '' is not a value of ABAP_LANGUAGE_VERSION ('' @ [QUOT, QUOT] @ '', '' @ quoted ''2'' @ '' or '' @ quoted ''5'' @ '')''))
      else tryw (wrapf ''CreatePackage: '') (doMutate E ''POST'' (''/sap/bc/adt/packages'' @ corr_suffix transport)
          (Some (xml_header @ packageBody nm description responsible softwareComponent transportLayer languageVersion))
          [(''Content-Type'', pkgContentType), (''Accept'', pkgContentType)]) (\<lambda>resp.
        if rs_status resp = 404 then
          fail (Msg (''CreatePackage: the /sap/bc/adt/packages endpoint is not available on this SAP system'' @ em_dash
            @ ''package creation via ADT REST requires S/4HANA or a recent ABAP Platform version. ''
            @ ''On older ECC systems, create the package manually via transaction SE80 or SE21, then use it in CreateObject''))
        else (case checkResponse E resp of Some e \<Rightarrow> fail e | None \<Rightarrow> ok ())))"

section \<open>Deleting\<close>

definition isPackageURI :: "string \<Rightarrow> bool" where
  "isPackageURI uri =
     (let prefix = ''/sap/bc/adt/packages/''; lower = to_lower uri in
      if \<not> has_prefix lower prefix then False
      else
        (let nm0 = trim_prefix lower prefix;
             nm = (case index_byte nm0 (CHR ''?'') of None \<Rightarrow> nm0 | Some i \<Rightarrow> take i nm0) in
         trim_right (\<lambda>c. c = CHR ''/'') (trim_left (\<lambda>c. c = CHR ''/'') nm) \<noteq> []
         \<and> \<not> contains_str nm ''..''))"

definition sendDelete :: "'w env \<Rightarrow> string \<Rightarrow> string \<Rightarrow> ('w, unit) go" where
  "sendDelete E path etag =
     tryE (checked E (wrapf ''DeleteObject: '') (\<lambda>e. e)
       (doMutate E ''DELETE'' path None (opt_param ''If-Match'' etag))) (\<lambda>_. ok ())"

definition deleteObject :: "'w env \<Rightarrow> string \<Rightarrow> string \<Rightarrow> ('w, unit) go" where
  "deleteObject E uri transport =
     (let path = uri @ corr_suffix transport in
      tryw (wrapf ''DeleteObject: '') (FetchETag E uri) (\<lambda>etag.
        retry_on (\<lambda>e. ClassifyError e = ErrorEtagMismatch \<and> isPackageURI uri)
          (sendDelete E path etag) (sendDelete E path [])))"

text \<open>The delete of \<open>DeleteObject\<close>, after the release of the lock failed with \<open>unlockErr\<close> or went well.\<close>

definition deleteAfter :: "'w env \<Rightarrow> string \<Rightarrow> string \<Rightarrow> err option \<Rightarrow> ('w, unit) go" where
  "deleteAfter E uri transport unlockErr = tryw
     (\<lambda>e. case unlockErr of
        None \<Rightarrow> e
      | Some u \<Rightarrow> Wrap [] e ('' (releasing the lock handle beforehand also failed: '' @ err_text u @ '')''))
     (deleteObject E uri transport) ok"

definition DeleteObject :: "'w env \<Rightarrow> string \<Rightarrow> string \<Rightarrow> string \<Rightarrow> ('w, unit) go" where
  "DeleteObject E uri lockHandle transport =
     (if lockHandle = [] then deleteAfter E uri transport None
      else State_Monad.bind (UnlockObject E uri lockHandle) (\<lambda>r. case r of
          Inr _ \<Rightarrow> deleteAfter E uri transport None
        | Inl u \<Rightarrow>
            if is_unauthorized u then fail (wrapf ''DeleteObject: '' u)
            else deleteAfter E uri transport (Some u)))"

section \<open>HTTP services\<close>

record http_service =
  hs_name :: string
  hs_description :: string
  hs_handler :: string
  hs_url :: string

definition GetHTTPService :: "'w env \<Rightarrow> string \<Rightarrow> ('w, http_service) go" where
  "GetHTTPService E nm =
     tryE (of_sum (ObjectURI ''HTTP'' nm)) (\<lambda>uri.
     State_Monad.bind (gets (acceptHeaderForURI uri)) (\<lambda>accept.
     tryE (checked E (wrapf ''GetHTTPService: '') (\<lambda>e. e) (readWithAcceptFallback E uri accept)) (\<lambda>resp.
     tryw (wrapf ''GetHTTPService: '') (of_sum (read_all resp)) (\<lambda>data.
     tryw (wrapf ''GetHTTPService parsing: '') (of_sum (unmarshal_any E data)) (\<lambda>x.
       if xml_attr x ''name'' = [] then
         fail (Msg (''GetHTTPService parsing: response carried no adtcore:name'' @ em_dash @ ''it is not an HTTP service document''))
       else ok \<lparr>hs_name = xml_attr x ''name'', hs_description = xml_attr x ''description'',
         hs_handler = xml_attr x ''handler_servicehandler'', hs_url = xml_attr x ''header_canonicalurl''\<rparr>)))))"

section \<open>After a rejected credential\<close>

text \<open>
  \<open>silent_401 E\<close>: SAP's answer to a rejected logon is its HTML error page, or empty; it names no
  exception type that an operation could take for something else.
\<close>

definition silent_401 :: "'w env \<Rightarrow> bool" where
  "silent_401 E \<longleftrightarrow> (\<forall>data. ExcType (parseADTError E 401 data) = [])"

lemma silent_401_no_lock: "silent_401 E \<Longrightarrow> no_lock_401 E"
  by (simp add: silent_401_def no_lock_401_def)

lemma genuine_401_kind:
  assumes "silent_401 E" and "genuine E e" and "is_unauthorized e"
  shows "ClassifyError e = ErrorUnauthorized"
proof -
  from assms(2,3) obtain status data where
    e: "as_adt e = Some (parseADTError E status data)" "StatusCode (parseADTError E status data) = 401"
    by (auto simp: genuine_def is_unauthorized_def)
  then have "status = 401" by simp
  with e assms(1) show ?thesis
    by (simp add: ClassifyError_def silent_401_def classifyByExceptionType_def Let_def
        classifyByStatusCode_def refineLockConflict_def)
qed

lemma checkResponse_401: "checkResponse E resp = Some e \<Longrightarrow> rs_status resp = 401 \<Longrightarrow> is_unauthorized e"
  by (auto simp: checkResponse_def split: if_splits)

lemma logoutAfterCreate_stops: "stops401 unauth (logoutAfterCreate E objectType nm)"
  unfolding logoutAfterCreate_def
  by (rule stops401_bind [OF Logout_stops])
    (auto intro!: stops silent_bind_gets split: sum.splits simp: canRefresh_def is_unauthorized_def)

lemma createAnswer_401:
  "createAnswer E objectType endpoint resp = None \<Longrightarrow> rs_status resp \<noteq> 401"
  "createAnswer E objectType endpoint resp = Some e \<Longrightarrow> rs_status resp = 401 \<Longrightarrow> is_unauthorized e"
  by (auto simp: createAnswer_def Let_def checkResponse_def split: if_splits)

lemma createObject_stops [stops]:
  "stops401 unauth (createObject E objectType nm packageName description handlerClass transport)"
  unfolding createObject_def Let_def
  by (auto split: option.splits intro!: stops stops401_tryw_resp [OF doMutate_stops(1)] logoutAfterCreate_stops
      simp: createAnswer_401)

lemma CreateFunctionModule_stops [stops]:
  "stops401 unauth (CreateFunctionModule E groupName moduleName description packageName transport)"
  unfolding CreateFunctionModule_def by (auto intro!: stops doMutate_stops)

lemma CreatePackage_stops [stops]:
  "stops401 unauth (CreatePackage E nm description responsible softwareComponent transportLayer languageVersion transport)"
  unfolding CreatePackage_def
  by (auto split: option.splits intro!: stops stops401_tryw_resp [OF doMutate_stops(1)]
      dest: checkResponse_401 simp: checkResponse_def)

lemma GetHTTPService_stops [stops]: "stops401 unauth (GetHTTPService E nm)"
  unfolding GetHTTPService_def
  by (auto intro!: stops readWithAcceptFallback_stops)

lemma sendDelete_stops: "stops401 unauth (sendDelete E path etag)"
  unfolding sendDelete_def by (auto intro!: stops doMutate_stops)

lemma sendDelete_good: "honest E \<Longrightarrow> yields (errs (genuine E)) (sendDelete E path etag)"
  unfolding sendDelete_def
  by (rule yields_after_checked [OF checked_good [OF doMutate_good(1)]]) (auto intro!: yields_intro)

lemma deleteObject_stops:
  assumes "honest E" and "silent_401 E"
  shows "stops401 unauth (deleteObject E uri transport)"
proof -
  let ?P = "\<lambda>r. unauth r \<and> errs (genuine E) (r :: err + unit)"
  have first: "stops401 ?P (sendDelete E path etag)" for path etag
    by (rule stops401_yields [OF sendDelete_stops sendDelete_good [OF assms(1)]])
  have "stops401 unauth (retry_on (\<lambda>e. ClassifyError e = ErrorEtagMismatch \<and> isPackageURI uri)
          (sendDelete E path etag) (sendDelete E path []))" for path etag
    unfolding retry_on_def
  proof (rule stops401_bind [OF first])
    fix r :: "err + unit"
    show "stops401 unauth (case r of Inl e \<Rightarrow> if ClassifyError e = ErrorEtagMismatch \<and> isPackageURI uri
        then sendDelete E path [] else fail e | Inr x \<Rightarrow> ok x)"
      by (auto split: sum.splits intro!: stops sendDelete_stops)
    assume "unauth r \<and> errs (genuine E) r"
    then obtain e where "r = Inl e" "ClassifyError e = ErrorUnauthorized" "is_unauthorized e"
      using genuine_401_kind [OF assms(2)] by (cases r) auto
    then show "silent unauth (case r of Inl e \<Rightarrow> if ClassifyError e = ErrorEtagMismatch \<and> isPackageURI uri
        then sendDelete E path [] else fail e | Inr x \<Rightarrow> ok x)"
      by auto
  qed
  then show ?thesis
    unfolding deleteObject_def Let_def by (auto intro!: stops)
qed

lemma DeleteObject_stops:
  assumes "honest E" and "silent_401 E"
  shows "stops401 unauth (DeleteObject E uri lockHandle transport)"
proof -
  have "stops401 unauth (deleteAfter E uri transport unlockErr)" for unlockErr
    unfolding deleteAfter_def
    by (auto intro!: stops deleteObject_stops assms split: option.splits)
  then show ?thesis
    unfolding DeleteObject_def
    by (intro stops401_if stops401_bind [OF UnlockObject_stops]) (auto split: sum.splits intro!: stops)
qed

section \<open>What is created and deleted\<close>

lemma Logout_quiet [effects]: "quiet (Logout E)"
  unfolding Logout_def
  by (auto split: option.splits sum.splits prod.splits
      intro!: effects counts_bind_quiet [OF quiet_http_get] simp: Reset_def)

text \<open>The result of a create tells of the object: created, or an error that says it was.\<close>

definition reports_created :: "err + unit \<Rightarrow> bool" where
  "reports_created r = (case r of Inr _ \<Rightarrow> True | Inl e \<Rightarrow> is_sentinel ErrObjectCreated e)"

definition created_count :: "err + unit \<Rightarrow> nat \<Rightarrow> bool" where
  "created_count r n \<longleftrightarrow> n \<le> 1 \<and> (isInr r \<longrightarrow> n = 1) \<and> (n = 1 \<longrightarrow> reports_created r)"

lemma logoutAfterCreate_reports: "still reports_created (logoutAfterCreate E objectType nm)"
  unfolding logoutAfterCreate_def
  by (rule counts_bind_quiet [OF Logout_quiet])
    (auto split: sum.splits intro!: effects simp: reports_created_def)

lemma createAnswer_None: "createAnswer E objectType endpoint resp = None \<Longrightarrow> rs_status resp < 400"
  by (auto simp: createAnswer_def checkResponse_def Let_def split: if_splits)

lemma createAnswer_Some: "createAnswer E objectType endpoint resp = Some e \<Longrightarrow> \<not> rs_status resp < 400"
  by (auto simp: createAnswer_def checkResponse_def Let_def split: if_splits)

lemma createObject_counts:
  "counts created_count (createObject E objectType nm packageName description handlerClass transport)"
proof -
  have refused: "counts created_count (fail e)" for e
    by (rule counts_pure_sum) (simp add: created_count_def)
  have answered: "counts created_count (tryw w (doMutate E ''POST'' path body hs) (\<lambda>resp.
        case createAnswer E objectType endpoint resp of
          Some e \<Rightarrow> fail e | None \<Rightarrow> logoutAfterCreate E objectType nm))" for w path body hs endpoint
  proof (rule counts_tryw_once [OF doMutate_once(1)])
    fix resp assume "succeeded (Inr resp)"
    then have "createAnswer E objectType endpoint resp = None"
      using createAnswer_Some [of E objectType endpoint resp]
      by (cases "createAnswer E objectType endpoint resp") auto
    then show "counts (\<lambda>r' n'. created_count r' (Suc n')) (case createAnswer E objectType endpoint resp of
          Some e \<Rightarrow> fail e | None \<Rightarrow> logoutAfterCreate E objectType nm)"
      by (auto intro!: counts_weaken [OF logoutAfterCreate_reports] simp: created_count_def)
  next
    fix resp assume "\<not> succeeded (Inr resp)"
    then have "createAnswer E objectType endpoint resp \<noteq> None"
      using createAnswer_None [of E objectType endpoint resp] by auto
    then show "counts created_count (case createAnswer E objectType endpoint resp of
          Some e \<Rightarrow> fail e | None \<Rightarrow> logoutAfterCreate E objectType nm)"
      using refused by auto
  qed (auto simp: created_count_def)
  show ?thesis
    unfolding createObject_def Let_def
    using refused answered by (auto split: option.splits prod.splits)
qed

lemma sendDelete_once: "once isInr (sendDelete E path etag)"
  unfolding sendDelete_def by (auto intro!: once_then_ok checked_once doMutate_once)

lemma deleteObject_once: "once isInr (deleteObject E uri transport)"
  unfolding deleteObject_def Let_def
  by (auto intro!: effects counts_tryw_quiet retry_on_once sendDelete_once)

lemma FetchETag_nonempty: "yields (\<lambda>r. \<forall>etag. r = Inr etag \<longrightarrow> etag \<noteq> []) (FetchETag E uri)"
  unfolding FetchETag_def tryw_def Let_def
  by (auto split: sum.splits intro!: yields_bind_any yields_intro)

text \<open>A DELETE that names no ETag deletes whatever is there.\<close>

definition guarded_delete :: "request \<Rightarrow> bool" where
  "guarded_delete rq \<longleftrightarrow> rq_method rq \<noteq> ''DELETE'' \<or> header (rq_headers rq) ''If-Match'' \<noteq> []"

lemma guarded_preflight: "accepts_preflight E guarded_delete"
  by (simp add: accepts_preflight_def is_preflight_def guarded_delete_def)

lemma guarded_other: "meth \<noteq> ''DELETE'' \<Longrightarrow> accepts E guarded_delete meth path body hs"
  by (auto simp: accepts_def guarded_delete_def)

lemma not_base_if_match: "\<not> base_header ''If-Match''"
  by (simp add: base_header_def equal_fold_def to_lower_def lower_char_def is_upper_def)

lemma sendDelete_guarded: "etag \<noteq> [] \<Longrightarrow> emits guarded_delete (sendDelete E path etag)"
  unfolding sendDelete_def
  using not_base_if_match
  by (auto intro!: sends guarded_preflight
      simp: accepts_def carries_def guarded_delete_def opt_param_def)
    (simp_all add: header_def set_headers_def set_header_def equal_fold_def)

lemma emits_guarded_reads [sends]: "emits guarded_delete (FetchETag E uri)"
  unfolding FetchETag_def readWithAcceptFallback_def checked_def Let_def
  by (auto intro!: sends guarded_preflight guarded_other split: option.splits)

lemma deleteObject_guarded:
  assumes "\<not> isPackageURI uri"
  shows "emits guarded_delete (deleteObject E uri transport)"
  unfolding deleteObject_def Let_def retry_on_def
  by (rule emits_tryw_yields [OF emits_guarded_reads FetchETag_nonempty])
    (use assms in \<open>auto intro!: sends sendDelete_guarded split: sum.splits\<close>)

lemma DeleteObject_guarded:
  assumes "\<not> isPackageURI uri"
  shows "emits guarded_delete (DeleteObject E uri lockHandle transport)"
proof -
  have "emits guarded_delete (deleteAfter E uri transport unlockErr)" for unlockErr
    unfolding deleteAfter_def by (auto intro!: sends deleteObject_guarded assms)
  moreover have "emits guarded_delete (UnlockObject E uri lockHandle)"
    unfolding UnlockObject_def checked_def
    by (auto intro!: sends guarded_preflight guarded_other split: option.splits)
  ultimately show ?thesis
    unfolding DeleteObject_def by (auto intro!: sends split: sum.splits)
qed

section \<open>Properties\<close>




text \<open>
  \<open>DeleteObject\<close> stops at the first 401, be it the answer to the unlock, the read or the delete,
  as long as SAP names no exception type in a 401.
\<close>

theorem DeleteObject_stops_at_401:
  assumes "honest E" and "silent_401 E" and "oauth s = None"
  shows "\<exists>es. wire (snd (run_state (DeleteObject E uri lockHandle transport) s)) = es @ wire s
       \<and> (\<forall>ev \<in> set (tl es). \<not> is401 ev)
       \<and> (list_ex is401 es \<longrightarrow> unauth (fst (run_state (DeleteObject E uri lockHandle transport) s)))"
  by (rule stops401_shape [OF DeleteObject_stops [OF assms(1,2)] assms(3)])

lemma scripted_silent_401: "silent_401 scripted"
  by (simp add: silent_401_def parseADTError_def scripted_def Let_def parse_legacy_def
      parse_untagged_def plain_adt_error_def unmarshal_root_def)

theorem DeleteObject_stops_at_401_witness:
  "\<exists>es. wire (snd (run_state (DeleteObject scripted ''/u'' ''h'' []) (new_client [answer 200 [], answer 401 []])))
         = es @ wire (new_client [answer 200 [], answer 401 []])
       \<and> (\<forall>ev \<in> set (tl es). \<not> is401 ev)
       \<and> (list_ex is401 es \<longrightarrow> unauth (fst (run_state (DeleteObject scripted ''/u'' ''h'' [])
           (new_client [answer 200 [], answer 401 []]))))"
  by (rule DeleteObject_stops_at_401 [OF scripted_honest scripted_silent_401]) simp

text \<open>
  What can be created can be addressed and has a request body; what cannot is refused before
  anything is sent. The creatable types are the ones of the table without BDEF, SRVD and SRVB.
\<close>

theorem createObject_refuses:
  "creatableObjectTypes = filter (\<lambda>t. t \<notin> {''BDEF'', ''SRVB'', ''SRVD''}) supportedObjectTypes
   \<and> (if to_upper objectType \<in> set creatableObjectTypes then isInr (ObjectURI objectType nm)
      else snd (run_state (createObject E objectType nm packageName description handlerClass transport) s) = s
        \<and> \<not> isInr (fst (run_state (createObject E objectType nm packageName description handlerClass transport) s)))"
proof -
  have sorted_types: "creatableObjectTypes = filter (\<lambda>t. t \<notin> {''BDEF'', ''SRVB'', ''SRVD''}) supportedObjectTypes"
    by code_simp
  have creatable: "set creatableObjectTypes = set (map fst create_roots)"
    and supported: "set creatableObjectTypes \<subseteq> set (map fst objectTypeMap)" by code_simp+
  have body: "marshalCreateBody objectType nm packageName description handlerClass adtType = None"
    if "to_upper objectType \<notin> set creatableObjectTypes" for adtType
  proof -
    from that have "map_of create_roots (to_upper objectType) = None"
      by (simp add: creatable map_of_eq_None_iff)
    then show ?thesis unfolding marshalCreateBody_def Let_def by (simp only: option.case)
  qed
  show ?thesis
  proof (cases "to_upper objectType \<in> set creatableObjectTypes")
    case True
    with supported have "map_of objectTypeMap (to_upper objectType) \<noteq> None"
      by (auto simp: map_of_eq_None_iff)
    with True sorted_types show ?thesis by (auto simp: ObjectURI_def)
  next
    case False
    with sorted_types body show ?thesis by (auto simp: createObject_def split: option.splits)
  qed
qed

end
