(* ===== verification/Activate.thy ===== *)
theory Activate
  imports Objects
begin

text \<open>
  Activation (\<open>adt/activate.go\<close>, \<open>adt/adtxml/activation.go\<close>): the POST with its pre-audit, the second
  POST for the parts SAP lists, and the check of the outcome against the list of inactive objects.
\<close>

section \<open>URIs of one object\<close>

definition objectURIMatches :: "string \<Rightarrow> string \<Rightarrow> bool" where
  "objectURIMatches requested0 candidate0 =
     (let requested = normalizeObjectURI requested0; candidate = normalizeObjectURI candidate0 in
      if equal_fold requested candidate then True
      else
        (let (shorter, longer) =
           (if length candidate < length requested then (candidate, requested) else (requested, candidate))
         in length longer > length shorter \<and> equal_fold (take (length shorter) longer) shorter
            \<and> longer ! length shorter = CHR ''/''))"

definition sameOrNestedUnder :: "string \<Rightarrow> string \<Rightarrow> bool" where
  "sameOrNestedUnder uri0 root0 =
     (let uri = to_lower (normalizeObjectURI uri0); root = to_lower (normalizeObjectURI root0) in
      uri = root \<or> has_prefix uri (root @ ''/''))"

section \<open>Requests and answers\<close>

record activation_object =
  ao_uri :: string
  ao_type :: string
  ao_name :: string
  ao_parent :: string

record activation_message =
  am_uri :: string
  am_type :: string
  am_text :: string

record activation_result =
  ar_success :: bool
  ar_messages :: "activation_message list"

definition plainObject :: "string \<Rightarrow> activation_object" where
  "plainObject uri = \<lparr>ao_uri = uri, ao_type = [], ao_name = [], ao_parent = []\<rparr>"

definition activationBody :: "activation_object list \<Rightarrow> string" where
  "activationBody objects =
     xml_elem ''adtcore:objectReferences'' [(''xmlns:adtcore'', nsADTCore)]
       (concat (map (\<lambda>ob. xml_elem ''adtcore:objectReference''
          ((''adtcore:uri'', ao_uri ob) # opt_attr ''adtcore:type'' (ao_type ob)
            @ opt_attr ''adtcore:name'' (ao_name ob) @ opt_attr ''adtcore:parentUri'' (ao_parent ob)) []) objects))"

definition bool_text :: "bool \<Rightarrow> string" where
  "bool_text b = (if b then ''true'' else ''false'')"

definition sendActivation :: "'w env \<Rightarrow> activation_object list \<Rightarrow> bool \<Rightarrow> ('w, string) go" where
  "sendActivation E objects preaudit =
     tryE (checked E (wrapf ''ActivateObjects: '') (\<lambda>e. e) (doMutate E ''POST''
        (''/sap/bc/adt/activation?method=activate&preauditRequested='' @ bool_text preaudit)
        (Some (xml_header @ activationBody objects))
        [(''Content-Type'', contentTypeXML), (''Accept'', ''application/xml'')])) (\<lambda>resp. ok (rs_body resp))"

text \<open>The pre-audit answer: the references of its entries, an entry without one left out.\<close>

definition nsInactiveCts :: string where
  "nsInactiveCts = ''http://www.sap.com/abapxml/inactiveCtsObjects''"

definition preauditRef :: "xml \<Rightarrow> activation_object option" where
  "preauditRef entry =
     (let refs = concat (map (kids_named_ns nsInactiveCts ''ref'') (kids_named_ns nsInactiveCts ''object'' entry)) in
      if refs = [] then None
      else (let ref = last refs in
        Some \<lparr>ao_uri = xml_attr_ns nsADTCore ref ''uri'', ao_type = xml_attr_ns nsADTCore ref ''type'',
          ao_name = xml_attr_ns nsADTCore ref ''name'', ao_parent = xml_attr_ns nsADTCore ref ''parentUri''\<rparr>))"

definition preauditEntries :: "'w env \<Rightarrow> string \<Rightarrow> activation_object option list option" where
  "preauditEntries E body =
     (case unmarshal_root E ''inactiveObjects'' body of
        Inl _ \<Rightarrow> None
      | Inr x \<Rightarrow> if xspace x \<noteq> nsInactiveCts then None
               else Some (map preauditRef (kids_named_ns nsInactiveCts ''entry'' x)))"

definition belongsToRequested :: "activation_object list \<Rightarrow> activation_object \<Rightarrow> bool" where
  "belongsToRequested requested ref =
     list_ex (\<lambda>r. sameOrNestedUnder (ao_uri ref) (ao_uri r)
       \<or> (ao_parent ref \<noteq> [] \<and> sameOrNestedUnder (ao_parent ref) (ao_uri r))) requested"

definition sameURI :: "string \<Rightarrow> string \<Rightarrow> bool" where
  "sameURI u v = equal_fold (trim_suffix u ''/'') (trim_suffix v ''/'')"

fun indexOfURI :: "activation_object list \<Rightarrow> string \<Rightarrow> nat option" where
  "indexOfURI [] uri = None"
| "indexOfURI (ob # obs) uri = (if sameURI (ao_uri ob) uri then Some 0 else map_option Suc (indexOfURI obs uri))"

text \<open>One turn of the loop of \<open>preauditFollowUp\<close>.\<close>

definition addPreaudit :: "activation_object list \<Rightarrow> activation_object list \<Rightarrow> activation_object option
    \<Rightarrow> activation_object list" where
  "addPreaudit requested followUp entry =
     (case entry of
        None \<Rightarrow> followUp
      | Some ref \<Rightarrow>
          if ao_uri ref = [] \<or> \<not> belongsToRequested requested ref then followUp
          else (case indexOfURI followUp (ao_uri ref) of
              Some i \<Rightarrow> followUp[i := ref]
            | None \<Rightarrow> followUp @ [ref]))"

text \<open>\<open>None\<close> is Go's nil slice: no pre-audit answer, or nothing requested.\<close>

definition preauditFollowUp :: "'w env \<Rightarrow> activation_object list \<Rightarrow> string \<Rightarrow> activation_object list option" where
  "preauditFollowUp E requested body =
     (case preauditEntries E body of
        None \<Rightarrow> None
      | Some entries \<Rightarrow>
          (let followUp = foldl (addPreaudit requested) requested entries in
           if followUp = [] then None else Some followUp))"

definition activationResult :: "'w env \<Rightarrow> string \<Rightarrow> activation_result" where
  "activationResult E data =
     (let msgs = (case unmarshal_root E ''messages'' data of
          Inl _ \<Rightarrow> []
        | Inr x \<Rightarrow> map (\<lambda>m. \<lparr>am_uri = xml_attr m ''href'', am_type = xml_attr m ''type'',
            am_text = (case last_kid ''shortText'' m of None \<Rightarrow> [] | Some st \<Rightarrow> kid_text ''txt'' st)\<rparr>)
            (kids_named ''msg'' x)) in
      \<lparr>ar_success = list_all (\<lambda>m. am_type m \<noteq> ''E'') msgs, ar_messages = msgs\<rparr>)"

definition postActivation :: "'w env \<Rightarrow> string list \<Rightarrow> ('w, activation_result) go" where
  "postActivation E uris =
     (let objects = map plainObject uris in
      tryE (sendActivation E objects True) (\<lambda>data.
        case preauditFollowUp E objects data of
          None \<Rightarrow> ok (activationResult E data)
        | Some followUp \<Rightarrow>
            tryE (sendActivation E followUp False) (\<lambda>data2. ok (activationResult E data2))))"

definition inactiveObject :: "xml \<Rightarrow> object_info" where
  "inactiveObject entry =
     (let ref = (case last_kid ''object'' entry of None \<Rightarrow> Elem ''ref'' [] [] []
          | Some ob \<Rightarrow> (case last_kid ''ref'' ob of None \<Rightarrow> Elem ''ref'' [] [] [] | Some r \<Rightarrow> r)) in
      \<lparr>oi_uri = xml_attr ref ''uri'', oi_type = xml_attr ref ''type'', oi_name = xml_attr ref ''name'',
       oi_description = [], oi_package = xml_attr ref ''packageName'', oi_abap_version = [], oi_package_version = []\<rparr>)"

definition GetInactiveObjects :: "'w env \<Rightarrow> ('w, object_info list) go" where
  "GetInactiveObjects E =
     tryE (checked E (wrapf ''GetInactiveObjects: '') (\<lambda>e. e) (doRead E ''/sap/bc/adt/activation/inactiveobjects''
        [(''Accept'', ''application/vnd.sap.adt.inactivectsobjects.v1+xml'')])) (\<lambda>resp.
     tryw (wrapf ''GetInactiveObjects reading body: '') (of_sum (read_all resp)) (\<lambda>data.
     tryw (wrapf ''GetInactiveObjects parsing: '') (of_sum (unmarshal_any E data)) (\<lambda>x.
       ok (filter (\<lambda>ob. oi_name ob \<noteq> []) (map inactiveObject (kids_named ''entry'' x))))))"

definition stillInactiveURIs :: "string list \<Rightarrow> object_info list \<Rightarrow> string list" where
  "stillInactiveURIs uris inactive =
     filter (\<lambda>uri. list_ex (\<lambda>ob. objectURIMatches uri (oi_uri ob)) inactive) uris"

definition silentlyInactive :: "string \<Rightarrow> activation_message" where
  "silentlyInactive uri = \<lparr>am_uri = uri, am_type = ''E'',
     am_text = ''activation reported success but the object is still listed as inactive (SAP silently did not activate it)''\<rparr>"

text \<open>What the list of inactive objects makes of an activation that looked successful.\<close>

definition verifyActivation :: "string list \<Rightarrow> activation_result \<Rightarrow> object_info list \<Rightarrow> activation_result" where
  "verifyActivation uris result inactive =
     (let still = stillInactiveURIs uris inactive in
      if still = [] then result
      else \<lparr>ar_success = False, ar_messages = ar_messages result @ map silentlyInactive still\<rparr>)"

definition ActivateObjects :: "'w env \<Rightarrow> string list \<Rightarrow> ('w, activation_result) go" where
  "ActivateObjects E uris =
     tryE (postActivation E uris) (\<lambda>result.
       if \<not> ar_success result then ok result
       else State_Monad.bind (GetInactiveObjects E) (\<lambda>r. case r of
           Inl _ \<Rightarrow> ok result
         | Inr inactive \<Rightarrow> ok (verifyActivation uris result inactive)))"

section \<open>After a rejected credential\<close>

lemma sendActivation_stops [stops]: "stops401 unauth (sendActivation E objects preaudit)"
  unfolding sendActivation_def by (auto intro!: stops doMutate_stops)

lemma postActivation_stops [stops]: "stops401 unauth (postActivation E uris)"
  unfolding postActivation_def Let_def by (auto split: option.splits intro!: stops)

lemma GetInactiveObjects_stops [stops]: "stops401 unauth (GetInactiveObjects E)"
  unfolding GetInactiveObjects_def by (auto intro!: stops doRead_stops)

lemma ActivateObjects_halts: "stops401 (\<lambda>_. True) (ActivateObjects E uris)"
  unfolding ActivateObjects_def
  by (rule stops401_tryw_gen [OF postActivation_stops])
    (auto intro!: stops stops401_bind [OF GetInactiveObjects_stops] split: sum.splits)

section \<open>Matching URIs\<close>

lemma to_lower_take: "to_lower (take n s) = take n (to_lower s)"
  by (simp add: to_lower_def take_map)

lemma lower_slash [simp]: "lower_char c = CHR ''/'' \<longleftrightarrow> c = CHR ''/''"
  by (auto simp: lower_char_def is_upper_def split: if_splits dest: arg_cong [of _ _ "of_char :: char \<Rightarrow> nat"])

lemma lower_char_slash [simp]: "lower_char (CHR ''/'') = CHR ''/''"
  by (simp add: lower_char_def is_upper_def)

lemma nested_prefix:
  "(length b > length a \<and> equal_fold (take (length a) b) a \<and> b ! length a = CHR ''/'')
   \<longleftrightarrow> has_prefix (to_lower b) (to_lower a @ ''/'')"
proof
  assume l: "length b > length a \<and> equal_fold (take (length a) b) a \<and> b ! length a = CHR ''/''"
  then have "to_lower b = take (length a) (to_lower b) @ to_lower b ! length a # drop (Suc (length a)) (to_lower b)"
    by (simp add: id_take_nth_drop)
  with l have "to_lower b = (to_lower a @ ''/'') @ drop (Suc (length a)) (to_lower b)"
    by (simp add: equal_fold_def to_lower_take) (simp add: to_lower_def)
  then show "has_prefix (to_lower b) (to_lower a @ ''/'')" by (metis has_prefix_iff)
next
  assume "has_prefix (to_lower b) (to_lower a @ ''/'')"
  then obtain t where t: "to_lower b = to_lower a @ CHR ''/'' # t" by (auto simp: has_prefix_iff)
  from arg_cong [OF t, of length] have len: "length b > length a" by simp
  from t have "take (length a) (to_lower b) = to_lower a" by (simp add: take_append [of "length a" "to_lower a"])
  then have "equal_fold (take (length a) b) a" by (simp add: equal_fold_def to_lower_take)
  moreover from t have "to_lower b ! length a = CHR ''/''"
    using nth_append_length [of "to_lower a" "CHR ''/''" t] by simp
  with len have "lower_char (b ! length a) = CHR ''/''" by (simp add: to_lower_def)
  ultimately show "length b > length a \<and> equal_fold (take (length a) b) a \<and> b ! length a = CHR ''/''"
    using len by simp
qed

lemma objectURIMatches_nested:
  "objectURIMatches u v \<longleftrightarrow> sameOrNestedUnder u v \<or> sameOrNestedUnder v u"
proof -
  let ?a = "normalizeObjectURI u" and ?b = "normalizeObjectURI v"
  have short: "\<not> has_prefix (to_lower y) (to_lower x @ ''/'')" if "length y \<le> length x" for x y
    using nested_prefix [where a = x and b = y] that by auto
  show ?thesis
  proof (cases "length ?b < length ?a")
    case True
    then show ?thesis
      using nested_prefix [where a = ?b and b = ?a] short [where y = ?b and x = ?a]
      by (auto simp: objectURIMatches_def sameOrNestedUnder_def Let_def equal_fold_def)
  next
    case False
    then show ?thesis
      using nested_prefix [where a = ?a and b = ?b] short [where y = ?a and x = ?b]
      by (auto simp: objectURIMatches_def sameOrNestedUnder_def Let_def equal_fold_def)
  qed
qed

section \<open>The follow-up of a pre-audit\<close>

text \<open>
  What \<open>preauditFollowUp\<close> builds, entry by entry: the requested objects stay at their places, every
  object sent is one of them or belongs to them, and no object is sent twice.
\<close>

definition follow_up_ok :: "activation_object list \<Rightarrow> activation_object list \<Rightarrow> bool" where
  "follow_up_ok requested fs \<longleftrightarrow>
     length requested \<le> length fs
     \<and> (\<forall>i < length requested. sameURI (ao_uri (fs ! i)) (ao_uri (requested ! i)))
     \<and> (\<forall>ob \<in> set fs. ob \<in> set requested \<or> belongsToRequested requested ob)
     \<and> (\<forall>i < length fs. \<forall>j < i. sameURI (ao_uri (fs ! j)) (ao_uri (fs ! i)) \<longrightarrow> i < length requested)"

lemma sameURI_refl [simp]: "sameURI u u"
  by (simp add: sameURI_def equal_fold_def)

lemma sameURI_trans: "sameURI u v \<Longrightarrow> sameURI v w \<Longrightarrow> sameURI u w"
  by (simp add: sameURI_def equal_fold_def)

lemma sameURI_sym: "sameURI u v \<Longrightarrow> sameURI v u"
  by (simp add: sameURI_def equal_fold_def)

lemma indexOfURI_Some:
  "indexOfURI obs uri = Some i \<Longrightarrow> i < length obs \<and> sameURI (ao_uri (obs ! i)) uri"
  by (induction obs arbitrary: i) (auto split: if_splits)

lemma indexOfURI_None: "indexOfURI obs uri = None \<Longrightarrow> j < length obs \<Longrightarrow> \<not> sameURI (ao_uri (obs ! j)) uri"
proof (induction obs arbitrary: j)
  case (Cons ob obs)
  then show ?case by (cases j) (auto split: if_splits)
qed simp

lemma follow_up_start: "follow_up_ok requested requested"
  by (simp add: follow_up_ok_def)

lemma follow_up_replace:
  assumes ok: "follow_up_ok requested fs" and i: "i < length fs" "sameURI (ao_uri (fs ! i)) (ao_uri ref)"
    and ref: "belongsToRequested requested ref"
  shows "follow_up_ok requested (fs[i := ref])"
proof -
  have uri: "sameURI (ao_uri (fs[i := ref] ! k)) (ao_uri (fs ! k))" if "k < length fs" for k
    using i that sameURI_sym by (cases "k = i") auto
  have "sameURI (ao_uri (fs[i := ref] ! k)) (ao_uri (requested ! k))" if "k < length requested" for k
    using ok uri [of k] sameURI_trans that unfolding follow_up_ok_def by fastforce
  moreover have "ob \<in> set requested \<or> belongsToRequested requested ob" if "ob \<in> set (fs[i := ref])" for ob
    using ok ref that set_update_subset_insert [of fs i ref] by (auto simp: follow_up_ok_def)
  moreover have "k < length requested"
    if "k < length fs" "j < k" "sameURI (ao_uri (fs[i := ref] ! j)) (ao_uri (fs[i := ref] ! k))" for j k
  proof -
    have "sameURI (ao_uri (fs ! j)) (ao_uri (fs ! k))"
      using uri [of j] uri [of k] that sameURI_trans sameURI_sym by (meson order.strict_trans)
    with ok that show ?thesis by (auto simp: follow_up_ok_def)
  qed
  ultimately show ?thesis using ok by (simp add: follow_up_ok_def)
qed

lemma follow_up_append:
  assumes ok: "follow_up_ok requested fs" and new: "\<And>j. j < length fs \<Longrightarrow> \<not> sameURI (ao_uri (fs ! j)) (ao_uri ref)"
    and ref: "belongsToRequested requested ref"
  shows "follow_up_ok requested (fs @ [ref])"
  using assms unfolding follow_up_ok_def
  by (auto simp: nth_append less_Suc_eq)

lemma follow_up_add: "follow_up_ok requested fs \<Longrightarrow> follow_up_ok requested (addPreaudit requested fs entry)"
  unfolding addPreaudit_def
  by (auto split: option.splits intro: follow_up_replace follow_up_append
      dest: indexOfURI_Some indexOfURI_None)

lemma follow_up_fold:
  "follow_up_ok requested fs \<Longrightarrow> follow_up_ok requested (foldl (addPreaudit requested) fs entries)"
  by (induction entries arbitrary: fs) (auto intro: follow_up_add)

section \<open>Properties\<close>

text \<open>
  Two URIs match exactly when one of them, taken case-insensitively and without query, fragment
  and trailing slash, is the other one or a path below it, so the check is symmetric.
\<close>

theorem objectURIMatches_is_nesting:
  "objectURIMatches u v \<longleftrightarrow> sameOrNestedUnder u v \<or> sameOrNestedUnder v u"
  by (rule objectURIMatches_nested)


definition preaudit_example :: xml where
  "preaudit_example = Elem ''inactiveObjects'' nsInactiveCts []
     [Elem ''entry'' nsInactiveCts [] [Elem ''object'' nsInactiveCts []
        [Elem ''ref'' nsInactiveCts [(''uri'', nsADTCore, ''/c/zcl#type=CLAS;name=M''), (''parentUri'', nsADTCore, ''/C/ZCL'')] []]],
      Elem ''entry'' nsInactiveCts [] [Elem ''object'' nsInactiveCts []
        [Elem ''ref'' nsInactiveCts [(''uri'', nsADTCore, ''/c/zcl''), (''name'', nsADTCore, ''ZCL'')] []]],
      Elem ''entry'' nsInactiveCts [] [Elem ''object'' nsInactiveCts []
        [Elem ''ref'' nsInactiveCts [(''uri'', nsADTCore, ''/c/zcl2'')] []]]]"


text \<open>
  C28. An activation that is reported as successful had no error message in SAP's answer, and none of
  the requested objects, nor a part or an owner of one, is on the list of inactive objects read
  after it, if that list could be read.
\<close>

theorem ActivateObjects_verified:
  assumes "run_state (ActivateObjects E uris) s = (Inr r, s')" and "ar_success r"
  shows "\<exists>s1. run_state (postActivation E uris) s = (Inr r, s1)
    \<and> list_all (\<lambda>m. am_type m \<noteq> ''E'') (ar_messages r)
    \<and> (case run_state (GetInactiveObjects E) s1 of
        (Inl _, s2) \<Rightarrow> s' = s2
      | (Inr inactive, s2) \<Rightarrow> s' = s2 \<and> list_all (\<lambda>uri. list_all (\<lambda>ob.
          \<not> sameOrNestedUnder uri (oi_uri ob) \<and> \<not> sameOrNestedUnder (oi_uri ob) uri) inactive) uris)"
proof -
  have messages: "list_all (\<lambda>m. am_type m \<noteq> ''E'') (ar_messages r1)"
    if "run_state (postActivation E uris) s = (Inr r1, s1)" "ar_success r1" for r1 s1
  proof -
    have "yields (\<lambda>r. case r of Inl _ \<Rightarrow> True
        | Inr r \<Rightarrow> ar_success r = list_all (\<lambda>m. am_type m \<noteq> ''E'') (ar_messages r)) (postActivation E uris)"
      unfolding postActivation_def Let_def tryw_def
      by (auto split: option.splits sum.splits intro!: yields_bind_any yields_intro
          simp: activationResult_def Let_def)
    from yieldsD [OF this that(1)] that(2) show ?thesis by simp
  qed
  obtain r1 s1 where post: "run_state (postActivation E uris) s = (Inr r1, s1)" "ar_success r1 \<or> (r1 = r \<and> s' = s1)"
    using assms(1) by (auto simp: ActivateObjects_def run_tryw split: prod.splits sum.splits if_splits)
  with assms(2) have "ar_success r1" by auto
  obtain r2 s2 where list: "run_state (GetInactiveObjects E) s1 = (r2, s2)" by fastforce
  with assms(1) post \<open>ar_success r1\<close> have
    "s' = s2" "r = (case r2 of Inl _ \<Rightarrow> r1 | Inr inactive \<Rightarrow> verifyActivation uris r1 inactive)"
    by (auto simp: ActivateObjects_def run_tryw split: sum.splits)
  with assms(2) list post messages [OF post(1) \<open>ar_success r1\<close>] show ?thesis
    by (intro exI [of _ s1]) (auto simp: verifyActivation_def Let_def stillInactiveURIs_def filter_empty_conv
        objectURIMatches_nested list_all_iff list_ex_iff split: sum.splits if_splits)
qed

abbreviation activation_world :: "response list cl" where
  "activation_world \<equiv> new_client [answer 200 [], answer 200 [], answer 200 []]"

lemma activation_example:
  "fst (run_state (ActivateObjects scripted [''/u'']) activation_world) = Inr \<lparr>ar_success = True, ar_messages = []\<rparr>"
  by code_simp

theorem ActivateObjects_verified_witness:
  "\<exists>s1. run_state (postActivation scripted [''/u'']) activation_world = (Inr \<lparr>ar_success = True, ar_messages = []\<rparr>, s1)"
  using ActivateObjects_verified [of scripted "[''/u'']" activation_world "\<lparr>ar_success = True, ar_messages = []\<rparr>"
      "snd (run_state (ActivateObjects scripted [''/u'']) activation_world)"] activation_example
  by (auto simp: prod_eq_iff)

end
