(* ===== verification/SqlText.thy ===== *)
theory SqlText
  imports Utf8
begin

text \<open>
  ABAP SQL as text (\<open>adt/abapsql.go\<close>, \<open>adt/query_wrap.go\<close>): identifiers and literals, the
  pagination clause with its meaning, and the re-wrapping of long lines for the data preview.
\<close>

section \<open>Words of a SQL line\<close>

abbreviation SP :: char where "SP \<equiv> CHR '' ''"

definition flush :: "rune list \<Rightarrow> rune list list" where
  "flush cur = (if cur = [] then [] else [cur])"

text \<open>
  The loop of \<open>sqlWords\<close>: \<open>cur\<close> is the word under construction, \<open>q\<close> the delimiter of the open
  literal or template.
\<close>

fun sql_scan :: "rune list \<Rightarrow> char option \<Rightarrow> rune list \<Rightarrow> rune list list \<times> bool" where
  "sql_scan cur q [] = (flush cur, q \<noteq> None)"
| "sql_scan cur q (r # rs) =
     (if q = Some (CHR ''|'') \<and> r = [BSL] \<and> rs \<noteq> [] then
        (case rs of [] \<Rightarrow> (flush cur, True) | r2 # rs2 \<Rightarrow> sql_scan (cur @ [r, r2]) q rs2)
      else if q \<noteq> None then
        sql_scan (cur @ [r]) (if r = [the q] then None else q) rs
      else if r = [APOS] \<or> r = [CHR 0x60] \<or> r = [CHR ''|''] then
        sql_scan (cur @ [r]) (Some (hd r)) rs
      else if r = [QUOT] then (flush cur, False)
      else if r = [SP] \<or> r = [TAB] then
        (case sql_scan [] None rs of (ws, u) \<Rightarrow> (flush cur @ ws, u))
      else sql_scan (cur @ [r]) None rs)"

definition sqlWords :: "rune list \<Rightarrow> rune list list \<times> bool" where
  "sqlWords line = sql_scan [] None line"

section \<open>Re-wrapping\<close>

definition dataPreviewMaxLine :: nat where "dataPreviewMaxLine = 255"
definition dataPreviewWrapWidth :: nat where "dataPreviewWrapWidth = 200"

definition starts_star :: "rune list \<Rightarrow> bool" where
  "starts_star w \<longleftrightarrow> take 1 w = [''*'']"

text \<open>A word that starts with \<open>*\<close> stays with the word before it.\<close>

fun merge_stars :: "rune list list \<Rightarrow> rune list list \<Rightarrow> rune list list" where
  "merge_stars acc [] = acc"
| "merge_stars acc (w # ws) =
     (if starts_star w \<and> acc \<noteq> [] then merge_stars (butlast acc @ [last acc @ [[SP]] @ w]) ws
      else merge_stars (acc @ [w]) ws)"

text \<open>The greedy loop: \<open>cur\<close> is the line under construction, \<open>n\<close> the words on it.\<close>

fun fill_lines :: "rune list \<Rightarrow> nat \<Rightarrow> rune list list \<Rightarrow> rune list list" where
  "fill_lines cur n [] = (if n > 0 then [cur] else [])"
| "fill_lines cur n (w # ws) =
     (if n > 0 \<and> length cur + 1 + length w > dataPreviewWrapWidth then
        cur # fill_lines ([[SP]] @ w) 1 ws
      else if n > 0 then fill_lines (cur @ [[SP]] @ w) (Suc n) ws
      else fill_lines (cur @ w) (Suc n) ws)"

definition tokenPreview :: "rune list \<Rightarrow> string" where
  "tokenPreview s = (if length s \<le> 30 then concat s
     else concat (take 30 s) @ [CHR 0xE2, CHR 0x80, CHR 0xA6])"

definition trim_left_sp :: "rune list \<Rightarrow> rune list" where
  "trim_left_sp l = dropWhile (\<lambda>r. r = [SP]) l"

definition wrapSQLLine :: "rune list \<Rightarrow> string + rune list list" where
  "wrapSQLLine line =
     (if starts_star line then Inr []
      else
        (let (raw, unterminated) = sqlWords line;
             words = merge_stars [] raw;
             indent = (if line \<noteq> [] \<and> (hd line = [SP] \<or> hd line = [TAB]) then [[SP]] else []);
             out = fill_lines indent 0 words
         in case find (\<lambda>l. length l > dataPreviewMaxLine) out of
              None \<Rightarrow> Inr out
            | Some l \<Rightarrow>
                if unterminated then
                  Inl (''the line ends inside an unterminated string literal starting with ''
                       @ quoted (tokenPreview (last raw)))
                else
                  (let token = trim_left_sp l in
                   Inl (''a token of '' @ itoa (int (length token)) @ '' characters cannot be split (''
                        @ quoted (tokenPreview token) @ ''); the ADT data preview truncates SQL lines after ''
                        @ itoa (int dataPreviewMaxLine) @ '' characters''))))"

fun wrap_lines :: "nat \<Rightarrow> string list \<Rightarrow> string + string list" where
  "wrap_lines i [] = Inr []"
| "wrap_lines i (l # ls) =
     (let line = trim_suffix l [CR] in
      if rune_count line \<le> dataPreviewMaxLine then
        (case wrap_lines (Suc i) ls of Inl e \<Rightarrow> Inl e | Inr out \<Rightarrow> Inr (line # out))
      else
        (case wrapSQLLine (decode line) of
           Inl e \<Rightarrow> Inl (''line '' @ itoa (int (Suc i)) @ '': '' @ e)
         | Inr wrapped \<Rightarrow>
             (case wrap_lines (Suc i) ls of
                Inl e \<Rightarrow> Inl e
              | Inr out \<Rightarrow> Inr (map concat wrapped @ out))))"

definition wrapLongSQLLines :: "string \<Rightarrow> string + string" where
  "wrapLongSQLLines sql =
     (let lines = split_on NL sql in
      if list_all (\<lambda>l. rune_count (trim_suffix l [CR]) \<le> dataPreviewMaxLine) lines then Inr sql
      else case wrap_lines 0 lines of
        Inl e \<Rightarrow> Inl e
      | Inr out \<Rightarrow> Inr (join [NL] out))"

section \<open>Identifiers, literals and the pagination clause\<close>

definition identifier_char :: "char \<Rightarrow> bool" where
  "identifier_char c \<longleftrightarrow> is_upper c \<or> is_lower c \<or> is_digit c \<or> c \<in> {CHR ''/'', CHR ''_'', CHR ''#''}"

definition identifierReString :: string where
  "identifierReString = ''^[A-Za-z0-9/_#]+$''"

definition validateIdentifier :: "string \<Rightarrow> string option" where
  "validateIdentifier name =
     (if name = [] then Some ''identifier must not be empty''
      else if \<not> list_all identifier_char name then
        Some (''invalid identifier '' @ quoted name @ '': must match '' @ identifierReString)
      else None)"

definition FilterNonMandtKeys :: "string list \<Rightarrow> string list" where
  "FilterNonMandtKeys keys = filter (\<lambda>k. \<not> equal_fold k ''MANDT'') keys"

definition EscapeValue :: "string \<Rightarrow> string" where
  "EscapeValue v = replace_all v [APOS] [APOS, APOS]"

type_synonym key_types = "(string \<times> string) list"

definition keyOperand :: "string \<Rightarrow> key_types \<Rightarrow> string" where
  "keyOperand key types =
     (if equal_fold (case map_of types key of None \<Rightarrow> [] | Some t \<Rightarrow> t) ''TIMS''
      then ''CAST( '' @ key @ '' AS CHAR( 6 ) )'' else key)"

definition literal :: "string \<Rightarrow> string" where
  "literal v = APOS # EscapeValue v @ [APOS]"

definition pagination_parts :: "string list \<Rightarrow> string list \<Rightarrow> key_types \<Rightarrow> nat \<Rightarrow> string list" where
  "pagination_parts keys vals types i =
     map (\<lambda>j. keyOperand (keys ! j) types @ '' = '' @ literal (vals ! j)) [0..<i]
     @ [keyOperand (keys ! i) types @ '' > '' @ literal (vals ! i)]"

definition buildPaginationWhereTyped :: "string list \<Rightarrow> string list \<Rightarrow> key_types \<Rightarrow> string" where
  "buildPaginationWhereTyped keys vals types =
     (if keys = [] \<or> length keys \<noteq> length vals then []
      else join '' OR ''
        (map (\<lambda>i. let parts = pagination_parts keys vals types i in
                  if length parts = 1 then hd parts else ''( '' @ join '' AND '' parts @ '' )'')
          [0..<length keys]))"

definition buildPaginationWhere :: "string list \<Rightarrow> string list \<Rightarrow> string" where
  "buildPaginationWhere keys vals = buildPaginationWhereTyped keys vals []"

fun first_invalid :: "string \<Rightarrow> string list \<Rightarrow> string option" where
  "first_invalid what [] = None"
| "first_invalid what (k # ks) =
     (case validateIdentifier k of Some e \<Rightarrow> Some (what @ e) | None \<Rightarrow> first_invalid what ks)"

definition BuildExportSQLTyped ::
    "string \<Rightarrow> string list \<Rightarrow> string list \<Rightarrow> string list \<Rightarrow> key_types \<Rightarrow> string + string" where
  "BuildExportSQLTyped table allKeys paginateKeys lastValues types =
     (case validateIdentifier table of
        Some e \<Rightarrow> Inl (''invalid table name: '' @ e)
      | None \<Rightarrow>
     (case first_invalid ''invalid key column: '' allKeys of
        Some e \<Rightarrow> Inl e
      | None \<Rightarrow>
     (case first_invalid ''invalid pagination key: '' paginateKeys of
        Some e \<Rightarrow> Inl e
      | None \<Rightarrow>
        (let w = (if lastValues \<noteq> [] \<and> paginateKeys \<noteq> []
                  then buildPaginationWhereTyped paginateKeys lastValues types else [])
         in Inr (''SELECT * FROM '' @ table
                 @ (if w \<noteq> [] then '' WHERE '' @ w else [])
                 @ (if allKeys \<noteq> [] then '' ORDER BY '' @ join '', '' allKeys else []))))))"

definition BuildExportSQL ::
    "string \<Rightarrow> string list \<Rightarrow> string list \<Rightarrow> string list \<Rightarrow> string + string" where
  "BuildExportSQL table allKeys paginateKeys lastValues =
     BuildExportSQLTyped table allKeys paginateKeys lastValues []"

section \<open>The end of a line\<close>

lemma rune_count_trim_CR: "rune_count (trim_suffix s [CR]) \<le> rune_count s"
proof (cases "has_suffix s [CR]")
  case True
  then obtain t where "s = t @ [CR]" by (auto simp: has_suffix_iff)
  moreover have "in_range 0 127 CR" by (simp add: in_range_def)
  ultimately show ?thesis by (simp add: rune_count_def decode_snoc_ascii)
qed (simp add: trim_suffix_def)

section \<open>What wrapping does to the words\<close>

text \<open>
  \<open>inword q w\<close> runs the literal states over \<open>w\<close> from state \<open>q\<close>: \<open>None\<close> when the word would end
  inside \<open>w\<close>, otherwise the state behind it (a backslash still to be completed is the state
  \<open>Some BSL\<close>).
\<close>

fun inword :: "char option \<Rightarrow> rune list \<Rightarrow> char option option" where
  "inword q [] = Some q"
| "inword q (r # rs) =
     (if q = Some (CHR ''|'') \<and> r = [BSL] then
        (case rs of [] \<Rightarrow> Some (Some BSL) | r2 # rs2 \<Rightarrow> inword q rs2)
      else if q \<noteq> None then inword (if r = [the q] then None else q) rs
      else if r = [APOS] \<or> r = [CHR 0x60] \<or> r = [CHR ''|''] then inword (Some (hd r)) rs
      else if r = [QUOT] \<or> r = [SP] \<or> r = [TAB] then None
      else inword None rs)"

lemma inword_esc [simp]:
  "inword (Some (CHR ''|'')) ([BSL] # r # rs) = inword (Some (CHR ''|'')) rs"
  by simp

lemma inword_quoted:
  "\<not> (d = CHR ''|'' \<and> r = [BSL]) \<Longrightarrow> inword (Some d) (r # rs) = inword (if r = [d] then None else Some d) rs"
  by auto

lemma scan_esc:
  "sql_scan cur (Some (CHR ''|'')) ([BSL] # r # rs) = sql_scan (cur @ [[BSL], r]) (Some (CHR ''|'')) rs"
  by simp

lemma scan_quoted:
  "\<not> (d = CHR ''|'' \<and> r = [BSL]) \<Longrightarrow>
     sql_scan cur (Some d) (r # rs) = sql_scan (cur @ [r]) (if r = [d] then None else Some d) rs"
  by auto

definition opens :: "rune \<Rightarrow> bool" where
  "opens r \<longleftrightarrow> r = [APOS] \<or> r = [CHR 0x60] \<or> r = [CHR ''|'']"

definition ends_word :: "rune \<Rightarrow> bool" where
  "ends_word r \<longleftrightarrow> r = [QUOT] \<or> r = [SP] \<or> r = [TAB]"

lemma inword_plain:
  "inword None (r # rs) = (if opens r then inword (Some (hd r)) rs else if ends_word r then None
     else inword None rs)"
  by (simp add: opens_def ends_word_def)

lemma scan_plain:
  "opens r \<Longrightarrow> sql_scan cur None (r # rs) = sql_scan (cur @ [r]) (Some (hd r)) rs"
  "\<not> opens r \<Longrightarrow> \<not> ends_word r \<Longrightarrow> sql_scan cur None (r # rs) = sql_scan (cur @ [r]) None rs"
  by (auto simp: opens_def ends_word_def)

declare inword.simps(2) [simp del] sql_scan.simps(2) [simp del]

text \<open>The cases of one step: escape, inside a literal, outside.\<close>

lemma inword_cases:
  obtains "q = Some (CHR ''|'')" "r = [BSL]" | d where "q = Some d" "\<not> (d = CHR ''|'' \<and> r = [BSL])"
    | "q = None"
  by (cases q) auto

lemma inword_induct [case_names Nil pending esc lit plain]:
  assumes "\<And>q. P q []"
    and "P (Some (CHR ''|'')) [[BSL]]"
    and "\<And>r rs. P (Some (CHR ''|'')) rs \<Longrightarrow> P (Some (CHR ''|'')) ([BSL] # r # rs)"
    and "\<And>d r rs. \<not> (d = CHR ''|'' \<and> r = [BSL]) \<Longrightarrow> P (if r = [d] then None else Some d) rs \<Longrightarrow>
      P (Some d) (r # rs)"
    and "\<And>r rs. (\<And>q. P q rs) \<Longrightarrow> P None (r # rs)"
  shows "P q w"
proof (induction w arbitrary: q rule: length_induct)
  case (1 w)
  show ?case
  proof (cases w)
    case Nil
    then show ?thesis using assms(1) by simp
  next
    case (Cons r rs)
    from 1 Cons have IH: "P q' rs" "length vs < length rs \<Longrightarrow> P q' vs" for q' vs by auto
    show ?thesis
    proof (rule inword_cases [of q r])
      assume q: "q = Some (CHR ''|'')" "r = [BSL]"
      show ?thesis
      proof (cases rs)
        case Nil
        then show ?thesis using assms(2) q \<open>w = r # rs\<close> by simp
      next
        case (Cons r2 rs2)
        with IH(2) [of rs2] have "P (Some (CHR ''|'')) rs2" by simp
        from assms(3) [OF this] show ?thesis using q Cons \<open>w = r # rs\<close> by simp
      qed
    qed (use assms(4,5) IH(1) Cons in auto)
  qed
qed

lemma inword_pending: "inword (Some (CHR ''|'')) [[BSL]] = Some (Some BSL)"
  by (simp add: inword.simps)

lemma inword_append:
  "inword q u = Some q' \<Longrightarrow> q' \<noteq> Some BSL \<Longrightarrow> inword q (u @ v) = inword q' v"
  by (induction q u rule: inword_induct)
    (auto simp: inword_quoted inword_plain inword_pending split: if_splits)

lemma scan_word: "inword q w = Some None \<Longrightarrow> sql_scan cur q (w @ rs) = sql_scan (cur @ w) None rs"
  by (induction q w arbitrary: cur rule: inword_induct)
    (auto simp: inword_quoted inword_plain inword_pending scan_quoted scan_esc scan_plain split: if_splits)

lemma scan_pending: "sql_scan cur (Some (CHR ''|'')) [[BSL]] = (flush (cur @ [[BSL]]), True)"
  by (simp add: sql_scan.simps)

lemma scan_open: "inword q w = Some (Some c) \<Longrightarrow> sql_scan cur q w = (flush (cur @ w), True)"
  by (induction q w arbitrary: cur rule: inword_induct)
    (auto simp: inword_quoted inword_plain inword_pending scan_quoted scan_esc scan_plain
      scan_pending split: if_splits)

definition word :: "rune list \<Rightarrow> bool" where
  "word w \<longleftrightarrow> w \<noteq> [] \<and> inword None w = Some None"

definition last_word :: "rune list \<Rightarrow> bool" where
  "last_word w \<longleftrightarrow> w \<noteq> [] \<and> inword None w \<noteq> None"

definition words_ok :: "rune list list \<Rightarrow> bool" where
  "words_ok ws \<longleftrightarrow> list_all word (butlast ws) \<and> (ws = [] \<or> last_word (last ws))"

lemma word_last: "word w \<Longrightarrow> last_word w"
  by (simp add: word_def last_word_def)

lemma words_ok_Nil [simp]: "words_ok []"
  by (simp add: words_ok_def)

lemma words_ok_Cons: "words_ok (w # ws) \<longleftrightarrow> (if ws = [] then last_word w else word w \<and> words_ok ws)"
  by (auto simp: words_ok_def)

lemma words_ok_append: "words_ok (us @ vs) \<Longrightarrow> words_ok us \<and> words_ok vs"
  by (induction us) (auto simp: words_ok_Cons word_last split: if_splits)

lemma words_ok_last_words: "words_ok ws \<Longrightarrow> list_all last_word ws"
  by (induction ws) (auto simp: words_ok_Cons word_last split: if_splits)

lemma scan_blank:
  "ends_word r \<Longrightarrow> r \<noteq> [QUOT] \<Longrightarrow> sql_scan cur None (r # rs) =
     (flush cur @ fst (sql_scan [] None rs), snd (sql_scan [] None rs))"
  by (auto simp: sql_scan.simps ends_word_def split: prod.splits)

lemma scan_comment: "sql_scan cur None ([QUOT] # rs) = (flush cur, False)"
  by (simp add: sql_scan.simps)

lemma scan_words_ok:
  "inword None cur = Some q \<Longrightarrow> q \<noteq> Some BSL \<Longrightarrow> words_ok (fst (sql_scan cur q rs))"
proof (induction q rs arbitrary: cur rule: inword_induct)
  case (Nil q)
  then show ?case by (auto simp: flush_def words_ok_Cons last_word_def)
next
  case pending
  from inword_append [OF pending, of "[[BSL]]"] show ?case
    by (simp add: scan_pending flush_def words_ok_Cons last_word_def inword_pending)
next
  case (esc r rs)
  from inword_append [OF esc(2,3), of "[[BSL], r]"] esc(1) [of "cur @ [[BSL], r]"] show ?case
    by (simp add: scan_esc)
next
  case (lit d r rs)
  from inword_append [OF lit(3,4), of "[r]"] lit(1) lit(2) [of "cur @ [r]"] lit(4) show ?case
    by (auto simp: scan_quoted inword_quoted split: if_splits)
next
  case (plain r rs)
  note app = inword_append [OF plain(2,3), of "[r]"]
  consider "opens r" | "\<not> opens r" "\<not> ends_word r" | "r = [QUOT]" | "ends_word r" "r \<noteq> [QUOT]" by blast
  then show ?case
  proof cases
    case 1
    then have "Some (hd r) \<noteq> Some BSL" by (auto simp: opens_def)
    with 1 app plain(1) [of "cur @ [r]" "Some (hd r)"] show ?thesis
      by (simp add: scan_plain inword_plain)
  next
    case 2
    with app plain(1) [of "cur @ [r]" None] show ?thesis by (simp add: scan_plain inword_plain)
  next
    case 3
    with plain(2) show ?thesis by (auto simp: scan_comment flush_def words_ok_Cons last_word_def)
  next
    case 4
    with plain(1) [of "[]" None] plain(2) show ?thesis
      by (auto simp: scan_blank flush_def words_ok_Cons word_def last_word_def)
  qed
qed

lemma sqlWords_ok: "words_ok (fst (sqlWords line))"
  unfolding sqlWords_def by (rule scan_words_ok) auto

text \<open>The words of a line written with single blanks.\<close>

fun line_of :: "rune list list \<Rightarrow> rune list" where
  "line_of [] = []"
| "line_of [w] = w"
| "line_of (w # ws) = w @ [SP] # line_of ws"

lemma line_of_Cons: "ws \<noteq> [] \<Longrightarrow> line_of (w # ws) = w @ [SP] # line_of ws"
  by (cases ws) auto

lemma line_of_append: "us \<noteq> [] \<Longrightarrow> vs \<noteq> [] \<Longrightarrow> line_of (us @ vs) = line_of us @ [SP] # line_of vs"
  by (induction us rule: line_of.induct) (auto simp: line_of_Cons)

lemma scan_line_of: "words_ok ws \<Longrightarrow> fst (sql_scan [] None (line_of ws)) = ws"
proof (induction ws rule: line_of.induct)
  case (2 w)
  then have w: "w \<noteq> []" "inword None w \<noteq> None" by (simp_all add: words_ok_Cons last_word_def)
  show ?case
  proof (cases "inword None w = Some None")
    case True
    from scan_word [OF this, of "[]" "[]"] w show ?thesis by (simp add: flush_def)
  next
    case False
    with w obtain c where "inword None w = Some (Some c)" by auto
    from scan_open [OF this, of "[]"] w show ?thesis by (simp add: flush_def)
  qed
next
  case (3 w v vs)
  then have w: "word w" and ih: "fst (sql_scan [] None (line_of (v # vs))) = v # vs"
    by (simp_all add: words_ok_Cons split: if_splits)
  from w scan_word [of None w "[]" "[SP] # line_of (v # vs)"] ih show ?case
    by (auto simp: word_def flush_def scan_blank ends_word_def)
qed (simp add: flush_def)

lemma sqlWords_line_of:
  "words_ok ws \<Longrightarrow> fst (sqlWords (line_of ws)) = ws \<and> fst (sqlWords ([SP] # line_of ws)) = ws"
  by (simp add: sqlWords_def scan_line_of flush_def scan_blank ends_word_def)


text \<open>
  Groups of words: what \<open>merge_stars\<close> builds, and the lines \<open>fill_lines\<close> makes of them. A group
  after the first does not start with a star.
\<close>

definition star_free :: "rune list list list \<Rightarrow> bool" where
  "star_free gs \<longleftrightarrow> list_all (\<lambda>g. g \<noteq> [] \<and> \<not> starts_star (hd g)) gs"

definition groups_ok :: "rune list list list \<Rightarrow> bool" where
  "groups_ok gs \<longleftrightarrow> (gs = [] \<or> hd gs \<noteq> []) \<and> star_free (tl gs)"

lemma star_free_simps [simp]:
  "star_free []" "star_free (g # gs) \<longleftrightarrow> g \<noteq> [] \<and> \<not> starts_star (hd g) \<and> star_free gs"
  "star_free (gs @ hs) \<longleftrightarrow> star_free gs \<and> star_free hs"
  by (simp_all add: star_free_def)

lemma merge_stars_groups:
  "groups_ok gs \<Longrightarrow> \<exists>gs'. merge_stars (map line_of gs) ws = map line_of gs'
      \<and> concat gs' = concat gs @ ws \<and> groups_ok gs'"
proof (induction ws arbitrary: gs)
  case (Cons w ws)
  show ?case
  proof (cases "starts_star w \<and> gs \<noteq> []")
    case True
    then obtain hs g where gs: "gs = hs @ [g]" by (metis rev_exhaust)
    have g: "g \<noteq> []" using Cons.prems gs by (cases hs) (auto simp: groups_ok_def)
    have "groups_ok (hs @ [g @ [w]])"
      using Cons.prems gs g by (cases hs) (auto simp: groups_ok_def)
    from Cons.IH [OF this] obtain gs' where
      "merge_stars (map line_of (hs @ [g @ [w]])) ws = map line_of gs'"
      "concat gs' = concat (hs @ [g @ [w]]) @ ws" "groups_ok gs'" by blast
    then show ?thesis using True gs g
      by (intro exI [of _ gs']) (simp add: line_of_append)
  next
    case False
    with Cons.prems have "groups_ok (gs @ [[w]])" by (cases gs) (auto simp: groups_ok_def)
    from Cons.IH [OF this] obtain gs' where
      "merge_stars (map line_of (gs @ [[w]])) ws = map line_of gs'"
      "concat gs' = concat (gs @ [[w]]) @ ws" "groups_ok gs'" by blast
    then show ?thesis using False by (intro exI [of _ gs']) auto
  qed
qed auto

definition continuation :: "rune list list \<Rightarrow> rune list" where
  "continuation g = [SP] # line_of g"

definition lines_of :: "rune list \<Rightarrow> rune list list list \<Rightarrow> rune list list" where
  "lines_of ind gs = (case gs of [] \<Rightarrow> [] | g # hs \<Rightarrow> (ind @ line_of g) # map continuation hs)"

lemma fill_lines_groups:
  "g \<noteq> [] \<Longrightarrow> star_free gs \<Longrightarrow> n > 0 \<Longrightarrow>
     \<exists>hs. fill_lines (ind @ line_of g) n (map line_of gs) = lines_of ind hs
       \<and> concat hs = g @ concat gs \<and> hs \<noteq> [] \<and> groups_ok hs \<and> take 1 (hd hs) = take 1 g"
proof (induction gs arbitrary: ind g n)
  case Nil
  then show ?case by (intro exI [of _ "[g]"]) (auto simp: lines_of_def groups_ok_def)
next
  case (Cons v gs)
  then have v: "v \<noteq> []" "\<not> starts_star (hd v)" "star_free gs" by simp_all
  show ?case
  proof (cases "length (ind @ line_of g) + 1 + length (line_of v) > dataPreviewWrapWidth")
    case True
    from Cons.IH [OF v(1,3), of 1 "[[SP]]"] obtain hs where
      hs: "fill_lines ([[SP]] @ line_of v) 1 (map line_of gs) = lines_of [[SP]] hs"
      "concat hs = v @ concat gs" "hs \<noteq> []" "groups_ok hs" "take 1 (hd hs) = take 1 v" by auto
    from v(1) hs(3-5) have "starts_star (hd (hd hs)) = starts_star (hd v)"
      by (cases "hd hs"; cases v) auto
    with hs(3,4) v(1,2) hs(5) have sf: "star_free hs"
      by (cases hs) (auto simp: groups_ok_def)
    from hs(3) have "lines_of [[SP]] hs = map continuation hs"
      by (cases hs) (simp_all add: lines_of_def continuation_def)
    with hs True Cons.prems(1,3) sf show ?thesis
      by (intro exI [of _ "g # hs"]) (simp add: lines_of_def groups_ok_def)
  next
    case False
    from Cons.IH [of "g @ v" "Suc n" ind] v Cons.prems(1) obtain hs where
      "fill_lines (ind @ line_of (g @ v)) (Suc n) (map line_of gs) = lines_of ind hs"
      "concat hs = (g @ v) @ concat gs" "hs \<noteq> []" "groups_ok hs" "take 1 (hd hs) = take 1 (g @ v)"
      by auto
    with False Cons.prems(1,3) v(1) show ?thesis
      by (intro exI [of _ hs]) (auto simp: line_of_append Suc_le_eq)
  qed
qed

lemma fill_words_groups:
  assumes "fill_lines ind 0 (merge_stars [] raw) = out"
  shows "\<exists>hs. out = lines_of ind hs \<and> concat hs = raw \<and> groups_ok hs"
proof -
  from merge_stars_groups [of "[]" raw] obtain gs where
    gs: "merge_stars [] raw = map line_of gs" "concat gs = raw" "groups_ok gs"
    by (auto simp: groups_ok_def)
  show ?thesis
  proof (cases gs)
    case Nil
    then show ?thesis using assms gs by (intro exI [of _ "[]"]) (auto simp: lines_of_def groups_ok_def)
  next
    case (Cons g hs)
    with gs(3) have "g \<noteq> []" "star_free hs" by (auto simp: groups_ok_def)
    from fill_lines_groups [OF this, of "Suc 0" ind] gs Cons assms show ?thesis by auto
  qed
qed


text \<open>
  The two comment rules: ECC reads a line with a star in column 1 as a comment, S/4 also a line
  whose first rune that is no blank is a star. \<open>line_words\<close> are the words a system with the rule
  \<open>com\<close> reads on one line, \<open>sql_tokens\<close> those of a statement.
\<close>

definition is_blank :: "rune \<Rightarrow> bool" where
  "is_blank r \<longleftrightarrow> r = [SP] \<or> r = [TAB]"

definition ecc_comment :: "rune list \<Rightarrow> bool" where
  "ecc_comment = starts_star"

definition s4_comment :: "rune list \<Rightarrow> bool" where
  "s4_comment line = starts_star (dropWhile is_blank line)"

definition line_words :: "(rune list \<Rightarrow> bool) \<Rightarrow> rune list \<Rightarrow> rune list list" where
  "line_words com line = (if com line then [] else fst (sqlWords line))"

definition line_tokens :: "(rune list \<Rightarrow> bool) \<Rightarrow> string \<Rightarrow> rune list list" where
  "line_tokens com l = line_words com (decode (trim_suffix l [CR]))"

definition sql_tokens :: "(rune list \<Rightarrow> bool) \<Rightarrow> string \<Rightarrow> rune list list" where
  "sql_tokens com sql = concat (map (line_tokens com) (split_on NL sql))"

lemma scan_hd:
  "cur \<noteq> [] \<Longrightarrow> \<exists>t ws. fst (sql_scan cur q rs) = (cur @ t) # ws"
proof (induction q rs arbitrary: cur rule: inword_induct)
  case (esc r rs)
  from esc(1) [of "cur @ [[BSL], r]"] show ?case by (auto simp: scan_esc)
next
  case (lit d r rs)
  from lit(2) [of "cur @ [r]"] lit(1) show ?case by (auto simp: scan_quoted split: if_splits)
next
  case (plain r rs)
  consider "opens r" | "\<not> opens r" "\<not> ends_word r" | "r = [QUOT]" | "ends_word r" "r \<noteq> [QUOT]" by blast
  then show ?case
  proof cases
    case 1
    with plain(1) [of "cur @ [r]" "Some (hd r)"] show ?thesis by (auto simp: scan_plain)
  next
    case 2
    with plain(1) [of "cur @ [r]" None] show ?thesis by (auto simp: scan_plain)
  qed (use plain(2) in \<open>auto simp: scan_comment scan_blank flush_def\<close>)
qed (auto simp: flush_def scan_pending)

lemma starts_star_append: "r # t = u \<Longrightarrow> starts_star u = (r = ''*'')"
  by (auto simp: starts_star_def)

lemma s4_first_word:
  "\<not> s4_comment line \<Longrightarrow> fst (sqlWords line) \<noteq> [] \<Longrightarrow> \<not> starts_star (hd (fst (sqlWords line)))"
proof (induction line)
  case (Cons r rs)
  show ?case
  proof (cases "is_blank r")
    case True
    then have "ends_word r" "r \<noteq> [QUOT]" by (auto simp: is_blank_def ends_word_def)
    then have "fst (sqlWords (r # rs)) = fst (sqlWords rs)"
      by (simp add: sqlWords_def scan_blank flush_def)
    with Cons True show ?thesis by (simp add: s4_comment_def)
  next
    case False
    with Cons.prems have star: "r \<noteq> ''*''" by (simp add: s4_comment_def starts_star_def)
    consider "opens r" | "\<not> opens r" "\<not> ends_word r" | "r = [QUOT]"
      using False by (auto simp: is_blank_def ends_word_def)
    then show ?thesis
    proof cases
      case 1
      with scan_hd [of "[r]" "Some (hd r)" rs] star show ?thesis
        by (auto simp: sqlWords_def scan_plain starts_star_def)
    next
      case 2
      with scan_hd [of "[r]" None rs] star show ?thesis
        by (auto simp: sqlWords_def scan_plain starts_star_def)
    next
      case 3
      with Cons.prems(2) show ?thesis by (simp add: sqlWords_def scan_comment flush_def)
    qed
  qed
qed (simp add: sqlWords_def flush_def)

text \<open>What \<open>wrapSQLLine\<close> returns: lines of groups of the line's words.\<close>

definition wrap_indent :: "rune list \<Rightarrow> rune list" where
  "wrap_indent line = (if line \<noteq> [] \<and> (hd line = [SP] \<or> hd line = [TAB]) then [[SP]] else [])"

lemma wrapSQLLine_groups:
  assumes "wrapSQLLine line = Inr out" and "\<not> starts_star line"
  shows "\<exists>gs. out = lines_of (wrap_indent line) gs \<and> concat gs = fst (sqlWords line) \<and> groups_ok gs
     \<and> list_all (\<lambda>l. length l \<le> dataPreviewMaxLine) out"
proof -
  obtain raw u where w: "sqlWords line = (raw, u)" by fastforce
  let ?out = "fill_lines (wrap_indent line) 0 (merge_stars [] raw)"
  from fill_words_groups [OF refl] obtain gs where
    "?out = lines_of (wrap_indent line) gs" "concat gs = raw" "groups_ok gs" by blast
  moreover from assms w have "out = ?out" "find (\<lambda>l. length l > dataPreviewMaxLine) ?out = None"
    by (auto simp: wrapSQLLine_def wrap_indent_def [symmetric] Let_def split: option.splits if_splits)
  ultimately show ?thesis using w
    by (intro exI [of _ gs]) (auto simp: find_None_iff list_all_iff not_less)
qed


lemma words_of_lines:
  assumes "words_ok (concat gs)" and "ind = [] \<or> ind = [[SP]]"
  shows "concat (map (\<lambda>l. fst (sqlWords l)) (lines_of ind gs)) = concat gs"
proof -
  have cont: "words_ok (concat hs) \<Longrightarrow>
      concat (map (\<lambda>l. fst (sqlWords l)) (map continuation hs)) = concat hs" for hs
    by (induction hs) (auto simp: continuation_def sqlWords_line_of dest: words_ok_append)
  show ?thesis
  proof (cases gs)
    case (Cons g hs)
    with assms(1) have "words_ok g" "words_ok (concat hs)" by (auto dest: words_ok_append)
    with cont [OF this(2)] assms(2) Cons show ?thesis
      by (auto simp: lines_of_def sqlWords_line_of)
  qed (simp add: lines_of_def)
qed

lemma last_word_hd: "last_word w \<Longrightarrow> w \<noteq> [] \<and> \<not> is_blank (hd w)"
  by (cases w) (auto simp: last_word_def is_blank_def inword_plain opens_def ends_word_def)

lemma comment_continuation:
  assumes "g \<noteq> []" and "last_word (hd g)"
  shows "s4_comment (continuation g) = starts_star (hd g)"
    and "s4_comment (line_of g) = starts_star (hd g)"
    and "ecc_comment (line_of g) = starts_star (hd g)"
proof -
  obtain r t gs where g: "g = (r # t) # gs"
    using assms last_word_hd [OF assms(2)] by (metis list.collapse)
  with assms(2) last_word_hd have "\<not> is_blank r" by fastforce
  moreover have "\<exists>t'. line_of g = r # t'" using g by (cases gs) auto
  ultimately show "s4_comment (continuation g) = starts_star (hd g)"
    and "s4_comment (line_of g) = starts_star (hd g)"
    and "ecc_comment (line_of g) = starts_star (hd g)"
    using g by (auto simp: s4_comment_def ecc_comment_def continuation_def is_blank_def starts_star_def)
qed

lemma s4_indented: "s4_comment ([SP] # l) = s4_comment l"
  by (simp add: s4_comment_def is_blank_def)

lemma no_comment_in_lines:
  assumes "groups_ok gs" and "list_all last_word (concat gs)" and "gs \<noteq> [] \<Longrightarrow> \<not> starts_star (hd (concat gs))"
    and "ind = [] \<or> ind = [[SP]]"
  shows "list_all (\<lambda>l. \<not> s4_comment l) (lines_of ind gs)"
proof (cases gs)
  case (Cons g hs)
  from assms(1) Cons have g: "g \<noteq> []" "star_free hs" by (auto simp: groups_ok_def)
  with assms(2,3) Cons have "last_word (hd g)" "\<not> starts_star (hd g)"
    by (cases g; auto)+
  with g(1) assms(4) have "\<not> s4_comment (ind @ line_of g)"
    by (auto simp: comment_continuation s4_indented)
  moreover have "\<not> s4_comment (continuation h)" if "h \<in> set hs" for h
  proof -
    from that g(2) have h: "h \<noteq> []" "\<not> starts_star (hd h)" by (auto simp: star_free_def list_all_iff)
    moreover have "last_word (hd h)" using assms(2) Cons that hd_in_set [OF h(1)] by (force simp: list_all_iff)
    ultimately show ?thesis by (simp add: comment_continuation)
  qed
  ultimately show ?thesis using Cons by (auto simp: lines_of_def list_all_iff)
qed (simp add: lines_of_def)

lemma ecc_in_s4: "ecc_comment l \<Longrightarrow> s4_comment l"
  by (cases l) (auto simp: ecc_comment_def s4_comment_def starts_star_def is_blank_def)

lemma line_words_none: "list_all (\<lambda>l. \<not> com l) ls \<Longrightarrow>
    concat (map (line_words com) ls) = concat (map (\<lambda>l. fst (sqlWords l)) ls)"
  by (induction ls) (auto simp: line_words_def)

text \<open>One re-wrapped line reads as before, under both comment rules.\<close>

lemma wrapped_line_s4:
  assumes "wrapSQLLine line = Inr out" and "s4_comment line \<Longrightarrow> ecc_comment line"
  shows "concat (map (line_words s4_comment) out) = line_words s4_comment line"
proof (cases "starts_star line")
  case True
  with assms(1) ecc_in_s4 show ?thesis by (auto simp: wrapSQLLine_def line_words_def ecc_comment_def)
next
  case False
  from wrapSQLLine_groups [OF assms(1) this] obtain gs where
    gs: "out = lines_of (wrap_indent line) gs" "concat gs = fst (sqlWords line)" "groups_ok gs" by blast
  from False assms(2) have n: "\<not> s4_comment line" by (auto simp: ecc_comment_def)
  have ok: "words_ok (concat gs)" using gs(2) sqlWords_ok by metis
  have "gs \<noteq> [] \<Longrightarrow> concat gs \<noteq> []" using gs(3) by (cases gs) (auto simp: groups_ok_def)
  with s4_first_word [OF n] gs(2) have "gs \<noteq> [] \<Longrightarrow> \<not> starts_star (hd (concat gs))" by auto
  with gs ok have "list_all (\<lambda>l. \<not> s4_comment l) out"
    by (auto intro!: no_comment_in_lines words_ok_last_words simp: wrap_indent_def)
  from line_words_none [where com = s4_comment, OF this] words_of_lines [OF ok, of "wrap_indent line"] gs(1,2) n
  show ?thesis by (simp add: line_words_def wrap_indent_def)
qed

lemma wrapped_line_ecc:
  assumes "wrapSQLLine line = Inr out"
  shows "concat (map (line_words ecc_comment) out) = line_words ecc_comment line"
proof (cases "starts_star line")
  case True
  with assms show ?thesis by (auto simp: wrapSQLLine_def line_words_def ecc_comment_def)
next
  case False
  from wrapSQLLine_groups [OF assms this] obtain gs where
    gs: "out = lines_of (wrap_indent line) gs" "concat gs = fst (sqlWords line)" "groups_ok gs" by blast
  have ok: "words_ok (concat gs)" using gs(2) sqlWords_ok by metis
  have "list_all (\<lambda>l. \<not> ecc_comment l) out"
  proof (cases "wrap_indent line = []")
    case True
    then have "s4_comment line = ecc_comment line"
      by (cases line) (auto simp: wrap_indent_def s4_comment_def ecc_comment_def starts_star_def
        is_blank_def split: if_splits)
    with False have n: "\<not> s4_comment line" by (simp add: ecc_comment_def)
    have "gs \<noteq> [] \<Longrightarrow> concat gs \<noteq> []" using gs(3) by (cases gs) (auto simp: groups_ok_def)
    with s4_first_word [OF n] gs(2) have "gs \<noteq> [] \<Longrightarrow> \<not> starts_star (hd (concat gs))" by auto
    with gs ok True have "list_all (\<lambda>l. \<not> s4_comment l) out"
      by (auto intro!: no_comment_in_lines words_ok_last_words)
    then show ?thesis using ecc_in_s4 by (auto simp: list_all_iff)
  next
    case False
    then have "wrap_indent line = [[SP]]" by (simp add: wrap_indent_def split: if_splits)
    with gs(1) show ?thesis
      by (auto simp: lines_of_def ecc_comment_def starts_star_def continuation_def list_all_iff
        split: list.splits)
  qed
  from line_words_none [where com = ecc_comment, OF this] words_of_lines [OF ok, of "wrap_indent line"] gs(1,2) False
  show ?thesis by (simp add: line_words_def wrap_indent_def ecc_comment_def)
qed

lemma scan_runes: "\<Union> (set (map set (fst (sql_scan cur q rs)))) \<subseteq> set cur \<union> set rs"
proof (induction q rs arbitrary: cur rule: inword_induct)
  case (esc r rs)
  from esc(1) [of "cur @ [[BSL], r]"] show ?case by (auto simp: scan_esc)
next
  case (lit d r rs)
  from lit(2) [of "cur @ [r]"] lit(1) show ?case by (auto simp: scan_quoted split: if_splits)
next
  case (plain r rs)
  consider "opens r" | "\<not> opens r" "\<not> ends_word r" | "r = [QUOT]" | "ends_word r" "r \<noteq> [QUOT]" by blast
  then show ?case
  proof cases
    case 1
    with plain(1) [of "cur @ [r]" "Some (hd r)"] show ?thesis by (auto simp: scan_plain)
  next
    case 2
    with plain(1) [of "cur @ [r]" None] show ?thesis by (auto simp: scan_plain)
  next
    case 4
    with plain(1) [of "[]" None] show ?thesis by (auto simp: scan_blank flush_def)
  qed (auto simp: scan_comment flush_def)
qed (auto simp: flush_def scan_pending)

lemma wrapped_line_runes:
  assumes "wrapSQLLine line = Inr out"
  shows "list_all (\<lambda>l. set l \<subseteq> insert [SP] (set line) \<and> length l \<le> dataPreviewMaxLine) out"
proof (cases "starts_star line")
  case False
  from wrapSQLLine_groups [OF assms this] obtain gs where
    gs: "out = lines_of (wrap_indent line) gs" "concat gs = fst (sqlWords line)"
    "list_all (\<lambda>l. length l \<le> dataPreviewMaxLine) out" by blast
  have line: "set (line_of g) \<subseteq> insert [SP] (\<Union> (set (map set g)))" for g
    by (induction g rule: line_of.induct) auto
  have "set l \<subseteq> insert [SP] (\<Union> (set (map set (concat gs))))" if "l \<in> set out" for l
    using that line unfolding gs(1)
    by (fastforce simp: lines_of_def continuation_def wrap_indent_def split: list.splits if_splits)
  moreover have "\<Union> (set (map set (concat gs))) \<subseteq> set line"
    using scan_runes [of "[]" None line] gs(2) by (simp add: sqlWords_def)
  ultimately show ?thesis using gs(3) by (fastforce simp: list_all_iff)
qed (use assms in \<open>simp add: wrapSQLLine_def\<close>)


section \<open>What wrapping does to a statement\<close>

lemma trim_CR_absent: "c \<notin> set l \<Longrightarrow> trim_suffix l [c] = l"
  by (auto simp: trim_suffix_def has_suffix_iff)

lemma wrapped_concat:
  assumes "wrapSQLLine (decode line) = Inr w" and "l \<in> set w"
  shows "decode (concat l) = l" and "rune_count (concat l) \<le> dataPreviewMaxLine"
    and "in_range 0 127 c \<Longrightarrow> c \<noteq> SP \<Longrightarrow> c \<notin> set line \<Longrightarrow> c \<notin> set (concat l)"
proof -
  from wrapped_line_runes [OF assms(1)] assms(2)
  have l: "set l \<subseteq> insert [SP] (set (decode line))" "length l \<le> dataPreviewMaxLine"
    by (auto simp: list_all_iff)
  have "rune_ok [SP]" by (rule rune_ok_ascii) (simp add: in_range_def)
  with l(1) decode_ok [of line] have ok: "list_all rune_ok l" by (auto simp: list_all_iff)
  then show "decode (concat l) = l" by (rule decode_concat)
  from ok l(2) show "rune_count (concat l) \<le> dataPreviewMaxLine" by (simp add: rune_count_concat)
  show "c \<notin> set (concat l)" if "in_range 0 127 c" "c \<noteq> SP" "c \<notin> set line"
    using l(1) decode_ascii_byte [OF that(1), of _ line] that(2,3) by fastforce
qed

lemma wrap_lines_bound:
  "wrap_lines i ls = Inr out \<Longrightarrow> list_all (\<lambda>l. NL \<notin> set l) ls \<Longrightarrow>
     list_all (\<lambda>l. NL \<notin> set l \<and> rune_count l \<le> dataPreviewMaxLine) out"
proof (induction i ls arbitrary: out rule: wrap_lines.induct)
  case (2 i l ls)
  let ?line = "trim_suffix l [CR]"
  from 2(4) trim_suffix_set [of l "[CR]"] have nl: "NL \<notin> set ?line" by auto
  show ?case
  proof (cases "rune_count ?line \<le> dataPreviewMaxLine")
    case True
    with 2 nl show ?thesis by (auto simp: Let_def split: sum.splits)
  next
    case False
    with 2(3) obtain w out' where
      w: "wrapSQLLine (decode ?line) = Inr w" "wrap_lines (Suc i) ls = Inr out'"
        "out = map concat w @ out'"
      by (auto simp: Let_def split: sum.splits)
    have "in_range 0 127 NL" by (simp add: in_range_def)
    with wrapped_concat [OF w(1)] nl have
      "list_all (\<lambda>l. NL \<notin> set l \<and> rune_count l \<le> dataPreviewMaxLine) (map concat w)"
      by (auto simp: list_all_iff)
    with 2(2) [OF refl False w(1) w(2)] 2(4) w(3) show ?thesis by simp
  qed
qed simp

lemma line_tokens_trim: "CR \<notin> set (trim_suffix l [CR]) \<Longrightarrow> line_tokens com (trim_suffix l [CR]) = line_tokens com l"
  by (simp add: line_tokens_def trim_CR_absent)

lemma wrap_lines_tokens:
  assumes com: "\<And>l w. l \<in> set ls \<Longrightarrow> rune_count (trim_suffix l [CR]) > dataPreviewMaxLine \<Longrightarrow>
      wrapSQLLine (decode (trim_suffix l [CR])) = Inr w \<Longrightarrow>
      concat (map (line_words com) w) = line_words com (decode (trim_suffix l [CR]))"
  shows "wrap_lines i ls = Inr out \<Longrightarrow> list_all (\<lambda>l. CR \<notin> set (trim_suffix l [CR])) ls \<Longrightarrow>
     concat (map (line_tokens com) out) = concat (map (line_tokens com) ls)"
  using com
proof (induction i ls arbitrary: out rule: wrap_lines.induct)
  case (2 i l ls)
  let ?line = "trim_suffix l [CR]"
  from 2(4) have cr: "CR \<notin> set ?line" by simp
  show ?case
  proof (cases "rune_count ?line \<le> dataPreviewMaxLine")
    case True
    with 2(3) obtain out' where o: "wrap_lines (Suc i) ls = Inr out'" "out = ?line # out'"
      by (auto simp: Let_def split: sum.splits)
    from 2(1) [OF refl True o(1)] 2(4,5) have
      "concat (map (line_tokens com) out') = concat (map (line_tokens com) ls)" by simp
    with o(2) cr show ?thesis by (simp add: line_tokens_trim)
  next
    case False
    with 2(3) obtain w out' where
      w: "wrapSQLLine (decode ?line) = Inr w" "wrap_lines (Suc i) ls = Inr out'"
        "out = map concat w @ out'"
      by (auto simp: Let_def split: sum.splits)
    have "in_range 0 127 CR" by (simp add: in_range_def)
    with wrapped_concat [OF w(1)] cr have
      "map (line_tokens com) (map concat w) = map (line_words com) w"
      by (auto simp: line_tokens_def trim_CR_absent)
    moreover have "concat (map (line_words com) w) = line_tokens com l"
      using 2(5) [OF _ _ w(1)] False by (simp add: line_tokens_def)
    ultimately have "concat (map (line_tokens com) (map concat w)) = line_tokens com l" by (simp only:)
    moreover have "concat (map (line_tokens com) out') = concat (map (line_tokens com) ls)"
      using 2(2) [OF refl False w(1) w(2)] 2(4,5) by simp
    ultimately show ?thesis using w(3) by simp
  qed
qed simp

lemma sql_tokens_join:
  assumes "list_all (\<lambda>l. NL \<notin> set l) out"
  shows "sql_tokens com (join [NL] out) = concat (map (line_tokens com) out)"
proof (cases "out = []")
  case True
  then show ?thesis
    by (simp add: sql_tokens_def line_tokens_def line_words_def trim_suffix_def has_suffix_def sqlWords_def flush_def)
next
  case False
  with assms have "split_on NL (join [NL] out) = out" by (auto simp: split_on_join list_all_iff)
  then show ?thesis by (simp add: sql_tokens_def)
qed

lemma wrapLong_cases:
  assumes "wrapLongSQLLines sql = Inr out"
  obtains "out = sql" "list_all (\<lambda>l. rune_count (trim_suffix l [CR]) \<le> dataPreviewMaxLine) (split_on NL sql)"
  | ls where "wrap_lines 0 (split_on NL sql) = Inr ls" "out = join [NL] ls"
      "list_all (\<lambda>l. NL \<notin> set l \<and> rune_count l \<le> dataPreviewMaxLine) ls"
proof (cases "list_all (\<lambda>l. rune_count (trim_suffix l [CR]) \<le> dataPreviewMaxLine) (split_on NL sql)")
  case True
  with assms that(1) show ?thesis by (simp add: wrapLongSQLLines_def Let_def)
next
  case False
  with assms obtain ls where "wrap_lines 0 (split_on NL sql) = Inr ls" "out = join [NL] ls"
    by (auto simp: wrapLongSQLLines_def Let_def split: sum.splits)
  with wrap_lines_bound [OF this(1)] that(2) show ?thesis
    by (auto simp: list_all_iff split_on_parts_no_sep)
qed

text \<open>
  Whatever \<open>wrapLongSQLLines\<close> returns fits the data preview: no line of it is longer than 255
  characters, so the endpoint cuts none.
\<close>

theorem wrapped_lines_fit:
  assumes "wrapLongSQLLines sql = Inr out"
  shows "list_all (\<lambda>l. rune_count (trim_suffix l [CR]) \<le> dataPreviewMaxLine) (split_on NL out)"
  using assms
proof (cases rule: wrapLong_cases)
  case (2 ls)
  show ?thesis
  proof (cases "ls = []")
    case True
    with 2(2) show ?thesis by (simp add: trim_suffix_def has_suffix_def rune_count_def)
  next
    case False
    with 2 have "split_on NL out = ls" by (auto simp: split_on_join list_all_iff)
    with 2(3) show ?thesis
      using rune_count_trim_CR by (fastforce simp: list_all_iff intro: order_trans)
  qed
qed simp


section \<open>A long statement, wrapped\<close>

definition sel_words :: "string list" where
  "sel_words = [''SELECT'', ''*'', ''FROM'', ''t'', ''WHERE'', ''a'', ''=''] @ concat (replicate 60 [''b'', ''OR'']) @ [''c'']"

definition long_select :: string where
  "long_select = join '' '' sel_words"

definition long_wrapped :: "string list" where
  "long_wrapped = [join '' '' (take 77 sel_words), '' '' @ join '' '' (drop 77 sel_words)]"

definition bytes :: "string \<Rightarrow> rune list" where
  "bytes s = map (\<lambda>c. [c]) s"

lemma concat_bytes [simp]: "concat (bytes s) = s"
  by (induction s) (auto simp: bytes_def)

lemma long_select_lines:
  "split_on NL long_select = [long_select]" "trim_suffix long_select [CR] = long_select"
  by code_simp+

lemma long_select_count: "rune_count long_select = 327"
  by code_simp

lemma long_select_decode: "decode long_select = bytes long_select"
  by code_simp

lemma long_select_words: "sqlWords (bytes long_select) = (map bytes sel_words, False)"
  by code_simp

lemma long_select_fill: "fill_lines [] 0 (merge_stars [] (map bytes sel_words)) = map bytes long_wrapped"
  by code_simp

lemma long_select_start: "starts_star (bytes long_select) = False" "hd (bytes long_select) = ''S''"
  by code_simp+

lemma long_wrapped_short: "find (\<lambda>l. length l > 255) (map bytes long_wrapped) = None"
  by code_simp

lemma long_select_wraps: "wrapLongSQLLines long_select = Inr (join [NL] long_wrapped)"
proof -
  have "wrapSQLLine (bytes long_select) = Inr (map bytes long_wrapped)"
    using long_wrapped_short
    by (simp add: wrapSQLLine_def long_select_start long_select_words long_select_fill dataPreviewMaxLine_def)
  then have "wrap_lines 0 [long_select] = Inr (map concat (map bytes long_wrapped))"
    by (simp add: long_select_lines long_select_count long_select_decode dataPreviewMaxLine_def)
  then have "wrap_lines 0 [long_select] = Inr long_wrapped"
    by (simp add: comp_def)
  then show ?thesis
    by (simp add: wrapLongSQLLines_def long_select_lines long_select_count dataPreviewMaxLine_def)
qed


theorem wrapped_lines_fit_witness:
  "list_all (\<lambda>l. rune_count (trim_suffix l [CR]) \<le> dataPreviewMaxLine) (split_on NL (join [NL] long_wrapped))"
  by (rule wrapped_lines_fit [OF long_select_wraps])



text \<open>
  The case left out: an overlong comment that starts with blanks and a star is wrapped like
  code, and its continuation lines are no comment for either system.
\<close>

definition star_words :: "string list" where
  "star_words = [''*''] @ replicate 130 ''b''"

definition star_select :: string where
  "star_select = '' '' @ join '' '' star_words"

definition star_wrapped :: "string list" where
  "star_wrapped = ['' '' @ join '' '' (take 100 star_words), '' '' @ join '' '' (drop 100 star_words)]"

lemma star_select_lines:
  "split_on NL star_select = [star_select]" "trim_suffix star_select [CR] = star_select"
  by code_simp+

lemma star_select_decode: "decode star_select = bytes star_select" "rune_count star_select = 262"
  by code_simp+

lemma star_select_words: "sqlWords (bytes star_select) = (map bytes star_words, False)"
  by code_simp

lemma star_select_fill: "fill_lines [[SP]] 0 (merge_stars [] (map bytes star_words)) = map bytes star_wrapped"
  by code_simp

lemma star_select_start: "starts_star (bytes star_select) = False" "hd (bytes star_select) = [SP]"
  "bytes star_select \<noteq> []" "s4_comment (bytes star_select) = True"
  by code_simp+

lemma star_wrapped_short: "find (\<lambda>l. length l > 255) (map bytes star_wrapped) = None"
  by code_simp

lemma star_wrapped_tokens:
  "sql_tokens s4_comment (join [NL] star_wrapped) = replicate 31 (bytes ''b'')"
  by code_simp

text \<open>
  On an S/4 system the words of such a comment, none before, are code after the wrapping.
\<close>

theorem indented_star_comment_becomes_code:
  "wrapLongSQLLines star_select = Inr (join [NL] star_wrapped)
   \<and> sql_tokens s4_comment star_select = []
   \<and> sql_tokens s4_comment (join [NL] star_wrapped) = replicate 31 (bytes ''b'')"
proof -
  have "wrapSQLLine (bytes star_select) = Inr (map bytes star_wrapped)"
    using star_wrapped_short star_select_start
    by (simp add: wrapSQLLine_def star_select_words star_select_fill dataPreviewMaxLine_def)
  then have "wrap_lines 0 [star_select] = Inr star_wrapped"
    by (simp add: star_select_lines star_select_decode dataPreviewMaxLine_def comp_def)
  then show ?thesis
    using star_wrapped_tokens star_select_start(4)
    by (simp add: wrapLongSQLLines_def star_select_lines star_select_decode dataPreviewMaxLine_def
        sql_tokens_def line_tokens_def line_words_def)
qed


section \<open>The pagination clause read back\<close>

text \<open>
  A condition as the database reads it: a disjunction of conjunctions of comparisons of a key field
  with a literal. \<open>clause_words\<close> is its word sequence, \<open>parse_where\<close> the reader of such sequences.
\<close>

datatype cmp_op = EqOp | GtOp

record comparison =
  cm_key :: string
  cm_cast :: bool
  cm_op :: cmp_op
  cm_value :: string

definition operand_words :: "comparison \<Rightarrow> string list" where
  "operand_words c = (if cm_cast c then [''CAST('', cm_key c, ''AS'', ''CHAR('', ''6'', '')'', '')'']
     else [cm_key c])"

definition cmp_words :: "comparison \<Rightarrow> string list" where
  "cmp_words c = operand_words c @ [case cm_op c of EqOp \<Rightarrow> ''='' | GtOp \<Rightarrow> ''>'', literal (cm_value c)]"

fun conj_words :: "comparison list \<Rightarrow> string list" where
  "conj_words [] = []"
| "conj_words [c] = cmp_words c"
| "conj_words (c # cs) = cmp_words c @ ''AND'' # conj_words cs"

definition term_words :: "comparison list \<Rightarrow> string list" where
  "term_words cs = (if length cs = 1 then conj_words cs else ''('' # conj_words cs @ ['')''])"

fun clause_words :: "comparison list list \<Rightarrow> string list" where
  "clause_words [] = []"
| "clause_words [t] = term_words t"
| "clause_words (t # ts) = term_words t @ ''OR'' # clause_words ts"

text \<open>A literal read back: the apostrophes around it gone, doubled ones single.\<close>

fun undouble :: "string \<Rightarrow> string" where
  "undouble [] = []"
| "undouble (c # s) = c # undouble (if c = APOS then tl s else s)"

definition literal_value :: "string \<Rightarrow> string option" where
  "literal_value w = (if length w \<ge> 2 \<and> hd w = APOS \<and> last w = APOS
     then Some (undouble (butlast (tl w))) else None)"

definition read_operand :: "string list \<Rightarrow> (string \<times> bool \<times> string list) option" where
  "read_operand ws =
     (if take 1 ws = [''CAST(''] then
        (if take 5 (drop 2 ws) = [''AS'', ''CHAR('', ''6'', '')'', '')''] then Some (ws ! 1, True, drop 7 ws)
         else None)
      else case ws of [] \<Rightarrow> None | w # ws' \<Rightarrow> Some (w, False, ws'))"

definition read_op :: "string \<Rightarrow> cmp_op option" where
  "read_op w = (if w = ''='' then Some EqOp else if w = ''>'' then Some GtOp else None)"

definition read_cmp :: "string list \<Rightarrow> (comparison \<times> string list) option" where
  "read_cmp ws =
     (case read_operand ws of
        Some (k, cast, opw # lit # rest) \<Rightarrow>
          (case (read_op opw, literal_value lit) of
             (Some oper, Some v) \<Rightarrow> Some (\<lparr>cm_key = k, cm_cast = cast, cm_op = oper, cm_value = v\<rparr>, rest)
           | _ \<Rightarrow> None)
      | _ \<Rightarrow> None)"

fun read_conj :: "nat \<Rightarrow> string list \<Rightarrow> (comparison list \<times> string list) option" where
  "read_conj 0 ws = None"
| "read_conj (Suc n) ws =
     (case read_cmp ws of
        None \<Rightarrow> None
      | Some (c, rest) \<Rightarrow>
          if take 1 rest = [''AND''] then
            (case read_conj n (tl rest) of None \<Rightarrow> None | Some (cs, r) \<Rightarrow> Some (c # cs, r))
          else Some ([c], rest))"

definition read_term :: "nat \<Rightarrow> string list \<Rightarrow> (comparison list \<times> string list) option" where
  "read_term n ws =
     (if take 1 ws = [''(''] then
        (case read_conj n (tl ws) of
           Some (cs, rest) \<Rightarrow> if take 1 rest = ['')''] then Some (cs, tl rest) else None
         | None \<Rightarrow> None)
      else case read_cmp ws of Some (c, rest) \<Rightarrow> Some ([c], rest) | None \<Rightarrow> None)"

fun read_clause :: "nat \<Rightarrow> string list \<Rightarrow> comparison list list option" where
  "read_clause 0 ws = None"
| "read_clause (Suc n) ws =
     (case read_term (Suc n) ws of
        None \<Rightarrow> None
      | Some (t, rest) \<Rightarrow>
          if rest = [] then Some [t]
          else if take 1 rest = [''OR''] then map_option (Cons t) (read_clause n (tl rest))
          else None)"

definition parse_where :: "string list \<Rightarrow> comparison list list option" where
  "parse_where ws = read_clause (length ws) ws"

text \<open>What the clause says of a row, whatever the order \<open>lt\<close> of the database.\<close>

definition holds_cmp :: "(string \<Rightarrow> string \<Rightarrow> bool) \<Rightarrow> (string \<Rightarrow> string) \<Rightarrow> comparison \<Rightarrow> bool" where
  "holds_cmp lt row c = (case cm_op c of EqOp \<Rightarrow> row (cm_key c) = cm_value c
     | GtOp \<Rightarrow> lt (cm_value c) (row (cm_key c)))"

definition holds_where :: "(string \<Rightarrow> string \<Rightarrow> bool) \<Rightarrow> (string \<Rightarrow> string) \<Rightarrow> comparison list list \<Rightarrow> bool" where
  "holds_where lt row ts = list_ex (list_all (holds_cmp lt row)) ts"

text \<open>The key of a row comes after the last key: lexicographically greater.\<close>

fun after_key :: "(string \<Rightarrow> string \<Rightarrow> bool) \<Rightarrow> string list \<Rightarrow> string list \<Rightarrow> bool" where
  "after_key lt (x # xs) (v # vs) \<longleftrightarrow> lt v x \<or> x = v \<and> after_key lt xs vs"
| "after_key lt _ _ \<longleftrightarrow> False"

lemma undouble_escape: "undouble (EscapeValue v) = v"
  by (induction v) (auto simp: EscapeValue_def replace_all_byte)

lemma literal_value_literal [simp]: "literal_value (literal v) = Some v"
  by (simp add: literal_value_def literal_def undouble_escape)

lemma literal_not_AS [simp]: "literal v \<noteq> ''AS''"
  by (simp add: literal_def)

definition cmp_ok :: "comparison \<Rightarrow> bool" where
  "cmp_ok c \<longleftrightarrow> validateIdentifier (cm_key c) = None"

lemma identifier_not_word:
  "validateIdentifier k = None \<Longrightarrow> k \<noteq> ''CAST('' \<and> k \<noteq> ''('' \<and> k \<noteq> []"
  by (auto simp: validateIdentifier_def identifier_char_def is_upper_def is_lower_def is_digit_def
      split: if_splits)

lemma read_cmp_words: "cmp_ok c \<Longrightarrow> read_cmp (cmp_words c @ rest) = Some (c, rest)"
  using identifier_not_word [of "cm_key c"]
  by (cases c; cases "cm_op c") (auto simp: cmp_ok_def read_cmp_def cmp_words_def operand_words_def read_operand_def read_op_def
      numeral_eq_Suc)

lemma read_conj_words:
  "cs \<noteq> [] \<Longrightarrow> list_all cmp_ok cs \<Longrightarrow> length cs \<le> n \<Longrightarrow> take 1 rest \<noteq> [''AND''] \<Longrightarrow>
     read_conj n (conj_words cs @ rest) = Some (cs, rest)"
proof (induction cs arbitrary: n rule: conj_words.induct)
  case (2 c)
  then show ?case by (cases n) (auto simp: read_cmp_words)
next
  case (3 c d cs)
  then obtain m where "n = Suc m" by (cases n) auto
  with 3 show ?case by (simp add: read_cmp_words)
qed simp

lemma read_term_words:
  assumes "cs \<noteq> []" and "list_all cmp_ok cs" and "length cs \<le> n"
  shows "read_term n (term_words cs @ rest) = Some (cs, rest)"
proof (cases cs rule: conj_words.cases)
  case (2 c)
  then have "take 1 (cmp_words c @ rest) \<noteq> [''('']"
    using identifier_not_word [of "cm_key c"] assms(2)
    by (auto simp: cmp_words_def operand_words_def cmp_ok_def)
  with 2 assms(2) show ?thesis by (simp add: read_term_def term_words_def read_cmp_words)
next
  case (3 c d ds)
  then show ?thesis
    using read_conj_words [OF assms, of "['')''] @ rest"] by (simp add: read_term_def term_words_def)
qed (use assms in simp)

lemma length_conj_words: "length cs \<le> length (conj_words cs)"
  by (induction cs rule: conj_words.induct) (auto simp: cmp_words_def)

lemma length_term_words: "length cs \<le> length (term_words cs)"
  using length_conj_words [of cs] by (auto simp: term_words_def)

lemma read_clause_words:
  "ts \<noteq> [] \<Longrightarrow> list_all (\<lambda>t. t \<noteq> [] \<and> list_all cmp_ok t) ts \<Longrightarrow> length (clause_words ts) \<le> n \<Longrightarrow>
     read_clause n (clause_words ts) = Some ts"
proof (induction ts arbitrary: n rule: clause_words.induct)
  case (2 t)
  then have "n \<noteq> 0" using length_term_words [of t] by (cases t) auto
  then obtain m where m: "n = Suc m" by (cases n) auto
  with 2 length_term_words [of t] have "read_term n (term_words t @ []) = Some (t, [])"
    by (intro read_term_words) auto
  with m show ?case by simp
next
  case (3 t u us)
  then obtain m where m: "n = Suc m" by (cases n) auto
  with 3 length_term_words [of t] have
    "read_term n (term_words t @ ''OR'' # clause_words (u # us)) = Some (t, ''OR'' # clause_words (u # us))"
    by (intro read_term_words) auto
  moreover have "read_clause m (clause_words (u # us)) = Some (u # us)"
    using 3 m by (intro "3.IH") auto
  ultimately show ?case using m by simp
qed simp

lemma parse_clause_words:
  "ts \<noteq> [] \<Longrightarrow> list_all (\<lambda>t. t \<noteq> [] \<and> list_all cmp_ok t) ts \<Longrightarrow> parse_where (clause_words ts) = Some ts"
  by (simp add: parse_where_def read_clause_words)


definition page_cmp :: "key_types \<Rightarrow> cmp_op \<Rightarrow> string \<Rightarrow> string \<Rightarrow> comparison" where
  "page_cmp types oper k v = \<lparr>cm_key = k,
     cm_cast = equal_fold (case map_of types k of None \<Rightarrow> [] | Some t \<Rightarrow> t) ''TIMS'',
     cm_op = oper, cm_value = v\<rparr>"

definition page_clause :: "string list \<Rightarrow> string list \<Rightarrow> key_types \<Rightarrow> comparison list list" where
  "page_clause keys vals types =
     map (\<lambda>i. map (\<lambda>j. page_cmp types EqOp (keys ! j) (vals ! j)) [0..<i]
              @ [page_cmp types GtOp (keys ! i) (vals ! i)]) [0..<length keys]"

lemma join_append:
  "xs \<noteq> [] \<Longrightarrow> ys \<noteq> [] \<Longrightarrow> join sep (xs @ ys) = join sep xs @ sep @ join sep ys"
proof (induction xs)
  case (Cons x xs)
  then show ?case by (cases "xs = []") (auto simp: join_Cons)
qed simp

lemma cmp_words_not_Nil [simp]: "cmp_words c \<noteq> []"
  by (simp add: cmp_words_def)

lemma conj_words_not_Nil [simp]: "conj_words cs = [] \<longleftrightarrow> cs = []"
  by (cases cs rule: conj_words.cases) auto

lemma term_words_not_Nil [simp]: "t \<noteq> [] \<Longrightarrow> term_words t \<noteq> []"
  by (simp add: term_words_def)

lemma join_conj_words:
  "join '' AND '' (map (\<lambda>c. join [SP] (cmp_words c)) cs) = join [SP] (conj_words cs)"
  by (induction cs rule: conj_words.induct) (auto simp: join_append join_Cons)

lemma join_clause_words:
  "list_all (\<lambda>t. t \<noteq> []) ts \<Longrightarrow>
     join '' OR '' (map (\<lambda>t. join [SP] (term_words t)) ts) = join [SP] (clause_words ts)"
proof (induction ts rule: clause_words.induct)
  case (3 t u us)
  moreover have "clause_words (u # us) \<noteq> []"
    using 3(2) by (cases us) auto
  ultimately show ?case by (simp add: join_append join_Cons)
qed auto

lemma page_cmp_text:
  "join [SP] (cmp_words (page_cmp types EqOp k v)) = keyOperand k types @ '' = '' @ literal v"
  "join [SP] (cmp_words (page_cmp types GtOp k v)) = keyOperand k types @ '' > '' @ literal v"
  by (simp_all add: cmp_words_def page_cmp_def operand_words_def keyOperand_def)

lemma join_term_words:
  "t \<noteq> [] \<Longrightarrow> join [SP] (term_words t) =
     (let parts = map (\<lambda>c. join [SP] (cmp_words c)) t in
      if length parts = 1 then hd parts else ''( '' @ join '' AND '' parts @ '' )'')"
proof -
  assume t: "t \<noteq> []"
  show ?thesis
  proof (cases "length t = 1")
    case True
    then obtain c where "t = [c]" by (cases t) auto
    then show ?thesis by (simp add: term_words_def)
  next
    case False
    with t show ?thesis
      by (simp add: term_words_def Let_def join_conj_words join_Cons join_append)
  qed
qed

lemma build_is_clause:
  assumes "keys \<noteq> []" and "length keys = length vals"
  shows "buildPaginationWhereTyped keys vals types = join [SP] (clause_words (page_clause keys vals types))"
proof -
  let ?t = "\<lambda>i. map (\<lambda>j. page_cmp types EqOp (keys ! j) (vals ! j)) [0..<i]
              @ [page_cmp types GtOp (keys ! i) (vals ! i)]"
  have parts: "map (\<lambda>c. join [SP] (cmp_words c)) (?t i) = pagination_parts keys vals types i" for i
    by (simp add: pagination_parts_def page_cmp_text comp_def)
  have "list_all (\<lambda>t. t \<noteq> []) (page_clause keys vals types)"
    by (simp add: page_clause_def list_all_iff)
  from join_clause_words [OF this, symmetric]
  have "join [SP] (clause_words (page_clause keys vals types))
      = join '' OR '' (map (\<lambda>i. join [SP] (term_words (?t i))) [0..<length keys])"
    by (simp add: page_clause_def comp_def)
  also have "\<dots> = join '' OR '' (map (\<lambda>i. let parts = pagination_parts keys vals types i in
      if length parts = 1 then hd parts else ''( '' @ join '' AND '' parts @ '' )'') [0..<length keys])"
    by (simp only: join_term_words parts append_is_Nil_conv not_Cons_self2 simp_thms)
  finally show ?thesis using assms by (simp add: buildPaginationWhereTyped_def)
qed

lemma holds_page_clause:
  "length keys = length vals \<Longrightarrow>
     holds_where lt row (page_clause keys vals types) = after_key lt (map row keys) vals"
proof (induction keys vals rule: list_induct2)
  case (Cons k keys v vals)
  let ?c = "page_cmp types"
  have split: "[0..<length (k # keys)] = 0 # map Suc [0..<length keys]"
    by (simp add: map_Suc_upt upt_conv_Cons del: upt_Suc)
  have split2: "[0..<Suc i] = 0 # map Suc [0..<i]" for i
    by (simp add: map_Suc_upt upt_conv_Cons del: upt_Suc)
  have "page_clause (k # keys) (v # vals) types
      = [?c GtOp k v] # map (\<lambda>t. ?c EqOp k v # t) (page_clause keys vals types)"
    unfolding page_clause_def split by (simp add: split2 comp_def del: upt_Suc)
  then show ?case using Cons.IH
    by (auto simp: holds_where_def list_ex_iff holds_cmp_def page_cmp_def)
qed (simp add: holds_where_def page_clause_def)


text \<open>The words of the clause survive the scanner: identifiers and literals are one word each.\<close>

definition plain_char :: "char \<Rightarrow> bool" where
  "plain_char c \<longleftrightarrow> in_range 33 127 c \<and> c \<noteq> APOS \<and> c \<noteq> QUOT \<and> c \<noteq> CHR 0x60 \<and> c \<noteq> CHR ''|''"

lemma decode_bytes: "list_all plain_char s \<Longrightarrow> decode s = bytes s"
proof (induction s)
  case (Cons c s)
  then have "rune_ok [c]" by (auto simp: plain_char_def in_range_def intro: rune_ok_ascii)
  from decode_Cons [OF this, of s] Cons show ?case by (simp add: bytes_def)
qed (simp add: bytes_def)

lemma inword_bytes: "list_all plain_char s \<Longrightarrow> inword None (bytes s) = Some None"
  by (induction s) (auto simp: bytes_def inword_plain opens_def ends_word_def plain_char_def in_range_def)

lemma word_bytes: "s \<noteq> [] \<Longrightarrow> list_all plain_char s \<Longrightarrow> word (decode s)"
  by (simp add: word_def decode_bytes inword_bytes) (simp add: bytes_def)

lemma identifier_plain: "validateIdentifier k = None \<Longrightarrow> k \<noteq> [] \<and> list_all plain_char k"
  by (auto simp: validateIdentifier_def list_all_iff identifier_char_def plain_char_def in_range_def
      is_upper_def is_lower_def is_digit_def split: if_splits dest!: bspec)

definition double_runes :: "rune list \<Rightarrow> rune list" where
  "double_runes rs = concat (map (\<lambda>r. if r = [APOS] then [[APOS], [APOS]] else [r]) rs)"

lemma escape_runes:
  "list_all rune_ok rs \<Longrightarrow> EscapeValue (concat rs) = concat (double_runes rs) \<and> list_all rune_ok (double_runes rs)"
proof (induction rs)
  case (Cons r rs)
  have a: "in_range 0 127 APOS" by (simp add: in_range_def)
  have "EscapeValue (r @ s) = (if r = [APOS] then [APOS, APOS] else r) @ EscapeValue s" for s
  proof (cases "APOS \<in> set r")
    case True
    with Cons.prems rune_ok_ascii_mem [OF _ a] have "r = [APOS]" by auto
    then show ?thesis by (simp add: EscapeValue_def replace_all_byte)
  next
    case False
    then have "EscapeValue (r @ s) = r @ EscapeValue s"
      by (induction r) (auto simp: EscapeValue_def replace_all_byte)
    with False show ?thesis by auto
  qed
  with Cons show ?case by (auto simp: double_runes_def)
qed (simp add: EscapeValue_def double_runes_def)

lemma inword_double:
  "inword (Some APOS) (double_runes rs @ v) = inword (Some APOS) v"
proof (induction rs)
  case (Cons r rs)
  have "inword (Some APOS) ([APOS] # [APOS] # x) = inword (Some APOS) x" for x
    by (simp add: inword_quoted inword_plain opens_def)
  with Cons show ?case by (simp add: double_runes_def inword_quoted)
qed (simp add: double_runes_def)

lemma literal_word:
  assumes "valid_utf8 v"
  shows "word (decode (literal v)) \<and> concat (decode (literal v)) = literal v"
proof -
  have a: "rune_ok [APOS]" by (rule rune_ok_ascii) (simp add: in_range_def)
  from escape_runes [OF decode_ok, of v] assms have
    e: "EscapeValue v = concat (double_runes (decode v))" "list_all rune_ok (double_runes (decode v))"
    by (simp_all add: valid_utf8_def)
  from e a have d: "decode (literal v) = [APOS] # double_runes (decode v) @ [[APOS]]"
    using decode_concat [of "[APOS] # double_runes (decode v) @ [[APOS]]"] by (simp add: literal_def)
  have "inword None (decode (literal v)) = Some None"
    using d inword_double by (simp add: inword_plain opens_def inword_quoted)
  with d e(1) show ?thesis by (simp add: word_def literal_def)
qed

definition word_str :: "string \<Rightarrow> bool" where
  "word_str w \<longleftrightarrow> word (decode w) \<and> concat (decode w) = w"

lemma word_str_plain: "w \<noteq> [] \<Longrightarrow> list_all plain_char w \<Longrightarrow> word_str w"
  by (simp add: word_str_def word_bytes) (simp add: decode_bytes)

lemma clause_list_induct [case_names 1 2 3]:
  "P [] \<Longrightarrow> (\<And>w. P [w]) \<Longrightarrow> (\<And>w v vs. P (v # vs) \<Longrightarrow> P (w # v # vs)) \<Longrightarrow> P ws"
  by (rule induct_list012) auto

lemma decode_join:
  "list_all word_str ws \<Longrightarrow> decode (join [SP] ws) = line_of (map decode ws)"
proof (induction ws rule: clause_list_induct)
  case (3 w v vs)
  have sp: "rune_ok [SP]" by (rule rune_ok_ascii) (simp add: in_range_def)
  have "decode (join [SP] (w # v # vs)) = decode (concat (decode w) @ SP # join [SP] (v # vs))"
    using 3(2) by (simp add: word_str_def join_Cons)
  also have "\<dots> = decode w @ decode ([SP] @ join [SP] (v # vs))"
    by (simp add: decode_append [OF decode_ok])
  also have "\<dots> = decode w @ [SP] # decode (join [SP] (v # vs))"
    by (simp only: decode_Cons [OF sp])
  finally show ?case using 3 by simp
qed auto

lemma words_of_join:
  assumes "list_all word_str ws"
  shows "map concat (fst (sqlWords (decode (join [SP] ws)))) = ws"
proof -
  from assms have "list_all word (map decode ws)" by (simp add: list_all_iff word_str_def)
  then have "words_ok (map decode ws)"
    by (induction ws) (auto simp: words_ok_Cons word_last)
  from sqlWords_line_of [OF this] decode_join [OF assms]
  have "map concat (fst (sqlWords (decode (join [SP] ws)))) = map concat (map decode ws)" by simp
  with assms show ?thesis by (auto simp: word_str_def list_all_iff intro: map_idI)
qed

lemma clause_word_str:
  "list_all (list_all (\<lambda>c. cmp_ok c \<and> valid_utf8 (cm_value c))) ts \<Longrightarrow> list_all word_str (clause_words ts)"
proof -
  have "list_all word_str [''CAST('', ''AS'', ''CHAR('', ''6'', '')'', ''('', ''AND'', ''OR'', ''='', ''>'']"
    by (simp add: word_str_plain plain_char_def in_range_def)
  note k = this [simplified]
  have c: "list_all word_str (cmp_words c)" if "cmp_ok c \<and> valid_utf8 (cm_value c)" for c
  proof -
    from that have "word_str (cm_key c)" "word_str (literal (cm_value c))"
      using identifier_plain [of "cm_key c"] literal_word [of "cm_value c"] word_str_plain
      by (auto simp: cmp_ok_def word_str_def)
    with k show ?thesis
      by (cases "cm_op c"; cases "cm_cast c") (simp_all add: cmp_words_def operand_words_def)
  qed
  have cs: "list_all (\<lambda>c. cmp_ok c \<and> valid_utf8 (cm_value c)) cs \<Longrightarrow> list_all word_str (conj_words cs)" for cs
    by (induction cs rule: conj_words.induct) (auto simp: c k)
  have t: "list_all (\<lambda>c. cmp_ok c \<and> valid_utf8 (cm_value c)) cs \<Longrightarrow> list_all word_str (term_words cs)" for cs
    using cs by (simp add: term_words_def k)
  show "list_all (list_all (\<lambda>c. cmp_ok c \<and> valid_utf8 (cm_value c))) ts \<Longrightarrow> list_all word_str (clause_words ts)"
    by (induction ts rule: clause_words.induct) (auto simp: t k)
qed

text \<open>
  C7. The pagination clause means what it is for. Whatever the values (apostrophes, blanks and
  comment signs included), the clause is read as exactly the comparisons that were meant, no value
  ends its literal, and a row satisfies it exactly when its key comes after the last key read.
\<close>

theorem pagination_clause_means_after:
  assumes "keys \<noteq> []" and "length keys = length vals"
    and "list_all (\<lambda>k. validateIdentifier k = None) keys" and "list_all valid_utf8 vals"
  shows "\<exists>ts. parse_where (map concat (fst (sqlWords (decode (buildPaginationWhereTyped keys vals types))))) = Some ts
     \<and> (\<forall>lt row. holds_where lt row ts \<longleftrightarrow> after_key lt (map row keys) vals)"
proof -
  let ?ts = "page_clause keys vals types"
  have ok: "list_all (list_all (\<lambda>c. cmp_ok c \<and> valid_utf8 (cm_value c))) ?ts"
    using assms by (auto simp: page_clause_def list_all_iff page_cmp_def cmp_ok_def)
  have "?ts \<noteq> []" using assms(1) by (simp add: page_clause_def)
  moreover have "list_all (\<lambda>t. t \<noteq> [] \<and> list_all cmp_ok t) ?ts"
    using ok by (auto simp: list_all_iff page_clause_def)
  ultimately have "parse_where (clause_words ?ts) = Some ?ts" by (rule parse_clause_words)
  then show ?thesis
    using build_is_clause [OF assms(1,2)] words_of_join [OF clause_word_str [OF ok]]
      holds_page_clause [OF assms(2)] by auto
qed

theorem pagination_clause_means_after_witness:
  "\<exists>ts. parse_where (map concat (fst (sqlWords (decode
        (buildPaginationWhereTyped [''SPRAS'', ''ERFZT''] [''D'' , ''24'' @ [APOS] @ '' OR 1''] [(''ERFZT'', ''tims'')]))))) = Some ts
     \<and> (\<forall>lt row. holds_where lt row ts \<longleftrightarrow>
          after_key lt (map row [''SPRAS'', ''ERFZT'']) [''D'', ''24'' @ [APOS] @ '' OR 1''])"
proof -
  have "list_all valid_utf8 [''D'', ''24'' @ [APOS] @ '' OR 1'']" by code_simp
  moreover have "list_all (\<lambda>k. validateIdentifier k = None) [''SPRAS'', ''ERFZT'']" by code_simp
  ultimately show ?thesis by (intro pagination_clause_means_after) auto
qed

end
