(* ===== verification/Query.thy ===== *)
theory Query
  imports Client SqlText
begin

text \<open>
  The data preview (\<open>adt/query.go\<close>): the guard of \<open>RunQuery\<close>, the request, and the transposition
  of the column-wise answer. The execution time is kept as the text SAP sent (the code parses it
  as a float); the default deadline of the context is inside \<open>send\<close>.
\<close>

section \<open>The guard\<close>

definition validateSelectOnly :: "string \<Rightarrow> string option" where
  "validateSelectOnly sql =
     (if sql = [] then Some ''empty SQL statement''
      else if \<not> has_prefix (to_upper sql) ''SELECT'' then
        Some (''only SELECT statements are allowed, got: '' @ hd (split_on (CHR '' '') sql))
      else if contains_str sql '';'' then
        Some ''multi-statement SQL is not allowed (semicolons forbidden)''
      else None)"

section \<open>The answer\<close>

record query_column =
  qc_name :: string
  qc_type :: string
  qc_description :: string
  qc_is_key :: bool

record query_result =
  qr_columns :: "query_column list"
  qr_rows :: "string list list"
  qr_total :: int
  qr_execution :: string

record preview_column =
  pc_name :: string
  pc_type :: string
  pc_description :: string
  pc_key :: string
  pc_data :: "string list"

record data_preview =
  dp_total :: string
  dp_time :: string
  dp_columns :: "preview_column list"

definition decode_preview :: "xml \<Rightarrow> data_preview" where
  "decode_preview x = \<lparr>dp_total = kid_text ''totalRows'' x, dp_time = kid_text ''queryExecutionTime'' x,
     dp_columns = map (\<lambda>c. \<lparr>pc_name = kid_attr ''metadata'' ''name'' c,
       pc_type = kid_attr ''metadata'' ''type'' c, pc_description = kid_attr ''metadata'' ''description'' c,
       pc_key = kid_attr ''metadata'' ''keyAttribute'' c,
       pc_data = map xml_text (kids_path [''dataSet'', ''data''] c)\<rparr>) (kids_named ''columns'' x)\<rparr>"

definition transposeDataPreview :: "data_preview \<Rightarrow> query_result" where
  "transposeDataPreview dp =
     (case dp_columns dp of
        [] \<Rightarrow> \<lparr>qr_columns = [], qr_rows = [], qr_total = atoi0 (dp_total dp), qr_execution = dp_time dp\<rparr>
      | c0 # _ \<Rightarrow>
          \<lparr>qr_columns = map (\<lambda>c. \<lparr>qc_name = pc_name c, qc_type = pc_type c,
             qc_description = pc_description c, qc_is_key = (pc_key c = ''true'')\<rparr>) (dp_columns dp),
           qr_rows = map (\<lambda>r. map (\<lambda>c. if r < length (pc_data c) then pc_data c ! r else [])
             (dp_columns dp)) [0..<length (pc_data c0)],
           qr_total = atoi0 (dp_total dp), qr_execution = dp_time dp\<rparr>)"

definition xml_legal_byte :: "char \<Rightarrow> bool" where
  "xml_legal_byte c \<longleftrightarrow> c = TAB \<or> c = NL \<or> c = CR \<or> (of_char c :: nat) \<ge> 32"

definition sanitizeXML :: "string \<Rightarrow> string" where
  "sanitizeXML data = filter xml_legal_byte data"

section \<open>RunQuery\<close>

definition query_path :: "int \<Rightarrow> string" where
  "query_path maxRows = ''/sap/bc/adt/datapreview/freestyle?rowNumber='' @ itoa (if maxRows \<le> 0 then 1000 else maxRows)"

definition RunQuery :: "'w env \<Rightarrow> string \<Rightarrow> int \<Rightarrow> ('w, query_result) go" where
  "RunQuery E sql maxRows =
     (let trimmed = trim_space sql in
      case validateSelectOnly trimmed of
        Some e \<Rightarrow> fail (wrapf ''RunQuery: '' (Msg e))
      | None \<Rightarrow>
     (case wrapLongSQLLines trimmed of
        Inl e \<Rightarrow> fail (wrapf ''RunQuery: '' (Msg e))
      | Inr wrapped \<Rightarrow>
          tryE (checked E (wrapf ''RunQuery: '') (\<lambda>e. e)
            (doMutateLong E ''POST'' (query_path maxRows) (Some wrapped)
              [(''Content-Type'', ''text/plain''),
               (''Accept'', ''application/vnd.sap.adt.datapreview.table.v1+xml'')])) (\<lambda>resp.
          tryw (wrapf ''RunQuery: reading response: '') (of_sum (read_all resp)) (\<lambda>body.
          tryw (wrapf ''RunQuery: parsing XML: '') (of_sum (unmarshal_root E ''tableData'' (sanitizeXML body)))
            (\<lambda>x. ok (transposeDataPreview (decode_preview x)))))))"

lemma RunQuery_stops [stops]: "stops401 unauth (RunQuery E sql maxRows)"
  unfolding RunQuery_def Let_def
  by (auto split: option.splits sum.splits intro!: stops doMutate_stops)

interpretation run_query: operation "RunQuery E sql maxRows" for E sql maxRows
  by unfold_locales (rule RunQuery_stops)

text \<open>
  C27. Only one read-only statement, whole, ever reaches SAP: beside preflights a query sends a
  POST of the trimmed statement re-wrapped to fit, and only when that starts with SELECT and holds
  no semicolon; otherwise it sends nothing.
\<close>

theorem RunQuery_sends_one_select:
  "\<exists>es. wire (snd (run_state (RunQuery E sql maxRows) s)) = es @ wire s
     \<and> list_all (\<lambda>ev. is_preflight (fst ev)
          \<or> (\<exists>w. rq_body (fst ev) = Some w \<and> rq_method (fst ev) = ''POST''
               \<and> wrapLongSQLLines (trim_space sql) = Inr w)) es
     \<and> (es = [] \<or> (has_prefix (to_upper (trim_space sql)) ''SELECT''
         \<and> CHR '';'' \<notin> set (trim_space sql)))"
proof (cases "validateSelectOnly (trim_space sql)")
  case (Some e)
  then show ?thesis by (simp add: RunQuery_def Let_def)
next
  case None
  then have sel: "has_prefix (to_upper (trim_space sql)) ''SELECT''" "CHR '';'' \<notin> set (trim_space sql)"
    by (auto simp: validateSelectOnly_def contains_str_def index_byte_def [symmetric] index_byte_None
      split: if_splits)
  have "emits (\<lambda>rq. is_preflight rq \<or> (\<exists>w. rq_body rq = Some w \<and> rq_method rq = ''POST''
      \<and> wrapLongSQLLines (trim_space sql) = Inr w)) (RunQuery E sql maxRows)"
    unfolding RunQuery_def Let_def
    by (auto split: option.splits sum.splits intro!: sends simp: accepts_preflight_def accepts_def)
  from emits_run [OF this, of s] sel show ?thesis by auto
qed

lemma drop_case: "(case drop r xs of [] \<Rightarrow> [] | v # _ \<Rightarrow> v) = (if r < length xs then xs ! r else [])"
  by (cases "r < length xs") (simp_all add: Cons_nth_drop_Suc [symmetric])

text \<open>
  The answer is a rectangle: as many rows as the first column has values, each with one cell
  per column, the cell of row \<open>r\<close> and column \<open>c\<close> being the \<open>r\<close>-th value SAP sent for that column
  (an empty text past a short column's end).
\<close>

theorem transposeDataPreview_cells:
  "let q = transposeDataPreview dp in
     length (qr_columns q) = length (dp_columns dp)
     \<and> length (qr_rows q) = (case dp_columns dp of [] \<Rightarrow> 0 | c # _ \<Rightarrow> length (pc_data c))
     \<and> list_all (\<lambda>row. length row = length (qr_columns q)) (qr_rows q)
     \<and> map qc_name (qr_columns q) = map pc_name (dp_columns dp)
     \<and> list_all (\<lambda>r. list_all (\<lambda>c. qr_rows q ! r ! c =
           (case drop r (pc_data (dp_columns dp ! c)) of [] \<Rightarrow> [] | v # _ \<Rightarrow> v))
         [0..<length (dp_columns dp)]) [0..<length (qr_rows q)]"
proof (cases "dp_columns dp")
  case (Cons c cs)
  then have rows: "qr_rows (transposeDataPreview dp) = map (\<lambda>r. map (\<lambda>c. case drop r (pc_data c) of [] \<Rightarrow> [] | v # _ \<Rightarrow> v)
      (dp_columns dp)) [0..<length (pc_data (hd (dp_columns dp)))]"
    by (simp add: transposeDataPreview_def drop_case)
  have cols: "length (qr_columns (transposeDataPreview dp)) = length (dp_columns dp)"
    "map qc_name (qr_columns (transposeDataPreview dp)) = map pc_name (dp_columns dp)"
    using Cons by (simp_all add: transposeDataPreview_def comp_def)
  have n: "(case dp_columns dp of [] \<Rightarrow> 0 | c # _ \<Rightarrow> length (pc_data c)) = length (pc_data (hd (dp_columns dp)))"
    using Cons by simp
  show ?thesis unfolding Let_def rows cols n by (simp add: list_all_iff)
qed (simp add: transposeDataPreview_def)

text \<open>
  A key value with a semicolon: the pagination statement for it is refused by the guard, although
  it is one SELECT.
\<close>

theorem semicolon_value_is_refused:
  "\<exists>sql. BuildExportSQL ''TSEMI'' [''K''] [''K''] [''a;b''] = Inr sql
     \<and> validateSelectOnly sql = Some ''multi-statement SQL is not allowed (semicolons forbidden)''"
  by (rule exI [of _ "''SELECT * FROM TSEMI WHERE K > '' @ [APOS] @ ''a;b'' @ [APOS] @ '' ORDER BY K''"]) code_simp

end
