(* ===== verification/TransportDocs.thy ===== *)
theory TransportDocs
  imports Query Repo
begin

text \<open>
  Reading transport requests (\<open>adt/transport.go\<close>, the transport types of \<open>adt/types.go\<close>): request states,
  the two shapes of the transport organizer's answer, its tasks and objects, the capability the client
  derives from the relations of an answer, and the E070 and E071 queries that stand in for it.
\<close>

section \<open>States and filters\<close>

datatype transport_state =
    TransportStateUnknown
  | TransportStateModifiable
  | TransportStateReleaseInProgress
  | TransportStateReleased

definition transportStatusLetters :: "string list" where
  "transportStatusLetters = [''D'', ''L'', ''O'', ''R'', ''N'']"

definition TransportStateOf :: "string \<Rightarrow> transport_state" where
  "TransportStateOf raw =
     (if raw = ''D'' \<or> raw = ''L'' then TransportStateModifiable
      else if raw = ''O'' then TransportStateReleaseInProgress
      else if raw = ''R'' \<or> raw = ''N'' then TransportStateReleased
      else TransportStateUnknown)"

definition transportStateNames :: "(string \<times> transport_state) list" where
  "transportStateNames =
     [(''unknown'', TransportStateUnknown), (''modifiable'', TransportStateModifiable),
      (''release_in_progress'', TransportStateReleaseInProgress), (''released'', TransportStateReleased)]"

fun state_text :: "transport_state \<Rightarrow> string" where
  "state_text TransportStateUnknown = ''unknown''"
| "state_text TransportStateModifiable = ''modifiable''"
| "state_text TransportStateReleaseInProgress = ''release_in_progress''"
| "state_text TransportStateReleased = ''released''"

definition state_of_text :: "string \<Rightarrow> err + transport_state" where
  "state_of_text t = (case map_of transportStateNames t of
      Some st \<Rightarrow> Inr st
    | None \<Rightarrow> Inl (Msg (''unknown transport state '' @ quoted t)))"

text \<open>\<open>TransportFilter\<close> is an \<open>int\<close>: a caller can pass one that is none of the three constants.\<close>

type_synonym transport_filter = int

abbreviation TransportFilterAll :: transport_filter where "TransportFilterAll \<equiv> 0"
abbreviation TransportFilterModifiable :: transport_filter where "TransportFilterModifiable \<equiv> 1"
abbreviation TransportFilterReleased :: transport_filter where "TransportFilterReleased \<equiv> 2"

definition filter_matches :: "transport_filter \<Rightarrow> transport_state \<Rightarrow> bool" where
  "filter_matches f st =
     (if f = TransportFilterModifiable then st = TransportStateModifiable
      else if f = TransportFilterReleased then st = TransportStateReleased
      else True)"

definition transportFilterNames :: "string list" where
  "transportFilterNames = [''all'', ''modifiable'', ''released'']"

definition filter_text :: "transport_filter \<Rightarrow> string" where
  "filter_text f =
     (if f < 0 \<or> f \<ge> 3 then ''TransportFilter('' @ itoa f @ '')'' else transportFilterNames ! nat f)"

definition filter_marshal :: "transport_filter \<Rightarrow> err + string" where
  "filter_marshal f =
     (if f < 0 \<or> f \<ge> 3 then Inl (Msg (''invalid transport filter '' @ itoa f)) else Inr (transportFilterNames ! nat f))"

definition filter_unmarshal :: "string \<Rightarrow> err + transport_filter" where
  "filter_unmarshal t =
     (case map_of (zip transportFilterNames [0, 1, 2]) t of
        Some f \<Rightarrow> Inr f
      | None \<Rightarrow> Inl (Msg (''unknown transport filter '' @ quoted t @ '' (want all, modifiable or released)'')))"

section \<open>Documents\<close>

record transport_request =
  tr_number :: string
  tr_owner :: string
  tr_description :: string
  tr_state :: transport_state
  tr_raw :: string

record transport_object =
  tob_pgmid :: string
  tob_type :: string
  tob_name :: string
  tob_wbtype :: string
  tob_position :: string
  tob_task :: string

record xml_task =
  xt_number :: string
  xt_objects :: "transport_object list"

record xml_request =
  xr_number :: string
  xr_owner :: string
  xr_desc :: string
  xr_status :: string
  xr_objects :: "transport_object list"
  xr_tasks :: "xml_task list"

record xml_transport_doc =
  xd_request :: xml_request
  xd_sections :: "xml_request list list"

text \<open>
  \<open>xmlObject\<close>, without a task yet. The objects of a request or task are its direct \<open>abap_object\<close> children
  followed by those inside \<open>all_objects\<close> (\<open>mergeObjectSources\<close>).
\<close>

definition xmlObject :: "xml \<Rightarrow> transport_object" where
  "xmlObject x = \<lparr>tob_pgmid = xml_attr x ''pgmid'', tob_type = xml_attr x ''type'', tob_name = xml_attr x ''name'',
     tob_wbtype = xml_attr x ''wbtype'', tob_position = xml_attr x ''position'', tob_task = []\<rparr>"

definition objectsOf :: "xml list \<Rightarrow> transport_object list" where
  "objectsOf xs =
     map xmlObject (concat (map (kids_named ''abap_object'') xs) @ concat (map (kids_path [''all_objects'', ''abap_object'']) xs))"

definition xmlTask :: "xml \<Rightarrow> xml_task" where
  "xmlTask x = \<lparr>xt_number = xml_attr x ''number'', xt_objects = objectsOf [x]\<rparr>"

text \<open>A field of several equally named elements: slices accumulate, the last value of an attribute counts.\<close>

definition xmlRequests :: "xml list \<Rightarrow> xml_request" where
  "xmlRequests xs =
     (let a = merged_attr xs in
      \<lparr>xr_number = a ''number'', xr_owner = a ''owner'', xr_desc = a ''desc'', xr_status = a ''status'',
       xr_objects = objectsOf xs, xr_tasks = map xmlTask (concat (map (kids_named ''task'') xs))\<rparr>)"

text \<open>Every child element of a group is a section, whatever its name.\<close>

definition all_kids :: "xml \<Rightarrow> xml list" where
  "all_kids x = filter (\<lambda>k. case k of Elem _ _ _ _ \<Rightarrow> True | Text _ \<Rightarrow> False)
     (case x of Elem _ _ _ ks \<Rightarrow> ks | Text _ \<Rightarrow> [])"

definition groupSections :: "string \<Rightarrow> xml \<Rightarrow> xml_request list list" where
  "groupSections n x = map (\<lambda>sec. map (\<lambda>r. xmlRequests [r]) (kids_named ''request'' sec))
     (concat (map all_kids (kids_named n x)))"

definition xmlTransportDoc :: "xml \<Rightarrow> xml_transport_doc" where
  "xmlTransportDoc x = \<lparr>xd_request = xmlRequests (kids_named ''request'' x),
     xd_sections = groupSections ''workbench'' x @ groupSections ''customizing'' x\<rparr>"

definition matchesTransportNumber :: "string \<Rightarrow> string \<Rightarrow> bool" where
  "matchesTransportNumber reqNumber transportNumber =
     (if reqNumber = [] \<or> transportNumber = [] then False else equal_fold reqNumber transportNumber)"

text \<open>The requests \<open>walkRequests\<close> calls its function for, in this order.\<close>

definition walkRequests :: "xml_transport_doc \<Rightarrow> string \<Rightarrow> xml_request list" where
  "walkRequests doc transportNumber =
     filter (\<lambda>r. matchesTransportNumber (xr_number r) transportNumber) (concat (xd_sections doc))"

definition absentTransportError :: "string \<Rightarrow> err" where
  "absentTransportError n = Wrap (''transport '' @ n @ '' is '') (Sentinel ErrTransportAbsent)
     ''; on ECC that endpoint returns only modifiable requests, so released requests cannot be read this way''"

text \<open>
  The requests of an answer that are the addressed one: the single request of the first format, if its
  number is the one asked for, or the matching requests of the second format. All three parsers begin so.
\<close>

definition addressedRequests :: "xml_transport_doc \<Rightarrow> string \<Rightarrow> err + xml_request list" where
  "addressedRequests doc transportNumber =
     (if xr_number (xd_request doc) \<noteq> [] then
        (if transportNumber = [] \<or> equal_fold (xr_number (xd_request doc)) transportNumber then Inr [xd_request doc]
         else Inl (absentTransportError transportNumber))
      else (case walkRequests doc transportNumber of
          [] \<Rightarrow> Inl (absentTransportError transportNumber)
        | r # rs \<Rightarrow> Inr (r # rs)))"

definition parseTransportDoc :: "'w env \<Rightarrow> string \<Rightarrow> string \<Rightarrow> string \<Rightarrow> err + xml_request list" where
  "parseTransportDoc E what data transportNumber =
     (case unmarshal_any E data of
        Inl e \<Rightarrow> Inl (wrapf (''parsing transport '' @ what @ '': '') e)
      | Inr x \<Rightarrow> addressedRequests (xmlTransportDoc x) transportNumber)"

definition toTransportRequest :: "xml_request \<Rightarrow> transport_request" where
  "toTransportRequest r = \<lparr>tr_number = xr_number r, tr_owner = xr_owner r, tr_description = xr_desc r,
     tr_state = TransportStateOf (xr_status r), tr_raw = xr_status r\<rparr>"

text \<open>Only the first of several matches counts.\<close>

definition parseTransportInfo :: "'w env \<Rightarrow> string \<Rightarrow> string \<Rightarrow> err + transport_request" where
  "parseTransportInfo E data transportNumber =
     map_sum id (\<lambda>rs. toTransportRequest (hd rs)) (parseTransportDoc E ''info'' data transportNumber)"

definition parseTransportTaskNumbers :: "'w env \<Rightarrow> string \<Rightarrow> string \<Rightarrow> err + string list" where
  "parseTransportTaskNumbers E data transportNumber =
     map_sum id (\<lambda>rs. filter (\<lambda>n. n \<noteq> []) (map xt_number (concat (map xr_tasks rs))))
       (parseTransportDoc E ''tasks'' data transportNumber)"

section \<open>The list of objects, each once\<close>

definition object_key :: "transport_object \<Rightarrow> string" where
  "object_key ob = tob_pgmid ob @ ''/'' @ tob_type ob @ ''/'' @ tob_name ob"

fun index_of_key :: "string \<Rightarrow> transport_object list \<Rightarrow> nat option" where
  "index_of_key k [] = None"
| "index_of_key k (ob # obs) = (if object_key ob = k then Some 0 else map_option Suc (index_of_key k obs))"

text \<open>\<open>transportObjectDeduper.add\<close>: the occurrence carries its task.\<close>

definition dedup_add :: "transport_object list \<Rightarrow> transport_object \<Rightarrow> transport_object list" where
  "dedup_add obs ob =
     (if tob_name ob = [] then obs
      else case index_of_key (object_key ob) obs of
          Some i \<Rightarrow>
            (if tob_task (obs ! i) = [] \<and> tob_task ob \<noteq> [] then obs[i := (obs ! i)\<lparr>tob_task := tob_task ob\<rparr>] else obs)
        | None \<Rightarrow> obs @ [ob])"

definition dedup_objects :: "transport_object list \<Rightarrow> transport_object list" where
  "dedup_objects occs = foldl dedup_add [] occs"

definition requestOccurrences :: "xml_request \<Rightarrow> transport_object list" where
  "requestOccurrences r = xr_objects r
     @ concat (map (\<lambda>t. map (\<lambda>ob. ob\<lparr>tob_task := xt_number t\<rparr>) (xt_objects t)) (xr_tasks r))"

definition parseTransportObjectsXML :: "'w env \<Rightarrow> string \<Rightarrow> string \<Rightarrow> err + transport_object list" where
  "parseTransportObjectsXML E data transportNumber =
     map_sum id (\<lambda>rs. dedup_objects (concat (map requestOccurrences rs)))
       (parseTransportDoc E ''objects'' data transportNumber)"

section \<open>What the system can do\<close>

definition removeObjectRelation :: string where
  "removeObjectRelation = ''http://www.sap.com/cts/relations/removeobject''"
definition addObjectRelation :: string where
  "addObjectRelation = ''http://www.sap.com/cts/relations/addobject''"

text \<open>Every non-empty \<open>rel\<close> attribute of the document, at any depth.\<close>

fun collectRels :: "xml \<Rightarrow> string list" where
  "collectRels (Text t) = []"
| "collectRels (Elem n sp as ks) =
     (let r = xml_attr (Elem n sp as ks) ''rel'' in if r = [] then [] else [r]) @ concat (map collectRels ks)"

definition relationsOf :: "'w env \<Rightarrow> string \<Rightarrow> string list" where
  "relationsOf E data = (case unmarshal_any E data of Inl _ \<Rightarrow> [] | Inr x \<Rightarrow> collectRels x)"

definition isLegacyTransportWorklistXML :: "'w env \<Rightarrow> string \<Rightarrow> bool" where
  "isLegacyTransportWorklistXML E data =
     (case unmarshal_any E data of
        Inl _ \<Rightarrow> False
      | Inr x \<Rightarrow> list_ex (\<lambda>rs. rs \<noteq> []) (xd_sections (xmlTransportDoc x)))"

definition deriveRemoveObjectSupport :: "'w env \<Rightarrow> string \<Rightarrow> removeobject_support" where
  "deriveRemoveObjectSupport E data =
     (let rels = relationsOf E data in
      if rels = [] then RemoveObjectUnknown
      else if removeObjectRelation \<in> set rels \<or> addObjectRelation \<in> set rels then RemoveObjectSupported
      else if isLegacyTransportWorklistXML E data then RemoveObjectUnsupported
      else RemoveObjectUnknown)"

definition cacheRemoveObjectSupport :: "'w env \<Rightarrow> string \<Rightarrow> 'w cl \<Rightarrow> 'w cl" where
  "cacheRemoveObjectSupport E data s =
     (if removeObjectSupport s \<noteq> RemoveObjectUnknown then s
      else s\<lparr>removeObjectSupport := deriveRemoveObjectSupport E data\<rparr>)"

section \<open>Reading a request\<close>

definition transportRequestsPath :: string where
  "transportRequestsPath = ''/sap/bc/adt/cts/transportrequests''"

definition transportOrganizerType :: string where
  "transportOrganizerType = ''application/vnd.sap.adt.transportorganizer.v1+xml''"

definition organizerOrXML :: string where
  "organizerOrXML = transportOrganizerType @ '', application/xml''"

definition readTransportXML :: "'w env \<Rightarrow> string \<Rightarrow> string \<Rightarrow> ('w, string) go" where
  "readTransportXML E transportNumber accept =
     tryE (checked E (\<lambda>e. e) (\<lambda>e. e)
       (doRead E (transportRequestsPath @ ''/'' @ path_escape transportNumber) [(''Accept'', accept)])) (\<lambda>resp.
     tryE (of_sum (read_all resp)) (\<lambda>data.
     State_Monad.bind (modify (cacheRemoveObjectSupport E data)) (\<lambda>_. ok data)))"

definition GetTransportInfo :: "'w env \<Rightarrow> string \<Rightarrow> ('w, transport_request) go" where
  "GetTransportInfo E transportNumber =
     tryw (wrapf ''GetTransportInfo: '') (readTransportXML E transportNumber transportOrganizerType) (\<lambda>data.
       of_sum (parseTransportInfo E data transportNumber))"

definition GetTransportTasks :: "'w env \<Rightarrow> string \<Rightarrow> ('w, string list) go" where
  "GetTransportTasks E transportNumber =
     tryw (wrapf ''GetTransportTasks: '') (readTransportXML E transportNumber organizerOrXML) (\<lambda>data.
       of_sum (parseTransportTaskNumbers E data transportNumber))"

section \<open>Columns of a query's answer\<close>

text \<open>The position of a column, the last one of that name; \<open>None\<close> is the code's \<open>-1\<close>.\<close>

definition column_index :: "query_result \<Rightarrow> string \<Rightarrow> nat option" where
  "column_index qr nm =
     (let is = filter (\<lambda>i. qc_name (qr_columns qr ! i) = nm) [0..<length (qr_columns qr)] in
      if is = [] then None else Some (last is))"

definition requireQueryColumns :: "string \<Rightarrow> query_result \<Rightarrow> string list \<Rightarrow> err option" where
  "requireQueryColumns context qr names =
     (case filter (\<lambda>nm. column_index qr nm = None) names of
        [] \<Rightarrow> None
      | [nm] \<Rightarrow> Some (Msg (context @ '' returned no '' @ nm @ '' column''))
      | missing \<Rightarrow> Some (Msg (context @ '' returned no required columns: '' @ join '', '' missing)))"

definition queryCell :: "query_result \<Rightarrow> string \<Rightarrow> string list \<Rightarrow> string" where
  "queryCell qr nm row =
     (case column_index qr nm of
        None \<Rightarrow> []
      | Some i \<Rightarrow> if i < length row then trim_space (row ! i) else [])"

section \<open>E070 and E071\<close>

definition transport_number_char :: "char \<Rightarrow> bool" where
  "transport_number_char c \<longleftrightarrow> is_upper c \<or> is_lower c \<or> is_digit c
     \<or> c \<in> {CHR ''_'', CHR ''/'', CHR ''.'', CHR ''-''}"

definition transportNumberOK :: "string \<Rightarrow> bool" where
  "transportNumberOK n \<longleftrightarrow> 1 \<le> length n \<and> length n \<le> 20 \<and> list_all transport_number_char n"

definition e071ObjectQueryMaxRows :: int where "e071ObjectQueryMaxRows = 5000"

definition quote_literal :: "string \<Rightarrow> string" where
  "quote_literal v = [APOS] @ v @ [APOS]"

definition e070NumbersSQL :: "string \<Rightarrow> string" where
  "e070NumbersSQL n = ''SELECT TRKORR, STRKORR FROM E070 WHERE TRKORR = '' @ quote_literal n
     @ '' OR STRKORR = '' @ quote_literal n @ '' ORDER BY TRKORR''"

text \<open>One row of the answer: the number of a further task, if it is one.\<close>

definition addTask :: "query_result \<Rightarrow> string \<Rightarrow> string list \<Rightarrow> string list \<Rightarrow> string list" where
  "addTask qr n numbers row =
     (let task = to_upper (queryCell qr ''TRKORR'' row) in
      if \<not> equal_fold (queryCell qr ''STRKORR'' row) n then numbers
      else if task = [] \<or> task \<in> set numbers \<or> \<not> transportNumberOK task then numbers
      else numbers @ [task])"

definition transportQueryNumbers :: "'w env \<Rightarrow> string \<Rightarrow> ('w, string list) go" where
  "transportQueryNumbers E n =
     tryw (wrapf ''E070 request/task query: '') (RunQuery E (e070NumbersSQL n) 5000) (\<lambda>qr.
       if qr_rows qr = [] then fail (absentTransportError n)
       else case requireQueryColumns ''E070 request/task query'' qr [''TRKORR'', ''STRKORR''] of
           Some e \<Rightarrow> fail e
         | None \<Rightarrow> ok (foldl (addTask qr n) [n] (qr_rows qr)))"

definition e071SQL :: "string list \<Rightarrow> string" where
  "e071SQL numbers = ''SELECT TRKORR, AS4POS, PGMID, OBJECT, OBJ_NAME FROM E071 WHERE ( ''
     @ join '' OR '' (map (\<lambda>n. ''TRKORR = '' @ quote_literal n) numbers)
     @ '' ) AND PGMID <> '' @ quote_literal ''CORR'' @ '' ORDER BY TRKORR, AS4POS''"

definition e071Occurrence :: "query_result \<Rightarrow> string \<Rightarrow> string list \<Rightarrow> transport_object" where
  "e071Occurrence qr n row =
     (let task = queryCell qr ''TRKORR'' row in
      \<lparr>tob_pgmid = queryCell qr ''PGMID'' row, tob_type = queryCell qr ''OBJECT'' row,
       tob_name = queryCell qr ''OBJ_NAME'' row, tob_wbtype = [], tob_position = queryCell qr ''AS4POS'' row,
       tob_task = (if equal_fold task n then [] else task)\<rparr>)"

definition e071Objects :: "query_result \<Rightarrow> string \<Rightarrow> transport_object list" where
  "e071Objects qr n = dedup_objects (map (e071Occurrence qr n)
     (filter (\<lambda>row. \<not> equal_fold (queryCell qr ''PGMID'' row) ''CORR'') (qr_rows qr)))"

definition truncatedError :: "string \<Rightarrow> query_result \<Rightarrow> err" where
  "truncatedError transportNumber qr = Msg (''E071 object query: transport '' @ transportNumber @ '' has at least ''
     @ itoa e071ObjectQueryMaxRows @ '' objects, at or above the '' @ itoa e071ObjectQueryMaxRows
     @ ''-row query cap (returned '' @ itoa (int (length (qr_rows qr))) @ '' rows, server-reported TotalRows ''
     @ itoa (qr_total qr) @ '')'' @ em_dash
     @ ''refusing to return a possibly truncated list'')"

definition getTransportObjectsViaQuery :: "'w env \<Rightarrow> string \<Rightarrow> ('w, transport_object list) go" where
  "getTransportObjectsViaQuery E transportNumber =
     (if \<not> transportNumberOK transportNumber then
        fail (Wrap (''transport number '' @ quoted transportNumber @ '' '') (Sentinel ErrTransportNumberUnsafe) [])
      else
        (let n = to_upper transportNumber in
         tryE (transportQueryNumbers E n) (\<lambda>numbers.
         tryw (wrapf ''E071 object query: '') (RunQuery E (e071SQL numbers) e071ObjectQueryMaxRows) (\<lambda>qr.
           if int (length (qr_rows qr)) \<ge> e071ObjectQueryMaxRows \<or> qr_total qr \<ge> e071ObjectQueryMaxRows then
             fail (truncatedError transportNumber qr)
           else case requireQueryColumns ''E071 object query'' qr
               [''TRKORR'', ''AS4POS'', ''PGMID'', ''OBJECT'', ''OBJ_NAME''] of
               Some e \<Rightarrow> fail e
             | None \<Rightarrow> ok (e071Objects qr n)))))"

text \<open>What \<open>GetTransportObjects\<close> reports when neither source had the request.\<close>

definition objectsError :: "err \<Rightarrow> err \<Rightarrow> err" where
  "objectsError e queryErr =
     (if is_sentinel ErrTransportNumberUnsafe queryErr then wrapf ''GetTransportObjects: '' queryErr
      else if is_sentinel ErrTransportAbsent queryErr then
        Wrap ''GetTransportObjects: '' e ''; it has no E070 entry on this system either''
      else Wrap2 ''GetTransportObjects: '' e ''; the E071 query fallback did not resolve it either: '' queryErr)"

definition GetTransportObjects :: "'w env \<Rightarrow> string \<Rightarrow> ('w, transport_object list) go" where
  "GetTransportObjects E transportNumber =
     tryw (wrapf ''GetTransportObjects: '') (readTransportXML E transportNumber organizerOrXML) (\<lambda>data.
       case parseTransportObjectsXML E data transportNumber of
         Inr obs \<Rightarrow> ok obs
       | Inl e \<Rightarrow>
           if \<not> is_sentinel ErrTransportAbsent e then fail e
           else tryw (objectsError e) (getTransportObjectsViaQuery E transportNumber) ok)"

section \<open>Texts of states and filters\<close>

lemma state_of_state_text [simp]: "state_of_text (state_text st) = Inr st"
  by (cases st) (simp_all add: state_of_text_def transportStateNames_def)

lemma state_text_of_state: "state_of_text t = Inr st \<Longrightarrow> state_text st = t"
  by (auto simp: state_of_text_def transportStateNames_def split: if_splits option.splits)

lemma filter_marshal_unmarshal:
  "filter_marshal f = Inr t \<longleftrightarrow> filter_unmarshal t = Inr f"
proof
  assume "filter_marshal f = Inr t"
  then have "f \<in> {0, 1, 2} \<and> t = transportFilterNames ! nat f"
    by (auto simp: filter_marshal_def split: if_splits)
  then show "filter_unmarshal t = Inr f"
    by (auto simp: filter_unmarshal_def transportFilterNames_def)
qed (auto simp: filter_marshal_def filter_unmarshal_def transportFilterNames_def split: if_splits option.splits)

section \<open>Each object once\<close>

text \<open>
  The reference: the keys in the order they first occur, each with its first occurrence and the first
  task any occurrence names. Objects without a name do not count.
\<close>

definition first_task :: "transport_object list \<Rightarrow> string" where
  "first_task obs = (case filter (\<lambda>t. t \<noteq> []) (map tob_task obs) of [] \<Rightarrow> [] | t # _ \<Rightarrow> t)"

definition merged_object :: "transport_object list \<Rightarrow> string \<Rightarrow> transport_object" where
  "merged_object occs k = (let same = filter (\<lambda>ob. object_key ob = k) occs in
     (hd same)\<lparr>tob_task := first_task same\<rparr>)"

definition first_keys :: "transport_object list \<Rightarrow> string list" where
  "first_keys occs = rev (remdups (rev (map object_key occs)))"

definition merged_all :: "transport_object list \<Rightarrow> transport_object list" where
  "merged_all occs = map (merged_object occs) (first_keys occs)"

definition merged_objects :: "transport_object list \<Rightarrow> transport_object list" where
  "merged_objects occs = merged_all (filter (\<lambda>ob. tob_name ob \<noteq> []) occs)"

lemma object_key_task [simp]: "object_key (ob\<lparr>tob_task := t\<rparr>) = object_key ob"
  by (simp add: object_key_def)

lemma object_key_merged: "k \<in> set (map object_key occs) \<Longrightarrow> object_key (merged_object occs k) = k"
proof -
  assume "k \<in> set (map object_key occs)"
  then have "filter (\<lambda>ob. object_key ob = k) occs \<noteq> []" by (auto simp: filter_empty_conv)
  then have "hd (filter (\<lambda>ob. object_key ob = k) occs) \<in> set (filter (\<lambda>ob. object_key ob = k) occs)"
    by (rule hd_in_set)
  then show ?thesis by (simp add: merged_object_def Let_def)
qed

lemma index_of_key_map:
  "\<forall>k \<in> set ks. object_key (g k) = k \<Longrightarrow> distinct ks \<Longrightarrow>
     (k \<notin> set ks \<longrightarrow> index_of_key k (map g ks) = None)
     \<and> (k \<in> set ks \<longrightarrow> (\<exists>i. index_of_key k (map g ks) = Some i \<and> i < length ks \<and> ks ! i = k))"
  by (induction ks) auto

lemma first_keys_snoc:
  "first_keys (occs @ [ob]) =
     (if object_key ob \<in> set (first_keys occs) then first_keys occs else first_keys occs @ [object_key ob])"
  by (simp add: first_keys_def)

lemma set_first_keys: "set (first_keys occs) = object_key ` set occs"
  by (simp add: first_keys_def)

lemma distinct_first_keys: "distinct (first_keys occs)"
  by (simp add: first_keys_def)

lemma first_task_snoc:
  "first_task (obs @ [ob]) = (if first_task obs = [] then tob_task ob else first_task obs)"
proof (cases "filter (\<lambda>t. t \<noteq> []) (map tob_task obs)")
  case Nil
  then show ?thesis by (simp add: first_task_def)
next
  case (Cons t ts)
  have "t \<in> set (filter (\<lambda>t. t \<noteq> []) (map tob_task obs))" by (simp only: Cons list.set_intros)
  then have "t \<noteq> []" by simp
  with Cons show ?thesis by (simp add: first_task_def)
qed

lemma merged_object_other:
  "object_key ob \<noteq> k \<Longrightarrow> merged_object (occs @ [ob]) k = merged_object occs k"
  by (simp add: merged_object_def)

lemma merged_object_same:
  assumes "object_key ob \<in> object_key ` set occs"
  shows "merged_object (occs @ [ob]) (object_key ob) =
    (if tob_task (merged_object occs (object_key ob)) = [] \<and> tob_task ob \<noteq> [] then
       (merged_object occs (object_key ob))\<lparr>tob_task := tob_task ob\<rparr>
     else merged_object occs (object_key ob))"
proof -
  have "filter (\<lambda>o'. object_key o' = object_key ob) occs \<noteq> []"
    using assms by (auto simp: filter_empty_conv)
  then have "merged_object (occs @ [ob]) (object_key ob) =
    (if tob_task (merged_object occs (object_key ob)) = [] then
       (merged_object occs (object_key ob))\<lparr>tob_task := tob_task ob\<rparr>
     else merged_object occs (object_key ob))"
    by (simp add: merged_object_def Let_def first_task_snoc)
  then show ?thesis by (cases "merged_object occs (object_key ob)") auto
qed

lemma merged_object_new:
  assumes "object_key ob \<notin> object_key ` set occs"
  shows "merged_object (occs @ [ob]) (object_key ob) = ob"
proof -
  have "\<forall>o' \<in> set occs. object_key o' \<noteq> object_key ob" using assms by (metis image_eqI)
  then have "filter (\<lambda>o'. object_key o' = object_key ob) occs = []" by (simp add: filter_empty_conv)
  then show ?thesis by (simp add: merged_object_def Let_def first_task_def)
qed

lemma named_after:
  "dedup_objects (occs @ [ob]) = dedup_add (dedup_objects occs) ob"
  by (simp add: dedup_objects_def)

lemma merged_update:
  assumes "i < length ks" "ks ! i = k" "distinct ks" "\<And>k'. k' \<noteq> k \<Longrightarrow> g' k' = g k'"
  shows "map g' ks = (map g ks)[i := g' k]"
proof (rule nth_equalityI)
  fix j assume "j < length (map g' ks)"
  then have j: "j < length ks" by simp
  show "map g' ks ! j = (map g ks)[i := g' k] ! j"
  proof (cases "i = j")
    case True
    then show ?thesis using j assms(2) by simp
  next
    case False
    with assms j have "ks ! j \<noteq> k" by (metis nth_eq_iff_index_eq)
    with assms(4) False j show ?thesis by simp
  qed
qed simp

lemma dedup_step:
  assumes "tob_name ob \<noteq> []"
  shows "dedup_add (merged_all occs) ob = merged_all (occs @ [ob])"
proof -
  let ?ks = "first_keys occs"
  have own: "\<forall>k \<in> set ?ks. object_key (merged_object occs k) = k"
    by (simp add: set_first_keys object_key_merged)
  note ix = index_of_key_map [OF own distinct_first_keys, of "object_key ob"]
  show ?thesis
  proof (cases "object_key ob \<in> object_key ` set occs")
    case True
    with ix obtain i where
      i: "index_of_key (object_key ob) (merged_all occs) = Some i" "i < length ?ks" "?ks ! i = object_key ob"
      by (auto simp: merged_all_def set_first_keys)
    have keys: "first_keys (occs @ [ob]) = ?ks" using True by (simp add: first_keys_snoc set_first_keys)
    have upd: "merged_all (occs @ [ob]) = (merged_all occs)[i := merged_object (occs @ [ob]) (object_key ob)]"
      unfolding merged_all_def keys
      by (rule merged_update [OF i(2,3) distinct_first_keys]) (simp add: merged_object_other)
    have old: "merged_all occs ! i = merged_object occs (object_key ob)" using i by (simp add: merged_all_def)
    show ?thesis
    proof (cases "tob_task (merged_object occs (object_key ob)) = [] \<and> tob_task ob \<noteq> []")
      case True
      then show ?thesis
        using assms i(1) merged_object_same [OF \<open>object_key ob \<in> object_key ` set occs\<close>] old
        unfolding upd by (simp add: dedup_add_def)
    next
      case False
      then have "merged_object (occs @ [ob]) (object_key ob) = merged_all occs ! i"
        using merged_object_same [OF \<open>object_key ob \<in> object_key ` set occs\<close>] unfolding old by argo
      then have "(merged_all occs)[i := merged_object (occs @ [ob]) (object_key ob)] = merged_all occs"
        by (metis list_update_id)
      moreover have "dedup_add (merged_all occs) ob = merged_all occs"
        using False assms i(1) old by (auto simp: dedup_add_def)
      ultimately show ?thesis unfolding upd by (rule trans [OF _ sym, rotated])
    qed
  next
    case False
    with ix have none: "index_of_key (object_key ob) (merged_all occs) = None"
      by (simp add: merged_all_def set_first_keys)
    have keys: "first_keys (occs @ [ob]) = ?ks @ [object_key ob]"
      using False by (simp add: first_keys_snoc set_first_keys)
    have "map (merged_object (occs @ [ob])) ?ks = merged_all occs"
      using False unfolding merged_all_def by (intro map_cong refl merged_object_other) (auto simp: set_first_keys)
    with none assms show ?thesis
      by (simp add: dedup_add_def merged_all_def keys merged_object_new [OF False])
  qed
qed

text \<open>
  C35. The list of objects names each object once, in the order of first mention, with the first
  task any of its mentions is in; a mention without a name is dropped.
\<close>

theorem dedup_objects_merges: "dedup_objects occs = merged_objects occs"
proof (induction occs rule: rev_induct)
  case Nil
  then show ?case by (simp add: dedup_objects_def merged_objects_def merged_all_def first_keys_def)
next
  case (snoc ob occs)
  show ?case
  proof (cases "tob_name ob = []")
    case True
    with snoc show ?thesis by (simp add: named_after merged_objects_def dedup_add_def)
  next
    case False
    with snoc dedup_step [of ob "filter (\<lambda>ob. tob_name ob \<noteq> []) occs"] show ?thesis
      by (simp add: named_after merged_objects_def)
  qed
qed

section \<open>Sequences of the reads\<close>

lemma cache_same [simp]:
  "wire (cacheRemoveObjectSupport E data s) = wire s" "oauth (cacheRemoveObjectSupport E data s) = oauth s"
  by (simp_all add: cacheRemoveObjectSupport_def)

lemma readTransportXML_stops [stops]: "stops401 unauth (readTransportXML E n accept)"
  unfolding readTransportXML_def
  by (intro stops stops401_bind_modify doRead_stops; simp)

lemma GetTransportInfo_stops [stops]: "stops401 unauth (GetTransportInfo E n)"
  unfolding GetTransportInfo_def by (intro stops) simp

lemma GetTransportTasks_stops [stops]: "stops401 unauth (GetTransportTasks E n)"
  unfolding GetTransportTasks_def by (intro stops) simp

lemma readTransportXML_quiet [effects]: "quiet (readTransportXML E n accept)"
  unfolding readTransportXML_def
  by (intro effects; simp)

text \<open>
  \<open>objectsError\<close> may hide the status of the query's error behind the sentence about E070, so the
  promise of \<open>GetTransportObjects\<close> is the weaker one: after a rejected credential it fails and sends nothing.
\<close>

lemma transportQueryNumbers_stops [stops]: "stops401 unauth (transportQueryNumbers E n)"
  unfolding transportQueryNumbers_def
  by (auto intro!: stops split: option.splits)

lemma getTransportObjectsViaQuery_stops [stops]: "stops401 unauth (getTransportObjectsViaQuery E n)"
  unfolding getTransportObjectsViaQuery_def Let_def
  by (auto intro!: stops split: option.splits)

lemma GetTransportObjects_halts: "halts (GetTransportObjects E n)"
  unfolding GetTransportObjects_def
  by (intro halts_tryw; auto split: sum.splits intro!: halts_tryw intro: halts_stops stops)

section \<open>What reaches the data preview\<close>

lemma transport_number_plain:
  "transportNumberOK n \<Longrightarrow> APOS \<notin> set n \<and> CHR '';'' \<notin> set n \<and> CHR '' '' \<notin> set n \<and> NL \<notin> set n"
  by (auto simp: transportNumberOK_def list_all_iff transport_number_char_def is_upper_def is_lower_def is_digit_def)

lemma transport_number_char_upper: "transport_number_char c \<Longrightarrow> transport_number_char (upper_char c)"
  by (auto simp: transport_number_char_def upper_char_def is_upper_def is_lower_def is_digit_def)

lemma transportNumberOK_upper: "transportNumberOK n \<Longrightarrow> transportNumberOK (to_upper n)"
  by (auto simp: transportNumberOK_def to_upper_def list_all_iff transport_number_char_upper)

lemma addTask_numbers:
  "list_all transportNumberOK ns \<Longrightarrow> list_all transportNumberOK (addTask qr n ns row)"
  by (simp add: addTask_def Let_def)

lemma foldl_addTask_numbers:
  "list_all transportNumberOK ns \<Longrightarrow> list_all transportNumberOK (foldl (addTask qr n) ns rows)"
  by (induction rows arbitrary: ns) (simp_all add: addTask_numbers)

definition query_of :: "string \<Rightarrow> request \<Rightarrow> bool" where
  "query_of sql rq \<longleftrightarrow> rq_method rq = ''POST''
     \<and> (\<exists>w. rq_body rq = Some w \<and> wrapLongSQLLines (trim_space sql) = Inr w)"

lemma RunQuery_sends [sends]:
  assumes "accepts_preflight E P" "\<And>rq. query_of sql rq \<Longrightarrow> P rq"
  shows "emits P (RunQuery E sql maxRows)"
  unfolding RunQuery_def Let_def
  using assms by (auto split: option.splits sum.splits intro!: sends simp: accepts_def query_of_def)

definition number_query :: "request \<Rightarrow> bool" where
  "number_query rq \<longleftrightarrow> (\<exists>n. transportNumberOK n \<and> query_of (e070NumbersSQL n) rq)
     \<or> (\<exists>ns. list_all transportNumberOK ns \<and> query_of (e071SQL ns) rq)"

lemma transportQueryNumbers_yields:
  "transportNumberOK n \<Longrightarrow> yields (\<lambda>r. case r of Inl _ \<Rightarrow> True | Inr ns \<Rightarrow> list_all transportNumberOK ns) (transportQueryNumbers E n)"
  unfolding transportQueryNumbers_def tryw_def
  by (rule yields_bind_any)
    (auto split: sum.splits option.splits intro!: yields_intro simp: foldl_addTask_numbers)

lemma getTransportObjectsViaQuery_sends:
  assumes "accepts_preflight E P" "\<And>rq. number_query rq \<Longrightarrow> P rq"
  shows "emits P (getTransportObjectsViaQuery E n)"
proof (cases "transportNumberOK n")
  case True
  then have up: "transportNumberOK (to_upper n)" by (rule transportNumberOK_upper)
  have "emits P (transportQueryNumbers E (to_upper n))"
    unfolding transportQueryNumbers_def
    using assms up by (auto split: option.splits intro!: sends simp: number_query_def)
  then show ?thesis
    unfolding getTransportObjectsViaQuery_def Let_def using True
    by (simp, intro emits_tryw_yields [OF _ transportQueryNumbers_yields [OF up]])
      (auto intro!: sends assms split: option.splits simp: number_query_def)
qed (auto simp: getTransportObjectsViaQuery_def intro: sends)

lemma GetTransportObjects_sends:
  assumes "accepts_preflight E P" "\<And>rq. number_query rq \<Longrightarrow> P rq" "\<And>rq. rq_method rq = ''GET'' \<Longrightarrow> P rq"
  shows "emits P (GetTransportObjects E n)"
  unfolding GetTransportObjects_def readTransportXML_def
  using assms by (auto split: sum.splits intro!: sends getTransportObjectsViaQuery_sends simp: accepts_def)

text \<open>
  A transport number reaches the data preview only as plain text between quotes: every statement
  \<open>GetTransportObjects\<close> posts is the E070 or the E071 query for numbers that hold no quote, no semicolon
  and no blank, whatever number the caller passed and whatever numbers SAP answered with.
\<close>

theorem transport_numbers_stay_literals:
  "\<exists>es. wire (snd (run_state (GetTransportObjects E n) s)) = es @ wire s
     \<and> list_all (\<lambda>ev. rq_method (fst ev) = ''GET'' \<or> is_preflight (fst ev)
         \<or> (\<exists>ns w. list_all (\<lambda>m. APOS \<notin> set m \<and> CHR '';'' \<notin> set m \<and> CHR '' '' \<notin> set m) ns
              \<and> rq_body (fst ev) = Some w
              \<and> (wrapLongSQLLines (trim_space (e071SQL ns)) = Inr w
                 \<or> (\<exists>m. ns = [m] \<and> wrapLongSQLLines (trim_space (e070NumbersSQL m)) = Inr w)))) es"
proof -
  let ?P = "\<lambda>rq. rq_method rq = ''GET'' \<or> is_preflight rq
         \<or> (\<exists>ns w. list_all (\<lambda>m. APOS \<notin> set m \<and> CHR '';'' \<notin> set m \<and> CHR '' '' \<notin> set m) ns
              \<and> rq_body rq = Some w
              \<and> (wrapLongSQLLines (trim_space (e071SQL ns)) = Inr w
                 \<or> (\<exists>m. ns = [m] \<and> wrapLongSQLLines (trim_space (e070NumbersSQL m)) = Inr w)))"
  have pre: "accepts_preflight E ?P" by (simp add: accepts_preflight_def)
  have plain: "list_all transportNumberOK ns \<Longrightarrow>
      list_all (\<lambda>m. APOS \<notin> set m \<and> CHR '';'' \<notin> set m \<and> CHR '' '' \<notin> set m) ns" for ns
    by (auto simp: list_all_iff dest: transport_number_plain)
  have "?P rq" if "number_query rq" for rq
    using that unfolding number_query_def query_of_def
  proof (elim disjE exE conjE)
    fix m w
    assume "transportNumberOK m" "rq_body rq = Some w" "wrapLongSQLLines (trim_space (e070NumbersSQL m)) = Inr w"
    then show ?thesis using plain [of "[m]"] by (intro disjI2 exI [of _ "[m]"] exI [of _ w]) simp
  next
    fix ns w
    assume "list_all transportNumberOK ns" "rq_body rq = Some w" "wrapLongSQLLines (trim_space (e071SQL ns)) = Inr w"
    then show ?thesis using plain [of ns] by (intro disjI2 exI [of _ ns] exI [of _ w]) simp
  qed
  then have "emits ?P (GetTransportObjects E n)" by (rule GetTransportObjects_sends [OF pre]) simp_all
  from emits_run [OF this] show ?thesis .
qed

end
