(* ===== verification/Rollback.thy ===== *)
theory Rollback
  imports Versions Objects Activate TransportDocs
begin

text \<open>
  Rolling back a transport (\<open>adt/rollback.go\<close>, \<open>adt/rollback_targets.go\<close>): which source unit an entry
  of the transport stands for, the version to restore, the restore itself, and the deletion of what
  the transport created. The Go code appends to one shared \<open>*RollbackResult\<close>; here it is passed along.
\<close>

section \<open>Data\<close>

record rollback_entry =
  re_type :: string
  re_name :: string
  re_reason :: string

record rollback_result =
  rr_restored :: "rollback_entry list"
  rr_skipped :: "rollback_entry list"
  rr_failed :: "rollback_entry list"
  rr_created :: "rollback_entry list"
  rr_deleted :: "rollback_entry list"

record rollback_target =
  rt_entry :: rollback_entry
  rt_uri :: string
  rt_tadir :: bool

record created_object =
  cr_entry :: rollback_entry
  cr_uri :: string
  cr_last :: "err option"
  cr_not_retried :: bool

definition no_result :: rollback_result where
  "no_result = \<lparr>rr_restored = [], rr_skipped = [], rr_failed = [], rr_created = [], rr_deleted = []\<rparr>"

definition entry_of :: "string \<Rightarrow> string \<Rightarrow> string \<Rightarrow> rollback_entry" where
  "entry_of typ nm reason = \<lparr>re_type = typ, re_name = nm, re_reason = reason\<rparr>"

definition add_failed :: "rollback_entry \<Rightarrow> rollback_result \<Rightarrow> rollback_result" where
  "add_failed en res = res\<lparr>rr_failed := rr_failed res @ [en]\<rparr>"

definition add_skipped :: "rollback_entry \<Rightarrow> rollback_result \<Rightarrow> rollback_result" where
  "add_skipped en res = res\<lparr>rr_skipped := rr_skipped res @ [en]\<rparr>"

definition add_restored :: "rollback_entry \<Rightarrow> rollback_result \<Rightarrow> rollback_result" where
  "add_restored en res = res\<lparr>rr_restored := rr_restored res @ [en]\<rparr>"

definition add_created :: "rollback_entry list \<Rightarrow> rollback_result \<Rightarrow> rollback_result" where
  "add_created ens res = res\<lparr>rr_created := rr_created res @ ens\<rparr>"

definition add_deleted :: "rollback_entry \<Rightarrow> rollback_result \<Rightarrow> rollback_result" where
  "add_deleted en res = res\<lparr>rr_deleted := rr_deleted res @ [en]\<rparr>"

lemmas result_defs = add_failed_def add_skipped_def add_restored_def add_created_def add_deleted_def

definition rollbackSourceTypes :: "string list" where
  "rollbackSourceTypes = [''PROG'', ''CLAS'', ''INTF'', ''FUGR'']"

definition limuClassParts :: "string list" where
  "limuClassParts = [''METH'', ''CPUB'', ''CPRI'', ''CPRO'', ''CLSD'']"

definition reasonCreatedKept :: string where
  "reasonCreatedKept = ''created by this transport; left in place (DeleteCreatedObjects is off)''"

definition reasonCreatedRestoreErr :: string where
  "reasonCreatedRestoreErr = ''created by this transport; not deleted because a restore in this rollback failed and the unrestored object may still use it''"

definition reasonCreatedSubObjects :: string where
  "reasonCreatedSubObjects = ''created by this transport; not deleted because part of the transport was not rolled back (a sub-object entry without source, or a created function module or function group include) and may still use it''"

definition reasonCreatedSubObject :: string where
  "reasonCreatedSubObject = ''created by this transport; left in place (a rollback deletes only TADIR objects, not function modules or function group includes)''"

definition reasonNonSourceType :: string where
  "reasonNonSourceType = ''non-source object type''"

definition reasonNonSourceLIMU :: string where
  "reasonNonSourceLIMU = ''sub-object type without source this rollback restores (screen, GUI status, text pool, ...)''"

definition reasonUnresolvedLIMU :: string where
  "reasonUnresolvedLIMU = ''sub-object could not be mapped to the object that carries its source''"

section \<open>The source unit of an entry\<close>

text \<open>What an entry leads to: a target, or the reason why it is skipped.\<close>

type_synonym resolution = "string + rollback_target"

definition adtName :: "string \<Rightarrow> string" where
  "adtName nm = to_lower (path_escape nm)"

definition splitNamespace :: "string \<Rightarrow> string \<times> string" where
  "splitNamespace nm =
     (if has_prefix nm ''/'' then
        (case index_byte (drop 1 nm) (CHR ''/'') of
           Some i \<Rightarrow> (take (i + 2) nm, drop (i + 2) nm)
         | None \<Rightarrow> ([], nm))
      else ([], nm))"

definition r3trTarget :: "string \<Rightarrow> string \<Rightarrow> resolution" where
  "r3trTarget objType nm =
     (case ObjectURI objType [] of
        Inl e \<Rightarrow> Inl (err_text e)
      | Inr uri \<Rightarrow> Inr \<lparr>rt_entry = entry_of objType nm [], rt_uri = uri @ adtName nm, rt_tadir = True\<rparr>)"

definition classPoolNameLen :: nat where "classPoolNameLen = 30"

definition poolIncludeTarget :: "string \<Rightarrow> bool \<Rightarrow> rollback_target option" where
  "poolIncludeTarget nm needPadding =
     (if length nm \<le> classPoolNameLen then None
      else if needPadding \<and> \<not> has_suffix (take classPoolNameLen nm) ''='' then None
      else
        (let owner = trim_right (\<lambda>c. c = CHR ''='') (take classPoolNameLen nm);
             of_type = (\<lambda>objType. case r3trTarget objType owner of Inl _ \<Rightarrow> None | Inr t \<Rightarrow> Some t) in
         if nm ! classPoolNameLen = CHR ''C'' then of_type ''CLAS''
         else if nm ! classPoolNameLen = CHR ''I'' then of_type ''INTF''
         else None))"

definition queryOne :: "'w env \<Rightarrow> string \<Rightarrow> ('w, string option) go" where
  "queryOne E sql = tryE (RunQuery E sql 1) (\<lambda>qr.
     ok (case qr_rows qr of (c # _) # _ \<Rightarrow> Some (trim_space c) | _ \<Rightarrow> None))"

definition tadirSQL :: "string \<Rightarrow> string \<Rightarrow> string \<Rightarrow> string" where
  "tadirSQL col objType nm = ''SELECT '' @ col @ '' FROM TADIR WHERE PGMID = '' @ [APOS] @ ''R3TR'' @ [APOS]
     @ '' AND OBJECT = '' @ [APOS] @ objType @ [APOS] @ '' AND OBJ_NAME = '' @ literal nm"

text \<open>The function module or function group include of the function pool \<open>pool\<close>.\<close>

definition groupOfPool :: "string \<Rightarrow> string option" where
  "groupOfPool pool = (case splitNamespace pool of (ns, rest) \<Rightarrow>
     if has_prefix rest ''SAPL'' then Some (ns @ trim_prefix rest ''SAPL'') else None)"

definition moduleTarget :: "string \<Rightarrow> string \<Rightarrow> rollback_target" where
  "moduleTarget grp nm = \<lparr>rt_entry = entry_of ''FUNC'' nm [],
     rt_uri = ''/sap/bc/adt/functions/groups/'' @ adtName grp @ ''/fmodules/'' @ adtName nm, rt_tadir = False\<rparr>"

definition resolveFUNC :: "'w env \<Rightarrow> string \<Rightarrow> ('w, resolution) go" where
  "resolveFUNC E nm =
     tryE (queryOne E (''SELECT PNAME FROM TFDIR WHERE FUNCNAME = '' @ literal nm)) (\<lambda>r. case r of
         None \<Rightarrow> ok (Inl (''no function module '' @ nm @ '' in TFDIR''))
       | Some pname \<Rightarrow> (case groupOfPool pname of
             None \<Rightarrow> ok (Inl reasonUnresolvedLIMU)
           | Some grp \<Rightarrow> ok (Inr (moduleTarget grp nm))))"

definition resolveModuleInclude :: "'w env \<Rightarrow> string \<Rightarrow> string \<Rightarrow> ('w, resolution) go" where
  "resolveModuleInclude E pool nn =
     (if length nn \<noteq> 2 \<or> \<not> list_all is_digit nn then ok (Inl ''generated function group include'')
      else tryE (queryOne E (''SELECT FUNCNAME FROM TFDIR WHERE PNAME = '' @ literal pool
            @ '' AND INCLUDE = '' @ [APOS] @ nn @ [APOS])) (\<lambda>r. case r of
          None \<Rightarrow> ok (Inl reasonUnresolvedLIMU)
        | Some fm \<Rightarrow> resolveFUNC E fm))"

definition includeTarget :: "string \<Rightarrow> string \<Rightarrow> rollback_target" where
  "includeTarget grp nm = \<lparr>rt_entry = entry_of ''REPS'' nm [],
     rt_uri = ''/sap/bc/adt/functions/groups/'' @ adtName grp @ ''/includes/'' @ adtName nm, rt_tadir = False\<rparr>"

definition standaloneTarget :: "string \<Rightarrow> rollback_target" where
  "standaloneTarget nm = \<lparr>rt_entry = entry_of ''PROG'' nm [],
     rt_uri = ''/sap/bc/adt/programs/includes/'' @ adtName nm, rt_tadir = True\<rparr>"

text \<open>A function group include \<open>L<group>xyz\<close>: through the module for \<open>Unn\<close>, else when TADIR has the group.\<close>

definition resolveGroupInclude :: "'w env \<Rightarrow> string \<Rightarrow> ('w, resolution) go" where
  "resolveGroupInclude E nm = (case splitNamespace nm of (ns, rest) \<Rightarrow>
     (if \<not> has_prefix rest ''L'' \<or> length rest \<le> 4 then ok (Inl reasonUnresolvedLIMU)
      else
        (let mid = take (length rest - 4) (drop 1 rest); suffix = drop (length rest - 3) rest; grp = ns @ mid in
         if hd suffix = CHR ''U'' then resolveModuleInclude E (ns @ ''SAPL'' @ mid) (drop 1 suffix)
         else tryE (queryOne E (tadirSQL ''OBJ_NAME'' ''FUGR'' grp)) (\<lambda>r.
           ok (if r = None then Inl reasonUnresolvedLIMU else Inr (includeTarget grp nm))))))"

definition resolveInclude :: "'w env \<Rightarrow> string \<Rightarrow> ('w, resolution) go" where
  "resolveInclude E nm =
     tryE (queryOne E (tadirSQL ''OBJ_NAME'' ''PROG'' nm)) (\<lambda>r.
       if r \<noteq> None then ok (Inr (standaloneTarget nm)) else resolveGroupInclude E nm)"

definition resolveREPS :: "'w env \<Rightarrow> string \<Rightarrow> ('w, resolution) go" where
  "resolveREPS E nm =
     (case poolIncludeTarget nm True of
        Some t \<Rightarrow> ok (Inr t)
      | None \<Rightarrow>
          tryE (queryOne E (''SELECT SUBC FROM TRDIR WHERE NAME = '' @ literal nm)) (\<lambda>r. case r of
              None \<Rightarrow> ok (Inl (''no program '' @ nm @ '' in TRDIR''))
            | Some subc \<Rightarrow>
                if subc = ''F'' then
                  ok (case groupOfPool nm of
                        None \<Rightarrow> Inl reasonUnresolvedLIMU | Some grp \<Rightarrow> r3trTarget ''FUGR'' grp)
                else if subc = ''I'' then resolveInclude E nm
                else if subc \<in> {''1'', ''M'', ''S''} then ok (r3trTarget ''PROG'' nm)
                else ok (Inl reasonUnresolvedLIMU)))"

definition resolveLIMU :: "'w env \<Rightarrow> transport_object \<Rightarrow> ('w, resolution) go" where
  "resolveLIMU E ob =
     (let nm = trim_space (tob_name ob); typ = tob_type ob in
      if typ \<in> set limuClassParts then
        ok (case go_fields nm of [] \<Rightarrow> Inl reasonUnresolvedLIMU | cls # _ \<Rightarrow> r3trTarget ''CLAS'' cls)
      else if typ = ''CINC'' then
        ok (case poolIncludeTarget nm False of None \<Rightarrow> Inl reasonUnresolvedLIMU | Some t \<Rightarrow> Inr t)
      else if typ = ''REPS'' then resolveREPS E nm
      else if typ = ''FUNC'' then resolveFUNC E nm
      else ok (Inl reasonNonSourceLIMU))"

definition resolveRollbackTarget :: "'w env \<Rightarrow> transport_object \<Rightarrow> ('w, resolution) go" where
  "resolveRollbackTarget E ob =
     (if tob_pgmid ob = ''R3TR'' then
        ok (if tob_type ob \<in> set rollbackSourceTypes then r3trTarget (tob_type ob) (tob_name ob)
            else Inl reasonNonSourceType)
      else if tob_pgmid ob = ''LIMU'' then resolveLIMU E ob
      else ok (Inl ''not R3TR or LIMU''))"

text \<open>What the look-ups have gathered so far.\<close>

record rollback_plan =
  rp_targets :: "rollback_target list"
  rp_partial :: bool
  rp_rejected :: "err option"
  rp_result :: rollback_result

definition no_plan :: rollback_plan where
  "no_plan = \<lparr>rp_targets = [], rp_partial = False, rp_rejected = None, rp_result = no_result\<rparr>"

definition not_attempted :: "err \<Rightarrow> string" where
  "not_attempted e = ''not attempted: '' @ err_text e"

definition is_part :: "transport_object \<Rightarrow> bool" where
  "is_part ob \<longleftrightarrow> tob_pgmid ob = ''LIMU''"

definition addResolution :: "transport_object \<Rightarrow> err + resolution \<Rightarrow> rollback_plan \<Rightarrow> rollback_plan" where
  "addResolution ob r pl = (case r of
      Inl e \<Rightarrow> pl\<lparr>rp_rejected := (if is_unauthorized e then Some e else rp_rejected pl),
        rp_partial := (rp_partial pl \<or> is_part ob),
        rp_result := add_failed (entry_of (tob_type ob) (tob_name ob)
          (''resolving the object that carries this entry: '' @ err_text e)) (rp_result pl)\<rparr>
    | Inr (Inl reason) \<Rightarrow> pl\<lparr>rp_partial := (rp_partial pl \<or> is_part ob),
        rp_result := add_skipped (entry_of (tob_type ob) (tob_name ob) reason) (rp_result pl)\<rparr>
    | Inr (Inr tg) \<Rightarrow>
        if to_lower (rt_uri tg) \<in> set (map (\<lambda>t. to_lower (rt_uri t)) (rp_targets pl)) then pl
        else pl\<lparr>rp_targets := rp_targets pl @ [tg]\<rparr>)"

fun rollbackTargets :: "'w env \<Rightarrow> transport_object list \<Rightarrow> rollback_plan \<Rightarrow> ('w cl, rollback_plan) state" where
  "rollbackTargets E [] pl = State_Monad.return pl"
| "rollbackTargets E (ob # obs) pl =
     (if tob_pgmid ob = ''CORR'' then rollbackTargets E obs pl
      else case rp_rejected pl of
          Some e \<Rightarrow> rollbackTargets E obs (pl\<lparr>rp_result :=
            add_failed (entry_of (tob_type ob) (tob_name ob) (not_attempted e)) (rp_result pl)\<rparr>)
        | None \<Rightarrow> State_Monad.bind (resolveRollbackTarget E ob) (\<lambda>r. rollbackTargets E obs (addResolution ob r pl)))"

section \<open>The version before the transport\<close>

definition of_transport :: "string list \<Rightarrow> version_info \<Rightarrow> bool" where
  "of_transport transports v \<longleftrightarrow> to_upper (vi_transport v) \<in> set (map to_upper transports)"

definition createdByTransport :: "version_info list \<Rightarrow> string list \<Rightarrow> bool" where
  "createdByTransport versions transports \<longleftrightarrow> versions \<noteq> [] \<and> list_all (of_transport transports) versions"

definition request_of :: "string list \<Rightarrow> string" where
  "request_of transports = hd transports"

definition notInHistory :: "string list \<Rightarrow> err" where
  "notInHistory transports = Msg (''transport '' @ request_of transports @ '' not found in version history'')"

text \<open>The loop of \<open>findPreTransportVersion\<close>: whether the transport was seen, and the version after it.\<close>

fun scanHistory :: "string list \<Rightarrow> bool \<Rightarrow> version_info list \<Rightarrow> bool \<times> string" where
  "scanHistory transports seen [] = (seen, [])"
| "scanHistory transports seen (v # vs) =
     (if of_transport transports v then scanHistory transports True vs
      else if seen then (True, vi_content v)
      else scanHistory transports seen vs)"

definition findPreTransportVersion :: "version_info list \<Rightarrow> string list \<Rightarrow> err + string" where
  "findPreTransportVersion versions transports =
     (case scanHistory transports False versions of (seen, uri) \<Rightarrow>
        if \<not> seen then Inl (notInHistory transports)
        else if uri = [] then Inl (Msg (''no version before transport '' @ request_of transports
          @ '' (object may have been created by this transport)''))
        else Inr uri)"

definition historyHasTransport :: "version_info list \<Rightarrow> string list \<Rightarrow> bool" where
  "historyHasTransport versions transports \<longleftrightarrow>
     list_ex (\<lambda>v. list_ex (\<lambda>t. equal_fold (vi_transport v) t) transports) versions"

record source_write =
  sw_include :: string
  sw_uri :: string

text \<open>The includes in the order they first occur.\<close>

definition includeOrder :: "version_info list \<Rightarrow> string list" where
  "includeOrder versions = rev (remdups (rev (map vi_include versions)))"

definition includeHistory :: "version_info list \<Rightarrow> string \<Rightarrow> version_info list" where
  "includeHistory versions incl = filter (\<lambda>v. vi_include v = incl) versions"

fun planIncludes :: "version_info list \<Rightarrow> string list \<Rightarrow> string list \<Rightarrow> err + source_write list" where
  "planIncludes versions transports [] = Inr []"
| "planIncludes versions transports (incl # incls) =
     (let history = includeHistory versions incl in
      if \<not> historyHasTransport history transports then planIncludes versions transports incls
      else case findPreTransportVersion history transports of
          Inl e \<Rightarrow> Inl (if incl \<noteq> [] then wrapf (''include '' @ incl @ '': '') e else e)
        | Inr uri \<Rightarrow> (case planIncludes versions transports incls of
            Inl e \<Rightarrow> Inl e
          | Inr ws \<Rightarrow> Inr (\<lparr>sw_include = incl, sw_uri = uri\<rparr> # ws)))"

definition planRestore :: "version_info list \<Rightarrow> string list \<Rightarrow> err + source_write list" where
  "planRestore versions transports =
     (case planIncludes versions transports (includeOrder versions) of
        Inl e \<Rightarrow> Inl e
      | Inr [] \<Rightarrow> Inl (notInHistory transports)
      | Inr (w # ws) \<Rightarrow> Inr (w # ws))"

section \<open>Writing versions back\<close>

definition includeSuffix :: "string \<Rightarrow> string" where
  "includeSuffix incl = (if incl = [] then [] else '' (include '' @ incl @ '')'')"

definition is_main :: "source_write \<Rightarrow> bool" where
  "is_main w \<longleftrightarrow> sw_include w = [] \<or> sw_include w = classIncludeMain"

definition writeSource ::
    "'w env \<Rightarrow> string \<Rightarrow> string \<Rightarrow> string \<Rightarrow> string \<Rightarrow> string \<Rightarrow> string \<Rightarrow> ('w, unit) go" where
  "writeSource E uri incl source lockHandle request etag =
     (if incl \<noteq> [] \<and> incl \<noteq> classIncludeMain then
        tryw (wrapf (''set source'' @ includeSuffix incl @ '': ''))
          (SetIncludeSource E uri incl source lockHandle request []) (\<lambda>_. ok ())
      else tryw (wrapf ''set source: '') (SetSource E uri source lockHandle request etag) (\<lambda>_. ok ()))"

definition unlockUnlessUnauthorized :: "'w env \<Rightarrow> string \<Rightarrow> string \<Rightarrow> err \<Rightarrow> ('w, unit) go" where
  "unlockUnlessUnauthorized E uri lockHandle cause =
     (if is_unauthorized cause then ok ()
      else State_Monad.bind (UnlockObject E uri lockHandle) (\<lambda>_. ok ()))"

fun versionSources :: "'w env \<Rightarrow> source_write list \<Rightarrow> ('w, string list) go" where
  "versionSources E [] = ok []"
| "versionSources E (w # ws) =
     tryw (wrapf (''get version source'' @ includeSuffix (sw_include w) @ '': '')) (GetVersionSource E (sw_uri w)) (\<lambda>src.
     tryE (versionSources E ws) (\<lambda>srcs. ok (src # srcs)))"

definition currentETag :: "'w env \<Rightarrow> string \<Rightarrow> source_write list \<Rightarrow> ('w, string) go" where
  "currentETag E uri ws =
     (if list_ex is_main ws then
        tryw (wrapf ''get current source: '') (GetSource E uri) (\<lambda>current. ok (sr_etag current))
      else ok [])"

text \<open>The writes under the lock; \<open>i\<close> counts the ones before.\<close>

fun writeAll :: "'w env \<Rightarrow> string \<Rightarrow> string \<Rightarrow> string \<Rightarrow> string \<Rightarrow> nat \<Rightarrow> (source_write \<times> string) list \<Rightarrow> ('w, unit) go" where
  "writeAll E uri lockHandle request etag i [] = ok ()"
| "writeAll E uri lockHandle request etag i ((w, src) # rest) =
     State_Monad.bind (writeSource E uri (sw_include w) src lockHandle request etag) (\<lambda>r. case r of
         Inr _ \<Rightarrow> writeAll E uri lockHandle request etag (Suc i) rest
       | Inl e \<Rightarrow> State_Monad.bind (unlockUnlessUnauthorized E uri lockHandle e) (\<lambda>_.
           fail (if i > 0 then Wrap [] e '' (earlier includes were written back but not activated)'' else e)))"

definition activateRestored :: "'w env \<Rightarrow> string \<Rightarrow> ('w, unit) go" where
  "activateRestored E uri =
     tryw (wrapf ''activate: '') (ActivateObjects E [uri]) (\<lambda>act.
       if ar_success act then ok ()
       else fail (Msg (''activation failed: '' @ join ''; '' (map am_text (ar_messages act)))))"

definition unlockRestored :: "'w env \<Rightarrow> string \<Rightarrow> string \<Rightarrow> ('w, unit) go" where
  "unlockRestored E uri lockHandle = State_Monad.bind (UnlockObject E uri lockHandle) (\<lambda>r. case r of
      Inr _ \<Rightarrow> ok ()
    | Inl e \<Rightarrow> if is_unauthorized e then fail (wrapf ''source written but not activated, unlock: '' e) else ok ())"

definition writeRestored ::
    "'w env \<Rightarrow> string \<Rightarrow> source_write list \<Rightarrow> string \<Rightarrow> ('w, unit) go" where
  "writeRestored E uri writes request =
     tryE (versionSources E writes) (\<lambda>sources.
     tryE (currentETag E uri writes) (\<lambda>etag.
     tryw (wrapf ''lock: '') (LockObject E uri) (\<lambda>lockHandle.
     tryE (writeAll E uri lockHandle request etag 0 (zip writes sources)) (\<lambda>_.
       unlockRestored E uri lockHandle))))"

definition restoreVersion :: "'w env \<Rightarrow> string \<Rightarrow> source_write list \<Rightarrow> string \<Rightarrow> ('w, unit) go" where
  "restoreVersion E uri writes request =
     tryE (writeRestored E uri writes request) (\<lambda>_. activateRestored E uri)"

definition noHistory :: "string list \<Rightarrow> err" where
  "noHistory transports = Msg (''no version history, so whether transport '' @ request_of transports
     @ '' created the object cannot be told (it may never have been activated)'')"

definition rollbackOrClassify :: "'w env \<Rightarrow> string \<Rightarrow> string list \<Rightarrow> ('w, bool) go" where
  "rollbackOrClassify E uri transports =
     tryw (wrapf ''get version history: '') (GetVersionHistory E uri) (\<lambda>versions.
       if versions = [] then fail (noHistory transports)
       else if createdByTransport versions transports then ok True
       else tryE (of_sum (planRestore versions transports)) (\<lambda>writes.
         tryE (restoreVersion E uri writes (request_of transports)) (\<lambda>_. ok False)))"

section \<open>What the transport created\<close>

definition with_reason :: "string \<Rightarrow> rollback_entry \<Rightarrow> rollback_entry" where
  "with_reason reason en = en\<lparr>re_reason := reason\<rparr>"

definition createdEntries :: "created_object list \<Rightarrow> string \<Rightarrow> rollback_entry list" where
  "createdEntries obs reason = map (\<lambda>ob. with_reason reason (cr_entry ob)) obs"

definition notDeleted :: "err \<Rightarrow> string" where
  "notDeleted e = ''created by this transport; not deleted: '' @ err_text e"

definition tadirSourceSystem :: "'w env \<Rightarrow> string \<Rightarrow> string \<Rightarrow> ('w, string) go" where
  "tadirSourceSystem E objType nm =
     tryE (RunQuery E (tadirSQL ''SRCSYSTEM'' (EscapeValue objType) nm) 1) (\<lambda>qr.
       case qr_rows qr of (c # _) # _ \<Rightarrow> ok (to_upper (trim_space c)) | _ \<Rightarrow> fail (Msg ''no TADIR entry''))"

text \<open>The system of a request: the first three characters of its number.\<close>

definition requestSystem :: "string \<Rightarrow> string" where
  "requestSystem request = (if length request \<ge> 3 then to_upper (take 3 request) else [])"

text \<open>One object of \<open>keepLocalOrigin\<close>: what its source system says of it.\<close>

definition originAnswer :: "string \<Rightarrow> created_object \<Rightarrow> err + string \<Rightarrow> rollback_result
    \<Rightarrow> created_object list \<times> rollback_result" where
  "originAnswer sid ob r res = (case r of
      Inl e \<Rightarrow> if is_unauthorized e then ([], add_failed (with_reason (notDeleted e) (cr_entry ob)) res)
        else ([], add_created [with_reason (''created by this transport by its version history; not deleted because its original system could not be read: ''
          @ err_text e) (cr_entry ob)] res)
    | Inr src \<Rightarrow> if sid = [] \<or> src \<noteq> sid then
          ([], add_created [with_reason (''version history shows only this transport, but the object originates in system ''
            @ src @ '', not in the request's system; not deleted'') (cr_entry ob)] res)
        else ([ob], res))"

fun keepLocalOrigin :: "'w env \<Rightarrow> string \<Rightarrow> err option \<Rightarrow> created_object list \<Rightarrow> rollback_result
    \<Rightarrow> ('w cl, created_object list \<times> rollback_result) state" where
  "keepLocalOrigin E sid rejected [] res = State_Monad.return ([], res)"
| "keepLocalOrigin E sid (Some e) (ob # obs) res =
     keepLocalOrigin E sid (Some e) obs (add_failed (with_reason (notDeleted e) (cr_entry ob)) res)"
| "keepLocalOrigin E sid None (ob # obs) res =
     State_Monad.bind (tadirSourceSystem E (re_type (cr_entry ob)) (re_name (cr_entry ob))) (\<lambda>r.
     State_Monad.bind (keepLocalOrigin E sid (case r of Inl e \<Rightarrow> if is_unauthorized e then Some e else None | Inr _ \<Rightarrow> None)
        obs (snd (originAnswer sid ob r res))) (\<lambda>(local, res'). State_Monad.return (fst (originAnswer sid ob r res) @ local, res')))"

text \<open>One round of deletions: what is left, the rejection, and the result.\<close>

definition deleteOne :: "'w env \<Rightarrow> string \<Rightarrow> created_object \<Rightarrow> ('w cl, err option) state" where
  "deleteOne E request ob = State_Monad.bind (DeleteObject E (cr_uri ob) [] request) (\<lambda>r.
     State_Monad.return (case r of
        Inr _ \<Rightarrow> None
      | Inl e \<Rightarrow> if ClassifyError e = ErrorNotFound then None else Some e))"

fun deleteRound :: "'w env \<Rightarrow> string \<Rightarrow> err option \<Rightarrow> created_object list \<Rightarrow> rollback_result
    \<Rightarrow> ('w cl, created_object list \<times> err option \<times> rollback_result) state" where
  "deleteRound E request rejected [] res = State_Monad.return ([], rejected, res)"
| "deleteRound E request (Some e) (ob # obs) res =
     State_Monad.bind (deleteRound E request (Some e) obs res) (\<lambda>(nxt, rejected, res').
       State_Monad.return (ob\<lparr>cr_not_retried := True\<rparr> # nxt, rejected, res'))"
| "deleteRound E request None (ob # obs) res =
     State_Monad.bind (deleteOne E request ob) (\<lambda>r. case r of
         None \<Rightarrow> deleteRound E request None obs (add_deleted (cr_entry ob) res)
       | Some e \<Rightarrow> State_Monad.bind (deleteRound E request (if is_unauthorized e then Some e else None) obs res)
           (\<lambda>(nxt, rejected, res'). State_Monad.return (ob\<lparr>cr_last := Some e\<rparr> # nxt, rejected, res')))"

text \<open>
  The loop goes on only while a round deleted something and was not rejected, so the objects that are
  left get fewer with every turn.
\<close>

function deleteRounds :: "'w env \<Rightarrow> string \<Rightarrow> created_object list \<Rightarrow> rollback_result
    \<Rightarrow> ('w cl, created_object list \<times> err option \<times> rollback_result) state" where
  "deleteRounds E request pending res =
     (if pending = [] then State_Monad.return ([], None, res)
      else State_Monad.bind (deleteRound E request None pending res) (\<lambda>(nxt, rejected, res').
        if length nxt < length pending \<and> rejected = None then deleteRounds E request nxt res'
        else State_Monad.return (nxt, rejected, res')))"
  by pat_completeness auto

termination
  by (relation "measure (\<lambda>(E, request, pending, res). length pending)") auto

declare deleteRounds.simps [simp del]

definition leftReason :: "err option \<Rightarrow> created_object \<Rightarrow> string" where
  "leftReason rejected ob = (case (cr_last ob, rejected) of
      (Some l, Some e) \<Rightarrow> if cr_not_retried ob
        then ''created by this transport; delete: '' @ err_text l @ ''; not retried: '' @ err_text e
        else ''created by this transport; delete: '' @ err_text l
    | (Some l, None) \<Rightarrow> ''created by this transport; delete: '' @ err_text l
    | (None, Some e) \<Rightarrow> ''created by this transport; delete not attempted: '' @ err_text e
    | (None, None) \<Rightarrow> [])"

definition addLeft :: "err option \<Rightarrow> rollback_result \<Rightarrow> created_object \<Rightarrow> rollback_result" where
  "addLeft rejected res ob = add_failed (with_reason (leftReason rejected ob) (cr_entry ob)) res"

definition deleteCreatedObjects :: "'w env \<Rightarrow> string \<Rightarrow> created_object list \<Rightarrow> rollback_result
    \<Rightarrow> ('w cl, rollback_result) state" where
  "deleteCreatedObjects E request obs res =
     State_Monad.bind (deleteRounds E request obs res) (\<lambda>(left, rejected, res').
       State_Monad.return (foldl (addLeft rejected) res' left))"

section \<open>The rollback\<close>

record rollback_state =
  rs_created :: "created_object list"
  rs_partial :: bool
  rs_rejected :: "err option"
  rs_result :: rollback_result

definition newly_created :: "rollback_target \<Rightarrow> created_object" where
  "newly_created tg = \<lparr>cr_entry = rt_entry tg, cr_uri = rt_uri tg, cr_last = None, cr_not_retried = False\<rparr>"

text \<open>What the outcome of one restore does to the state of the rollback.\<close>

definition restoreOutcome :: "rollback_target \<Rightarrow> err + bool \<Rightarrow> rollback_state \<Rightarrow> rollback_state" where
  "restoreOutcome tg r st = (case r of
      Inl e \<Rightarrow> st\<lparr>rs_rejected := (if is_unauthorized e then Some e else rs_rejected st),
        rs_result := add_failed (with_reason (err_text e) (rt_entry tg)) (rs_result st)\<rparr>
    | Inr True \<Rightarrow>
        if rt_tadir tg then st\<lparr>rs_created := rs_created st @ [newly_created tg]\<rparr>
        else st\<lparr>rs_partial := True,
          rs_result := add_created [with_reason reasonCreatedSubObject (rt_entry tg)] (rs_result st)\<rparr>
    | Inr False \<Rightarrow> st\<lparr>rs_result := add_restored (rt_entry tg) (rs_result st)\<rparr>)"

fun restoreTargets :: "'w env \<Rightarrow> string list \<Rightarrow> rollback_target list \<Rightarrow> rollback_state
    \<Rightarrow> ('w cl, rollback_state) state" where
  "restoreTargets E transports [] st = State_Monad.return st"
| "restoreTargets E transports (tg # tgs) st = (case rs_rejected st of
       Some e \<Rightarrow> restoreTargets E transports tgs (st\<lparr>rs_result :=
         add_failed (with_reason (not_attempted e) (rt_entry tg)) (rs_result st)\<rparr>)
     | None \<Rightarrow> State_Monad.bind (rollbackOrClassify E (rt_uri tg) transports) (\<lambda>r.
         restoreTargets E transports tgs (restoreOutcome tg r st)))"

definition finishRollback :: "'w env \<Rightarrow> string \<Rightarrow> bool \<Rightarrow> rollback_state \<Rightarrow> ('w cl, rollback_result) state" where
  "finishRollback E transport delete st =
     (let created = rs_created st; res = rs_result st in
      if created = [] then State_Monad.return res
      else if \<not> delete then State_Monad.return (add_created (createdEntries created reasonCreatedKept) res)
      else case rs_rejected st of
          Some e \<Rightarrow> State_Monad.return (foldl (\<lambda>res ob. add_failed (with_reason (notDeleted e) (cr_entry ob)) res) res created)
        | None \<Rightarrow>
            if rr_failed res \<noteq> [] then State_Monad.return (add_created (createdEntries created reasonCreatedRestoreErr) res)
            else if rs_partial st then State_Monad.return (add_created (createdEntries created reasonCreatedSubObjects) res)
            else State_Monad.bind (keepLocalOrigin E (requestSystem transport) None created res) (\<lambda>(local, res').
              deleteCreatedObjects E transport local res'))"

definition startState :: "rollback_plan \<Rightarrow> rollback_state" where
  "startState pl = \<lparr>rs_created = [], rs_partial = rp_partial pl, rs_rejected = rp_rejected pl, rs_result = rp_result pl\<rparr>"

text \<open>The request's tasks; a failed read other than a rejection leaves the request alone.\<close>

definition transportNumbers :: "'w env \<Rightarrow> string \<Rightarrow> ('w, string list) go" where
  "transportNumbers E transport = State_Monad.bind (GetTransportTasks E transport) (\<lambda>r. case r of
      Inr tasks \<Rightarrow> ok (transport # tasks)
    | Inl e \<Rightarrow> if is_unauthorized e then fail (wrapf ''reading transport tasks: '' e) else ok [transport])"

text \<open>Everything up to the last restore, then what becomes of the created objects.\<close>

definition restorePhase :: "'w env \<Rightarrow> string \<Rightarrow> ('w, rollback_state) go" where
  "restorePhase E transport =
     tryw (wrapf ''reading transport objects: '') (GetTransportObjects E transport) (\<lambda>objects.
     tryE (transportNumbers E transport) (\<lambda>transports.
     State_Monad.bind (rollbackTargets E objects no_plan) (\<lambda>pl.
     State_Monad.bind (restoreTargets E transports (rp_targets pl) (startState pl)) ok)))"

definition RollbackTransportWithOptions :: "'w env \<Rightarrow> string \<Rightarrow> bool \<Rightarrow> ('w, rollback_result) go" where
  "RollbackTransportWithOptions E transport delete =
     tryE (restorePhase E transport) (\<lambda>st. State_Monad.bind (finishRollback E transport delete st) ok)"

definition RollbackTransport :: "'w env \<Rightarrow> string \<Rightarrow> ('w, rollback_result) go" where
  "RollbackTransport E transport = RollbackTransportWithOptions E transport False"

end
