(* ===== verification/Sessions.thy ===== *)
theory Sessions
  imports Client
begin

text \<open>
  Sessions: every request uses the cookie jar the client has when it is sent, and an operation keeps
  the jar, so an operation on a clone (\<open>freshSession\<close> in \<open>adt/client.go\<close>) shares no session with its
  caller.
\<close>

text \<open>
  An operation on a clone with a session of its own: its token, discovery and cookies start empty
  and are dropped afterwards. The clone shares the OAuth token and the outside world.
\<close>

definition onFreshSession :: "('w cl, 'r) state \<Rightarrow> ('w cl, 'r) state" where
  "onFreshSession m = State (\<lambda>s. case run_state m (freshSession s) of (r, s') \<Rightarrow> (r, resumeSession s s'))"

section \<open>Operations within one session\<close>

named_theorems session "operations that stay in the session they start in"

definition in_session :: "('w cl, 'r) state \<Rightarrow> bool" where
  "in_session m \<longleftrightarrow> (\<forall>s r s'. run_state m s = (r, s') \<longrightarrow> jar s' = jar s
     \<and> (\<exists>es. wire s' = es @ wire s \<and> list_all (\<lambda>ev. rq_jar (fst ev) = jar s) es))"

lemma in_sessionI:
  "(\<And>s r s'. run_state m s = (r, s') \<Longrightarrow> jar s' = jar s
     \<and> (\<exists>es. wire s' = es @ wire s \<and> list_all (\<lambda>ev. rq_jar (fst ev) = jar s) es)) \<Longrightarrow> in_session m"
  by (simp add: in_session_def)

lemma in_sessionE:
  assumes "in_session m" and "run_state m s = (r, s')"
  obtains es where "jar s' = jar s" "wire s' = es @ wire s" "list_all (\<lambda>ev. rq_jar (fst ev) = jar s) es"
  using assms(1) [unfolded in_session_def, rule_format, OF assms(2)] that by blast

lemma in_session_still:
  "(\<And>s r s'. run_state m s = (r, s') \<Longrightarrow> jar s' = jar s \<and> wire s' = wire s) \<Longrightarrow> in_session m"
  by (rule in_sessionI) fastforce

lemma in_session_pure [session]:
  "in_session (State_Monad.return r)" "in_session (gets f)"
  by (rule in_session_still, simp)+

lemma in_session_pure_sum [session]:
  "in_session (ok x)" "in_session (fail e)" "in_session (of_sum z)"
  by (rule in_session_still, simp)+

lemma in_session_modify [session]:
  "(\<And>s. jar (f s) = jar s) \<Longrightarrow> (\<And>s. wire (f s) = wire s) \<Longrightarrow> in_session (modify f)"
  by (rule in_session_still) auto

lemma in_session_if [session]:
  "(b \<Longrightarrow> in_session m) \<Longrightarrow> (\<not> b \<Longrightarrow> in_session n) \<Longrightarrow> in_session (if b then m else n)"
  by simp

lemma in_session_bind [session]:
  assumes "in_session m" and "\<And>r. in_session (k r)"
  shows "in_session (State_Monad.bind m k)"
proof (rule in_sessionI)
  fix s r s' assume run: "run_state (State_Monad.bind m k) s = (r, s')"
  obtain r1 s1 where m: "run_state m s = (r1, s1)" by fastforce
  with run have k: "run_state (k r1) s1 = (r, s')" by simp
  from assms(1) m obtain es where es: "jar s1 = jar s" "wire s1 = es @ wire s"
    "list_all (\<lambda>ev. rq_jar (fst ev) = jar s) es" by (rule in_sessionE)
  from assms(2) k obtain fs where fs: "jar s' = jar s1" "wire s' = fs @ wire s1"
    "list_all (\<lambda>ev. rq_jar (fst ev) = jar s1) fs" by (rule in_sessionE)
  from es fs have "wire s' = (fs @ es) @ wire s" "list_all (\<lambda>ev. rq_jar (fst ev) = jar s) (fs @ es)" by simp_all
  with es fs show "jar s' = jar s \<and> (\<exists>es. wire s' = es @ wire s \<and> list_all (\<lambda>ev. rq_jar (fst ev) = jar s) es)"
    by metis
qed

lemma in_session_tryw [session]:
  "in_session m \<Longrightarrow> (\<And>x. in_session (k x)) \<Longrightarrow> in_session (tryw w m k)"
  unfolding tryw_def by (intro session) (auto split: sum.splits intro: session)

text \<open>A request is made with the jar the client has at that moment.\<close>

lemma in_session_send:
  assumes "\<And>r. in_session (k r)"
  shows "in_session (State_Monad.bind (gets jar) (\<lambda>j.
     State_Monad.bind (http_send E (mk_request meth path hs cred body long j)) k))"
proof (rule in_sessionI)
  fix s r s'
  assume run: "run_state (State_Monad.bind (gets jar) (\<lambda>j.
     State_Monad.bind (http_send E (mk_request meth path hs cred body long j)) k)) s = (r, s')"
  let ?rq = "mk_request meth path hs cred body long (jar s)"
  obtain r1 s1 where send: "run_state (http_send E ?rq) s = (r1, s1)" by fastforce
  then have s1: "jar s1 = jar s" "wire s1 = [(?rq, r1)] @ wire s" by (auto simp: run_http_send)
  from run send have "run_state (k r1) s1 = (r, s')" by simp
  with assms obtain fs where fs: "jar s' = jar s1" "wire s' = fs @ wire s1"
    "list_all (\<lambda>ev. rq_jar (fst ev) = jar s1) fs" by (rule in_sessionE)
  with s1 have "wire s' = (fs @ [(?rq, r1)]) @ wire s"
    "list_all (\<lambda>ev. rq_jar (fst ev) = jar s) (fs @ [(?rq, r1)])" by (simp_all add: mk_request_def)
  with fs s1 show "jar s' = jar s \<and> (\<exists>es. wire s' = es @ wire s \<and> list_all (\<lambda>ev. rq_jar (fst ev) = jar s) es)"
    by metis
qed

lemma fetchCSRFToken_session [session]: "in_session (fetchCSRFToken E)"
  unfolding fetchCSRFToken_def
  by (auto split: option.splits sum.splits prod.splits
      intro!: in_session_send session simp: store_preflight_def Let_def)

lemma call_refresh_session [session]: "in_session (call_refresh cb sent)"
  by (rule in_session_still) (auto simp: call_refresh_def)

lemma refreshAfter401_session [session]: "in_session (refreshAfter401 E sent)"
  unfolding refreshAfter401_def by (auto split: option.splits sum.splits intro!: session)

lemma ensureCSRF_session [session]: "in_session (ensureCSRF E)"
  unfolding ensureCSRF_def by (auto split: option.splits prod.splits intro!: session)

lemma sendGet_session [session]: "in_session (sendGet E long path headers)"
  unfolding sendGet_def
  by (auto split: option.splits sum.splits prod.splits intro!: in_session_send session)

lemma doReadWith_session [session]: "in_session (doReadWith E long path headers)"
  unfolding doReadWith_def Let_def by (auto split: option.splits sum.splits prod.splits intro!: session)

lemma doRead_session [session]: "in_session (doRead E path headers)" "in_session (doReadLong E path headers)"
  by (simp_all add: doRead_def doReadLong_def session)

lemma execMutateWith_session [session]: "in_session (execMutateWith E long meth path body headers csrf)"
  unfolding execMutateWith_def
  by (auto split: option.splits sum.splits prod.splits intro!: in_session_send session)

lemma retryMutate_session [session]: "in_session (retryMutate E long meth path body headers)"
  unfolding retryMutate_def by (auto split: option.splits sum.splits prod.splits intro!: session)

lemma doMutateWith_session [session]: "in_session (doMutateWith E long meth path body headers)"
  unfolding doMutateWith_def Let_def by (auto split: option.splits sum.splits prod.splits intro!: session)

lemma doMutate_session [session]:
  "in_session (doMutate E meth path body headers)" "in_session (doMutateLong E meth path body headers)"
  by (simp_all add: doMutate_def doMutateLong_def session)

lemma checked_session [session]: "in_session m \<Longrightarrow> in_session (checked E w v m)"
  unfolding checked_def by (auto split: option.splits intro!: session)

section \<open>A clone's session\<close>

text \<open>What the caller's client keeps while an operation runs on a clone.\<close>

definition same_session :: "'w cl \<Rightarrow> 'w cl \<Rightarrow> bool" where
  "same_session s s' \<longleftrightarrow> csrfToken s' = csrfToken s \<and> hasSecureCookies s' = hasSecureCookies s
     \<and> discovery s' = discovery s \<and> removeObjectSupport s' = removeObjectSupport s \<and> jar s' = jar s"

lemma onFreshSession_isolated:
  assumes "in_session m"
  shows "same_session s (snd (run_state (onFreshSession m) s))
    \<and> (\<exists>es. wire (snd (run_state (onFreshSession m) s)) = es @ wire s
         \<and> list_all (\<lambda>ev. rq_jar (fst ev) = next_jar s) es)"
proof -
  obtain r s1 where m: "run_state m (freshSession s) = (r, s1)" by fastforce
  with assms obtain es where "wire s1 = es @ wire (freshSession s)"
    "list_all (\<lambda>ev. rq_jar (fst ev) = jar (freshSession s)) es" by (rule in_sessionE)
  with m show ?thesis
    by (auto simp: onFreshSession_def same_session_def resumeSession_def freshSession_def)
qed

lemma onFreshSession_stops:
  assumes "stops401 P m"
  shows "stops401 P (onFreshSession m)"
proof (rule stops401I)
  fix s r s' assume run: "run_state (onFreshSession m) s = (r, s')" and basic: "oauth s = None"
  then obtain s1 where m: "run_state m (freshSession s) = (r, s1)" and s': "s' = resumeSession s s1"
    by (auto simp: onFreshSession_def split: prod.splits)
  from basic have "oauth (freshSession s) = None" by (simp add: freshSession_def)
  with assms m obtain es where "oauth s1 = None" "wire s1 = es @ wire (freshSession s)" "stopped P r es"
    by (rule stops401E)
  then show "oauth s' = None \<and> (\<exists>es. wire s' = es @ wire s \<and> stopped P r es)"
    by (auto simp: s' resumeSession_def freshSession_def)
qed

end
