(* ===== verification/Lookups.thy ===== *)
theory Lookups
  imports Query Source Sessions
begin

text \<open>
  The operations that send one request and read its answer: searches (\<open>adt/search.go\<close>), table fields
  (\<open>adt/ddic.go\<close>), keyword documentation (\<open>adt/docu.go\<close>), running a class (\<open>adt/classrun.go\<close>),
  navigation, completion, pretty printing, message classes (\<open>adt/messageclass.go\<close>) and the three
  steps of a rename (\<open>adt/refactoring.go\<close>).
\<close>

text \<open>A value between quotes in hand-written XML, as \<open>Sprintf\<close> leaves it.\<close>

abbreviation raw_attr :: "string \<Rightarrow> string \<Rightarrow> string" where
  "raw_attr k v \<equiv> '' '' @ k @ ''='' @ [QUOT] @ v @ [QUOT]"

section \<open>Searching\<close>

definition parseObjectReferences :: "'w env \<Rightarrow> string \<Rightarrow> err + object_info list" where
  "parseObjectReferences E data =
     (case unmarshal_root E ''objectReferences'' data of
        Inl e \<Rightarrow> Inl (wrapf ''parsing object references: '' e)
      | Inr x \<Rightarrow> Inr (map (\<lambda>r. \<lparr>oi_uri = xml_attr r ''uri'', oi_type = xml_attr r ''type'',
          oi_name = xml_attr r ''name'', oi_description = xml_attr r ''description'',
          oi_package = xml_attr r ''packageName'', oi_abap_version = [], oi_package_version = []\<rparr>)
          (kids_named ''objectReference'' x)))"

definition search_params :: "string \<Rightarrow> string \<Rightarrow> int \<Rightarrow> (string \<times> string) list" where
  "search_params query objectType maxResults =
     [(''operation'', ''quickSearch''), (''query'', query)] @ opt_param ''objectType'' objectType
       @ (if maxResults > 0 then [(''maxResults'', itoa maxResults)] else [])"

definition SearchObjects :: "'w env \<Rightarrow> string \<Rightarrow> string \<Rightarrow> int \<Rightarrow> ('w, object_info list) go" where
  "SearchObjects E query objectType maxResults =
     tryE (checked E (wrapf ''SearchObjects: '') (\<lambda>e. e) (doRead E
        (''/sap/bc/adt/repository/informationsystem/search?'' @ values_encode (search_params query objectType maxResults))
        [(''Accept'', contentTypeXML)])) (\<lambda>resp. of_sum (parseObjectReferences E (rs_body resp)))"

definition SearchPackages :: "'w env \<Rightarrow> string \<Rightarrow> int \<Rightarrow> ('w, object_info list) go" where
  "SearchPackages E query maxResults = SearchObjects E query ''DEVC/K'' maxResults"

definition parseUsageReferences :: "'w env \<Rightarrow> string \<Rightarrow> err + object_info list" where
  "parseUsageReferences E data =
     (case unmarshal_root E ''usageReferenceResult'' data of
        Inl e \<Rightarrow> Inl (wrapf ''parsing usage references: '' e)
      | Inr x \<Rightarrow> Inr (map (\<lambda>r. \<lparr>oi_uri = xml_attr r ''uri'', oi_type = kid_attr ''adtObject'' ''type'' r,
          oi_name = kid_attr ''adtObject'' ''name'' r, oi_description = kid_attr ''adtObject'' ''description'' r,
          oi_package = (case last_kid ''adtObject'' r of None \<Rightarrow> [] | Some ob \<Rightarrow> kid_attr ''packageRef'' ''name'' ob),
          oi_abap_version = [], oi_package_version = []\<rparr>)
          (kids_path [''referencedObjects'', ''referencedObject''] x)))"

definition whereUsedBody :: "string \<Rightarrow> string" where
  "whereUsedBody uri = ''<?xml'' @ raw_attr ''version'' ''1.0'' @ raw_attr ''encoding'' ''UTF-8'' @ ''?>''
     @ ''<usageReferenceRequest'' @ raw_attr ''xmlns'' ''http://www.sap.com/adt/ris/usageReferences''
     @ raw_attr ''xmlns:adtcore'' nsADTCore @ ''>''
     @ ''<adtcore:objectReference'' @ raw_attr ''adtcore:uri'' uri @ ''/></usageReferenceRequest>''"

definition WhereUsed :: "'w env \<Rightarrow> string \<Rightarrow> ('w, object_info list) go" where
  "WhereUsed E uri =
     tryE (checked E (wrapf ''WhereUsed: '') (\<lambda>e. e) (doMutate E ''POST''
        (''/sap/bc/adt/repository/informationsystem/usageReferences?'' @ values_encode [(''uri'', uri)])
        (Some (whereUsedBody uri))
        [(''Content-Type'', ''application/vnd.sap.adt.repository.usagereferences.request.v1+xml''),
         (''Accept'', ''application/vnd.sap.adt.repository.usagereferences.result.v1+xml'')])) (\<lambda>resp.
     of_sum (parseUsageReferences E (rs_body resp)))"

section \<open>Table fields\<close>

record field_info =
  fi_name :: string
  fi_position :: int
  fi_key :: bool
  fi_type :: string
  fi_length :: int
  fi_decimals :: int
  fi_domain :: string
  fi_element :: string

definition fieldRow :: "string list \<Rightarrow> field_info option" where
  "fieldRow row =
     (if length row < 8 then None
      else (let cell = (\<lambda>i. trim_space (row ! i)) in
        if has_prefix (cell 0) ''.'' then None
        else Some \<lparr>fi_name = cell 0, fi_position = atoi0 (cell 1), fi_key = (cell 2 = ''X''), fi_type = cell 3,
          fi_length = atoi0 (cell 4), fi_decimals = atoi0 (cell 5), fi_domain = cell 6, fi_element = cell 7\<rparr>))"

definition tableFieldsSQL :: "string \<Rightarrow> string" where
  "tableFieldsSQL table =
     ''SELECT FIELDNAME, POSITION, KEYFLAG, DATATYPE, LENG, DECIMALS, DOMNAME, ROLLNAME ''
     @ ''FROM DD03L WHERE TABNAME = '' @ [APOS] @ replace_all table [APOS] [APOS, APOS] @ [APOS]
     @ '' ORDER BY POSITION''"

definition GetTableFields :: "'w env \<Rightarrow> string \<Rightarrow> ('w, field_info list) go" where
  "GetTableFields E tableName =
     (let table = to_upper (trim_space tableName) in
      if table = [] then fail (Msg ''GetTableFields: table name must not be empty'')
      else tryw (wrapf ''GetTableFields: '') (RunQuery E (tableFieldsSQL table) 500) (\<lambda>result.
        let fs = List.map_filter fieldRow (qr_rows result) in
        if fs = [] then fail (TableNotFoundError (''GetTableFields: DDIC table '' @ quoted table
            @ '' does not exist (DD03L has no rows for it)''))
        else ok fs))"

section \<open>Keyword documentation\<close>

text \<open>\<open>htmlTagRe.ReplaceAllString(s, " ")\<close> for \<open><[^>]*>\<close>.\<close>

function strip_tags :: "string \<Rightarrow> string" where
  "strip_tags [] = []"
| "strip_tags (c # cs) =
     (case (if c = CHR ''<'' then index_byte cs (CHR ''>'') else None) of
        None \<Rightarrow> c # strip_tags cs
      | Some i \<Rightarrow> CHR '' '' # strip_tags (drop (Suc i) cs))"
  by pat_completeness auto
termination by (relation "measure length") auto

definition docu_text :: "string \<Rightarrow> string" where
  "docu_text html = trim_space (join '' '' (go_fields (strip_tags html)))"

definition GetABAPDoc :: "'w env \<Rightarrow> string \<Rightarrow> ('w, string) go" where
  "GetABAPDoc E keyword =
     tryw (wrapf ''GetABAPDoc: '') (doRead E (''/sap/public/bc/abap/docu?'' @ values_encode
        ((''format'', ''eclipse'') # opt_param ''sap-client'' (cfg_client E) @ opt_param ''query'' (to_upper keyword)))
        [(''Accept'', ''text/html'')]) (\<lambda>resp.
     if rs_status resp = 403 then
       fail (Msg (''GetABAPDoc: ABAP keyword documentation is not available on this system ''
         @ [CHR 0xE2, CHR 0x80, CHR 0x94] @ '' the ICF service /sap/public/bc/abap/docu may need to be activated via transaction SICF''))
     else (case checkResponse E resp of
         Some e \<Rightarrow> fail e
       | None \<Rightarrow> tryw (wrapf ''GetABAPDoc reading body: '') (of_sum (read_all resp)) (\<lambda>data. ok (docu_text data))))"

section \<open>Running a class\<close>

record class_run_result =
  cr_class :: string
  cr_output :: string

definition runClassHere :: "'w env \<Rightarrow> string \<Rightarrow> ('w, class_run_result) go" where
  "runClassHere E className =
     tryE (checked E (wrapf ''RunClass: '') (\<lambda>e. e) (doMutateLong E ''POST''
        (''/sap/bc/adt/oo/classrun/'' @ to_lower className) None [(''Accept'', ''text/plain'')])) (\<lambda>resp.
     tryw (wrapf ''RunClass reading body: '') (of_sum (read_all resp)) (\<lambda>body.
       ok \<lparr>cr_class = className, cr_output = body\<rparr>))"

definition RunClass :: "'w env \<Rightarrow> string \<Rightarrow> ('w, class_run_result) go" where
  "RunClass E className = onFreshSession (runClassHere E className)"

section \<open>Editor services\<close>

definition NavigateToDefinition :: "'w env \<Rightarrow> string \<Rightarrow> string \<Rightarrow> ('w, string) go" where
  "NavigateToDefinition E sourceURI source =
     tryE (checked E (wrapf ''NavigateToDefinition: '') (\<lambda>e. e) (doMutate E ''POST''
        (''/sap/bc/adt/navigation/target?uri='' @ query_escape sourceURI) (Some source)
        [(''Content-Type'', ''text/plain; charset=utf-8''), (''Accept'', ''application/xml'')])) (\<lambda>resp.
     tryw (wrapf ''NavigateToDefinition reading body: '') (of_sum (read_all resp)) (\<lambda>data.
     tryw (wrapf ''NavigateToDefinition parsing: '') (of_sum (unmarshal_any E data)) (\<lambda>x.
       ok (if xml_attr_ns nsADTCore x ''uri'' = [] then xml_attr x ''uri'' else xml_attr_ns nsADTCore x ''uri''))))"

definition GetCompletions :: "'w env \<Rightarrow> string \<Rightarrow> string \<Rightarrow> int \<Rightarrow> int \<Rightarrow> ('w, string list) go" where
  "GetCompletions E uri source line column =
     tryE (checked E (wrapf ''GetCompletions: '') (\<lambda>e. e) (doMutate E ''POST''
        (''/sap/bc/adt/abapsource/codecompletion/proposal?'' @ values_encode
           [(''uri'', bareObjectURI uri @ sourceMainSuffix @ ''#start='' @ itoa line @ '','' @ itoa column)])
        (Some source)
        [(''Content-Type'', ''text/plain; charset=utf-8''), (''Accept'', ''application/vnd.sap.as+xml'')])) (\<lambda>resp.
     tryw (wrapf ''GetCompletions reading body: '') (of_sum (read_all resp)) (\<lambda>data.
       if data = [] then ok []
       else tryw (wrapf ''GetCompletions parsing: '') (of_sum (unmarshal_root E ''abap'' data)) (\<lambda>x.
         if xspace x \<noteq> ''http://www.sap.com/abapxml'' then
           fail (wrapf ''GetCompletions parsing: '' (Msg (''expected element <abap> in name space http://www.sap.com/abapxml but have '' @ xspace x)))
         else ok (map (kid_text ''IDENTIFIER'') (kids_path [''values'', ''DATA'', ''SCC_COMPLETION''] x)))))"

definition PrettyPrint :: "'w env \<Rightarrow> string \<Rightarrow> ('w, string) go" where
  "PrettyPrint E source =
     tryE (checked E (wrapf ''PrettyPrint: '') (\<lambda>e. e) (doMutate E ''POST''
        ''/sap/bc/adt/abapsource/prettyprinter'' (Some source) [(''Content-Type'', ''text/plain; charset=utf-8'')])) (\<lambda>resp.
     tryw (wrapf ''PrettyPrint reading body: '') (of_sum (read_all resp)) ok)"

section \<open>Message classes\<close>

record message =
  ms_number :: string
  ms_text :: string
  ms_self_expl :: bool

record message_class =
  mc_name :: string
  mc_description :: string
  mc_package :: string
  mc_messages :: "message list"
  mc_etag :: string

definition messageClassContentType :: string where
  "messageClassContentType = ''application/vnd.sap.adt.mc.messageclass+xml''"

definition parseMessageClassXML :: "'w env \<Rightarrow> string \<Rightarrow> err + message_class" where
  "parseMessageClassXML E data =
     (case unmarshal_root E ''messageClass'' data of
        Inl e \<Rightarrow> Inl (wrapf ''parsing message class XML: '' e)
      | Inr x \<Rightarrow> Inr \<lparr>mc_name = xml_attr x ''name'', mc_description = xml_attr x ''description'',
          mc_package = kid_attr ''packageRef'' ''name'' x,
          mc_messages = map (\<lambda>m. \<lparr>ms_number = xml_attr m ''msgno'', ms_text = xml_attr m ''msgtext'',
              ms_self_expl = (xml_attr m ''selfexplainatory'' = ''true'')\<rparr>)
            (filter (\<lambda>m. \<not> (xml_attr m ''msgtext'' = [] \<and> xml_attr m ''msgno'' = [])) (kids_named ''messages'' x)),
          mc_etag = []\<rparr>)"

definition GetMessageClass :: "'w env \<Rightarrow> string \<Rightarrow> ('w, message_class) go" where
  "GetMessageClass E messageClassName =
     tryE (checked E (wrapf ''GetMessageClass: '') (\<lambda>e. e) (doRead E
        (''/sap/bc/adt/messageclass/'' @ to_lower messageClassName) [(''Accept'', messageClassContentType)])) (\<lambda>resp.
     tryw (wrapf ''GetMessageClass: reading body: '') (of_sum (read_all resp)) (\<lambda>data.
     tryE (of_sum (parseMessageClassXML E data)) (\<lambda>mc. ok (mc\<lparr>mc_etag := header (rs_headers resp) ''ETag''\<rparr>))))"

record message_search_result =
  sr_name :: string
  sr_description :: string
  sr_uri :: string

definition parseNamedItemList :: "'w env \<Rightarrow> string \<Rightarrow> err + message_search_result list" where
  "parseNamedItemList E data =
     (case unmarshal_any E data of
        Inl e \<Rightarrow> Inl (wrapf ''parsing named item list: '' e)
      | Inr x \<Rightarrow> Inr (map (\<lambda>i. \<lparr>sr_name = kid_text ''name'' i, sr_description = kid_text ''description'' i,
          sr_uri = kid_text ''data'' i\<rparr>) (kids_named ''namedItem'' x)))"

definition SearchMessages :: "'w env \<Rightarrow> string \<Rightarrow> int \<Rightarrow> ('w, message_search_result list) go" where
  "SearchMessages E query maxResults0 =
     (let maxResults = (if maxResults0 \<le> 0 then 50 else maxResults0) in
      tryE (checked E (wrapf ''SearchMessages: '') (\<lambda>e. e) (doRead E
        (''/sap/bc/adt/repository/informationsystem/messagesearch?name='' @ query @ ''&maxItemCount='' @ itoa maxResults)
        [(''Accept'', ''application/xml'')])) (\<lambda>resp.
      tryw (wrapf ''SearchMessages: reading body: '') (of_sum (read_all resp)) (\<lambda>data.
        of_sum (parseNamedItemList E data))))"

definition boolToString :: "bool \<Rightarrow> string" where
  "boolToString b = (if b then ''true'' else ''false'')"

definition messageXML :: "message \<Rightarrow> string" where
  "messageXML m = ''<mc:messages'' @ raw_attr ''mc:msgno'' (ms_number m) @ raw_attr ''mc:msgtext'' (xml_escape (ms_text m))
     @ raw_attr ''mc:selfexplainatory'' (boolToString (ms_self_expl m)) @ raw_attr ''mc:documented'' ''false''
     @ raw_attr ''adtcore:name'' [] @ ''/>''"

definition buildMessageClassPutXML :: "string \<Rightarrow> message list \<Rightarrow> string" where
  "buildMessageClassPutXML nm messages =
     ''<?xml'' @ raw_attr ''version'' ''1.0'' @ raw_attr ''encoding'' ''utf-8'' @ ''?>''
     @ ''<mc:messageClass'' @ raw_attr ''xmlns:mc'' ''http://www.sap.com/adt/MessageClass''
     @ raw_attr ''xmlns:adtcore'' ''http://www.sap.com/adt/core''
     @ raw_attr ''adtcore:name'' (to_upper nm) @ raw_attr ''adtcore:type'' ''MSAG/N'' @ ''>''
     @ concat (map messageXML messages) @ ''</mc:messageClass>''"

definition SetMessages :: "'w env \<Rightarrow> string \<Rightarrow> string \<Rightarrow> message list \<Rightarrow> ('w, unit) go" where
  "SetMessages E messageClassName etag messages =
     tryE (checked E (wrapf ''SetMessages: '') (\<lambda>e. e) (doMutate E ''PUT''
        (''/sap/bc/adt/messageclass/'' @ messageClassName @ ''?accessMode=MODIFY'')
        (Some (buildMessageClassPutXML messageClassName messages))
        [(''Content-Type'', messageClassContentType), (''Accept'', messageClassContentType), (''If-Match'', etag)])) (\<lambda>_. ok ())"

section \<open>Renaming\<close>

record rename_location =
  rl_range :: string
  rl_old :: string
  rl_new :: string

record rename_object =
  ro_uri :: string
  ro_type :: string
  ro_name :: string
  ro_locations :: "rename_location list"

record rename_result =
  rr_old :: string
  rr_new :: string
  rr_objects :: "rename_object list"

definition extractXMLTag :: "string \<Rightarrow> string \<Rightarrow> string" where
  "extractXMLTag s tag =
     (let opening = ''<'' @ tag @ ''>''; closing = ''</'' @ tag @ ''>'' in
      case index_of s opening of
        None \<Rightarrow> []
      | Some i \<Rightarrow>
          (case index_of (drop i s) closing of
             None \<Rightarrow> []
           | Some j \<Rightarrow> drop (length opening) (take j (drop i s))))"

definition parseAffectedObjects :: "'w env \<Rightarrow> string \<Rightarrow> rename_object list" where
  "parseAffectedObjects E preview =
     (case unmarshal_any E preview of
        Inl _ \<Rightarrow> []
      | Inr x \<Rightarrow> map (\<lambda>ob. \<lparr>ro_uri = xml_attr ob ''uri'', ro_type = xml_attr ob ''type'', ro_name = xml_attr ob ''name'',
          ro_locations = map (\<lambda>d. \<lparr>rl_range = kid_text ''rangeFragment'' d, rl_old = kid_text ''contentOld'' d,
            rl_new = kid_text ''contentNew'' d\<rparr>) (kids_path [''textReplaceDeltas'', ''textReplaceDelta''] ob)\<rparr>)
          (kids_path [''affectedObjects'', ''affectedObject''] x))"

definition refactoringStep :: "'w env \<Rightarrow> string \<Rightarrow> (string \<times> string) list \<Rightarrow> string \<Rightarrow> ('w, string) go" where
  "refactoringStep E step params body =
     tryE (checked E (\<lambda>e. e) (\<lambda>e. e) (doMutate E ''POST''
        (''/sap/bc/adt/refactorings?'' @ values_encode ((''step'', step) # params))
        (if body = [] then None else Some body)
        [(''Content-Type'', ''application/xml''), (''Accept'', ''application/xml'')])) (\<lambda>resp.
     tryw (wrapf ''reading response: '') (of_sum (read_all resp)) ok)"

definition renameRelation :: string where
  "renameRelation = ''http://www.sap.com/adt/relations/refactoring/rename''"

definition renameOldName :: "string \<Rightarrow> string" where
  "renameOldName evaluated =
     (let n = extractXMLTag evaluated ''rename:oldName'' in if n = [] then extractXMLTag evaluated ''oldName'' else n)"

definition setNewName :: "string \<Rightarrow> string \<Rightarrow> string \<Rightarrow> string" where
  "setNewName evaluated oldName newName =
     replace_first evaluated (''<rename:newName>'' @ oldName @ ''</rename:newName>'')
       (''<rename:newName>'' @ newName @ ''</rename:newName>'')"

definition setTransport :: "string \<Rightarrow> string \<Rightarrow> string" where
  "setTransport preview transport =
     (if transport = [] then preview
      else replace_first preview ''<generic:transport/>'' (''<generic:transport>'' @ transport @ ''</generic:transport>''))"

definition Rename :: "'w env \<Rightarrow> string \<Rightarrow> string \<Rightarrow> string \<Rightarrow> ('w, rename_result) go" where
  "Rename E sourceURI newName transport =
     tryw (wrapf ''Rename evaluate: '')
       (refactoringStep E ''evaluate'' [(''rel'', renameRelation), (''uri'', sourceURI)] []) (\<lambda>evaluated.
     (let oldName = renameOldName evaluated in
      if oldName = [] then fail (Msg ''Rename: could not find old name in evaluate response'')
      else tryw (wrapf ''Rename preview: '')
        (refactoringStep E ''preview'' [(''rel'', renameRelation)] (setNewName evaluated oldName newName)) (\<lambda>preview.
      tryw (wrapf ''Rename execute: '') (refactoringStep E ''execute'' [] (setTransport preview transport)) (\<lambda>_.
        ok \<lparr>rr_old = oldName, rr_new = newName, rr_objects = parseAffectedObjects E preview\<rparr>))))"

section \<open>After a rejected credential\<close>

lemma SearchObjects_stops [stops]: "stops401 unauth (SearchObjects E query objectType maxResults)"
  unfolding SearchObjects_def by (auto intro!: stops doRead_stops)

lemma SearchPackages_stops [stops]: "stops401 unauth (SearchPackages E query maxResults)"
  unfolding SearchPackages_def by (rule stops)

lemma WhereUsed_stops [stops]: "stops401 unauth (WhereUsed E uri)"
  unfolding WhereUsed_def by (auto intro!: stops doMutate_stops)

lemma GetTableFields_stops [stops]: "stops401 unauth (GetTableFields E tableName)"
  unfolding GetTableFields_def Let_def by (auto intro!: stops)

lemma GetABAPDoc_stops [stops]: "stops401 unauth (GetABAPDoc E keyword)"
  unfolding GetABAPDoc_def
  by (auto split: option.splits intro!: stops stops401_tryw_resp [OF doRead_stops(1)] simp: checkResponse_def)

lemma NavigateToDefinition_stops [stops]: "stops401 unauth (NavigateToDefinition E sourceURI source)"
  unfolding NavigateToDefinition_def by (auto intro!: stops doMutate_stops)

lemma GetCompletions_stops [stops]: "stops401 unauth (GetCompletions E uri source line column)"
  unfolding GetCompletions_def by (auto intro!: stops doMutate_stops)

lemma PrettyPrint_stops [stops]: "stops401 unauth (PrettyPrint E source)"
  unfolding PrettyPrint_def by (auto intro!: stops doMutate_stops)

lemma GetMessageClass_stops [stops]: "stops401 unauth (GetMessageClass E messageClassName)"
  unfolding GetMessageClass_def by (auto intro!: stops doRead_stops)

lemma SearchMessages_stops [stops]: "stops401 unauth (SearchMessages E query maxResults)"
  unfolding SearchMessages_def Let_def by (auto intro!: stops doRead_stops)

lemma SetMessages_stops [stops]: "stops401 unauth (SetMessages E messageClassName etag messages)"
  unfolding SetMessages_def by (auto intro!: stops doMutate_stops)

lemma refactoringStep_stops [stops]: "stops401 unauth (refactoringStep E step params body)"
  unfolding refactoringStep_def by (auto intro!: stops doMutate_stops)

lemma Rename_stops [stops]: "stops401 unauth (Rename E sourceURI newName transport)"
  unfolding Rename_def Let_def by (auto intro!: stops)

lemma RunClass_stops [stops]: "stops401 unauth (RunClass E className)"
  unfolding RunClass_def runClassHere_def
  by (rule onFreshSession_stops) (auto intro!: stops doMutate_stops)

lemma strip_tags_shrinks: "x \<in> set (strip_tags s) \<Longrightarrow> x = CHR '' '' \<or> x \<in> set s"
  by (induction s rule: strip_tags.induct) (auto split: option.splits if_splits dest: in_set_dropD)

lemma strip_tags_no_tag: "strip_tags s = u @ CHR ''<'' # v \<Longrightarrow> CHR ''>'' \<notin> set v"
proof (induction s arbitrary: u rule: strip_tags.induct)
  case (2 c cs)
  show ?case
  proof (cases "if c = CHR ''<'' then index_byte cs (CHR ''>'') else None")
    case (Some i)
    with 2(3) obtain u' where "strip_tags (drop (Suc i) cs) = u' @ CHR ''<'' # v"
      by (cases u) auto
    with 2(2) [OF Some] show ?thesis by blast
  next
    case None
    show ?thesis
    proof (cases u)
      case Nil
      with None 2(3) have "c = CHR ''<''" "index_byte cs (CHR ''>'') = None" "v = strip_tags cs"
        by (auto split: if_splits)
      then show ?thesis using strip_tags_shrinks [of "CHR ''>''" cs] by (auto simp: index_byte_None)
    next
      case (Cons d u')
      with None 2(3) have "strip_tags cs = u' @ CHR ''<'' # v" by auto
      with 2(1) [OF None] show ?thesis by blast
    qed
  qed
qed simp

lemma filter_split: "filter p s = a @ c # b \<Longrightarrow> \<exists>u v. s = u @ c # v \<and> filter p v = b"
proof (induction s arbitrary: a)
  case (Cons d s)
  show ?case
  proof (cases "p d \<and> a = []")
    case True
    with Cons.prems have "d # s = [] @ c # s \<and> filter p s = b" by simp
    then show ?thesis by blast
  next
    case False
    with Cons.prems obtain a' where "filter p s = a' @ c # b" by (cases a) (auto split: if_splits)
    from Cons.IH [OF this] obtain u v where "s = u @ c # v \<and> filter p v = b" by blast
    then have "d # s = (d # u) @ c # v \<and> filter p v = b" by simp
    then show ?thesis by blast
  qed
qed simp

lemma filter_join: "filter p (join sep ws) = join (filter p sep) (map (filter p) ws)"
  by (induction sep ws rule: join.induct) auto

lemma join_Nil_concat: "join [] ws = concat ws"
  by (induction "[] :: string" ws rule: join.induct) auto

lemma filter_trim_right: "(\<And>c. q c \<Longrightarrow> \<not> p c) \<Longrightarrow> filter p (dropWhile q s) = filter p s"
  by (induction s) auto

lemma filter_trim_space: "filter (\<lambda>c. \<not> is_space c) (trim_space s) = filter (\<lambda>c. \<not> is_space c) s"
proof -
  let ?p = "\<lambda>c. \<not> is_space c"
  have "filter ?p (dropWhile is_space t) = filter ?p t" for t by (rule filter_trim_right) simp
  then have "filter ?p (rev (dropWhile is_space (rev t))) = filter ?p t" for t
    by (metis rev_filter rev_rev_ident)
  then show ?thesis by (simp add: trim_space_def trim_left_def trim_right_def filter_trim_right)
qed

lemma docu_text_letters: "filter (\<lambda>c. \<not> is_space c) (docu_text html) = filter (\<lambda>c. \<not> is_space c) (strip_tags html)"
proof -
  have "filter (\<lambda>c. \<not> is_space c) w = w" if "w \<in> set (go_fields s)" for w s
    using go_fields_words [of s] that by (auto simp: list_all_iff filter_id_conv)
  then have "map (filter (\<lambda>c. \<not> is_space c)) (go_fields s) = go_fields s" for s
    by (simp add: map_idI)
  then show ?thesis
    by (simp add: docu_text_def filter_trim_space filter_join is_space_def [of "CHR '' ''"] join_Nil_concat
        go_fields_def go_fields_from_concat)
qed

lemma encoded_path_plain:
  assumes "CHR ''?'' \<notin> set p" and "\<not> contains_str p ''//''" and "q = [] \<or> hd q = CHR ''?''"
  shows "encoded_path (p @ q) = p @ q"
  using assms(2) encode_ns_query_append [OF assms(1,3)]
  by (simp add: encoded_path_def encodeNamespacePath_def contains_str_def split: option.splits)

lemma sort_search_params:
  "sort_key fst (search_params query ty n) =
     (if n > 0 then [(''maxResults'', itoa n)] else []) @ opt_param ''objectType'' ty
       @ [(''operation'', ''quickSearch''), (''query'', query)]"
  by (simp add: search_params_def opt_param_def sort_key_def)

section \<open>Properties\<close>

text \<open>
  The documentation text is plain: once the tags are taken out no opening angle bracket is left
  before a closing one, however they were nested or broken in the page.
\<close>

theorem docu_text_has_no_tags:
  "\<nexists>u v. docu_text html = u @ CHR ''<'' # v \<and> CHR ''>'' \<in> set v"
proof clarify
  fix u v assume split: "docu_text html = u @ CHR ''<'' # v" and gt: "CHR ''>'' \<in> set v"
  let ?f = "filter (\<lambda>c. \<not> is_space c)"
  have "?f (strip_tags html) = ?f u @ CHR ''<'' # ?f v"
    using docu_text_letters [of html] by (simp add: split is_space_def [of "CHR ''<''"])
  then obtain u' v' where "strip_tags html = u' @ CHR ''<'' # v'" "?f v' = ?f v"
    using filter_split [of _ _ "?f u" "CHR ''<''" "?f v"] by blast
  moreover from gt have "CHR ''>'' \<in> set (?f v)" by (simp add: is_space_def)
  ultimately have "CHR ''>'' \<in> set v'" by (metis filter_is_subset subsetD)
  with \<open>strip_tags html = _\<close> show False using strip_tags_no_tag by blast
qed

text \<open>
  Running a class leaves the caller's session alone: every request of \<open>RunClass\<close> uses a new
  cookie jar, and the caller's token, cookies, discovery and jar are what they were.
\<close>

theorem RunClass_isolated:
  "same_session s (snd (run_state (RunClass E className) s))
   \<and> (\<exists>es. wire (snd (run_state (RunClass E className) s)) = es @ wire s
        \<and> list_all (\<lambda>ev. rq_jar (fst ev) = next_jar s) es)"
  unfolding RunClass_def
  by (rule onFreshSession_isolated) (auto simp: runClassHere_def intro!: session)

text \<open>
  The object URI goes into the body of a where-used request as it is: a quote in it ends the
  attribute, and what follows is read as further attributes.
\<close>

theorem WhereUsed_uri_unescaped:
  "whereUsedBody (''/u'' @ [QUOT] @ '' adtcore:name='' @ [QUOT] @ ''X'') =
     ''<?xml'' @ raw_attr ''version'' ''1.0'' @ raw_attr ''encoding'' ''UTF-8'' @ ''?>''
     @ ''<usageReferenceRequest'' @ raw_attr ''xmlns'' ''http://www.sap.com/adt/ris/usageReferences''
     @ raw_attr ''xmlns:adtcore'' nsADTCore @ ''>''
     @ ''<adtcore:objectReference'' @ raw_attr ''adtcore:uri'' ''/u'' @ raw_attr ''adtcore:name'' ''X''
     @ ''/></usageReferenceRequest>''"
  by (simp add: whereUsedBody_def)

text \<open>
  What is searched for arrives as it is: beside preflights \<open>SearchObjects\<close> sends a GET whose query
  string, read the way a web server reads form-encoded pairs, is exactly the parameters of the search,
  whatever characters the search pattern and the object type hold.
\<close>

theorem SearchObjects_query_arrives:
  "\<exists>es. wire (snd (run_state (SearchObjects E query ty n) s)) = es @ wire s
     \<and> list_all (\<lambda>ev. is_preflight (fst ev)
          \<or> (rq_method (fst ev) = ''GET'' \<and> rq_body (fst ev) = None
             \<and> (\<exists>q. rq_path (fst ev) = ''/sap/bc/adt/repository/informationsystem/search?'' @ q
                 \<and> parse_query q = map Some ((if n > 0 then [(''maxResults'', itoa n)] else [])
                     @ opt_param ''objectType'' ty @ [(''operation'', ''quickSearch''), (''query'', query)])))) es"
proof -
  let ?q = "values_encode (search_params query ty n)"
  have path: "encoded_path (''/sap/bc/adt/repository/informationsystem/search?'' @ ?q)
      = ''/sap/bc/adt/repository/informationsystem/search?'' @ ?q"
    using encoded_path_plain [of "''/sap/bc/adt/repository/informationsystem/search''" "CHR ''?'' # ?q"]
    by (simp add: contains_str_def has_prefix_def)
  let ?P = "\<lambda>rq. is_preflight rq \<or> (rq_method rq = ''GET'' \<and> rq_body rq = None
             \<and> (\<exists>q. rq_path rq = ''/sap/bc/adt/repository/informationsystem/search?'' @ q
                 \<and> parse_query q = map Some (sort_key fst (search_params query ty n))))"
  have "emits ?P (SearchObjects E query ty n)"
    unfolding SearchObjects_def
    using path parse_values_encode [of "search_params query ty n"]
    by (auto intro!: sends simp: accepts_preflight_def accepts_def)
  from emits_run [OF this, of s] show ?thesis by (simp add: sort_search_params)
qed

text \<open>
  The text of a message arrives as it is in the document \<open>SetMessages\<close> puts: it stands between the
  quotes of its attribute, escaped so that it can neither end the attribute nor open an element, and
  reading the references back gives the text.
\<close>

theorem message_text_arrives:
  assumes "xml_text_legal (ms_text m)"
  shows "\<exists>u t v. messageXML m = u @ '' mc:msgtext='' @ [QUOT] @ t @ [QUOT] @ v
    \<and> xml_unescape (length (ms_text m)) t = ms_text m
    \<and> list_all (\<lambda>c. c \<notin> {CHR ''<'', CHR ''>'', QUOT, APOS}) t"
proof -
  let ?u = "''<mc:messages'' @ raw_attr ''mc:msgno'' (ms_number m)"
  let ?v = "raw_attr ''mc:selfexplainatory'' (boolToString (ms_self_expl m)) @ raw_attr ''mc:documented'' ''false''
     @ raw_attr ''adtcore:name'' [] @ ''/>''"
  have "messageXML m = ?u @ '' mc:msgtext='' @ [QUOT] @ xml_escape (ms_text m) @ [QUOT] @ ?v"
    by (simp add: messageXML_def)
  with xml_value_arrives [OF assms] show ?thesis by blast
qed
lemma xml_text_legal_example: "xml_text_legal ''a<b''"
  by code_simp

theorem message_text_arrives_witness:
  "\<exists>u t v. messageXML \<lparr>ms_number = ''001'', ms_text = ''a<b'', ms_self_expl = True\<rparr> = u @ '' mc:msgtext='' @ [QUOT] @ t @ [QUOT] @ v
    \<and> xml_unescape (length ''a<b'') t = ''a<b''
    \<and> list_all (\<lambda>c. c \<notin> {CHR ''<'', CHR ''>'', QUOT, APOS}) t"
  using message_text_arrives [of "\<lparr>ms_number = ''001'', ms_text = ''a<b'', ms_self_expl = True\<rparr>"]
  by (simp add: xml_text_legal_example)

end
