(* ===== verification/SyntaxCheck.thy ===== *)
theory SyntaxCheck
  imports Activate Lookups
begin

text \<open>
  Syntax checks (\<open>adt/syntaxcheck.go\<close>, \<open>adt/adtxml/syntaxcheck.go\<close>): one request per chunk of ten
  objects, the results put back to the objects by their URI, and the repetition of \<open>SyntaxCheck\<close> on
  the active version.
\<close>

record syntax_message =
  sm_type :: string
  sm_text :: string
  sm_line :: int
  sm_column :: int

record object_syntax_result =
  os_uri :: string
  os_messages :: "syntax_message list"
  os_error :: string

section \<open>The request\<close>

text \<open>\<open>html.EscapeString\<close>.\<close>

definition html_byte :: "char \<Rightarrow> string" where
  "html_byte c =
     (if c = CHR ''<'' then ''&lt;'' else if c = CHR ''>'' then ''&gt;'' else if c = CHR ''&'' then ''&amp;''
      else if c = APOS then ''&#39;'' else if c = QUOT then ''&#34;'' else [c])"

definition html_escape :: "string \<Rightarrow> string" where
  "html_escape s = concat (map html_byte s)"

definition checkBody :: "string list \<Rightarrow> string \<Rightarrow> string" where
  "checkBody uris version =
     ''<?xml'' @ raw_attr ''version'' ''1.0'' @ raw_attr ''encoding'' ''UTF-8'' @ ''?>''
     @ ''<chkrun:checkObjectList'' @ raw_attr ''xmlns:chkrun'' ''http://www.sap.com/adt/checkrun''
     @ raw_attr ''xmlns:adtcore'' ''http://www.sap.com/adt/core'' @ ''>''
     @ concat (map (\<lambda>uri. ''<chkrun:checkObject'' @ raw_attr ''adtcore:uri'' (html_escape uri)
         @ raw_attr ''chkrun:version'' version @ ''/>'') uris)
     @ ''</chkrun:checkObjectList>''"

definition chunkErrorResults :: "string list \<Rightarrow> err \<Rightarrow> object_syntax_result list" where
  "chunkErrorResults uris e = map (\<lambda>uri. \<lparr>os_uri = uri, os_messages = [], os_error = err_text e\<rparr>) uris"

section \<open>The answer\<close>

definition parseMessagePosition :: "string \<Rightarrow> int \<times> int" where
  "parseMessagePosition uri =
     (case index_of uri ''#start='' of
        None \<Rightarrow> (0, 0)
      | Some idx \<Rightarrow>
          (let rest = drop (idx + 7) uri in
           case index_byte rest (CHR '','') of
             None \<Rightarrow> (atoi0 rest, 0)
           | Some i \<Rightarrow> (atoi0 (take i rest), atoi0 (drop (Suc i) rest))))"

definition checkMessage :: "xml \<Rightarrow> syntax_message" where
  "checkMessage m = (case parseMessagePosition (xml_attr m ''uri'') of (line, col) \<Rightarrow>
     \<lparr>sm_type = xml_attr m ''type'', sm_text = xml_attr m ''shortText'', sm_line = line, sm_column = col\<rparr>)"

text \<open>The report of an object: the last one that names its URI; without one the object is clean.\<close>

definition checkReports :: "'w env \<Rightarrow> string \<Rightarrow> xml list" where
  "checkReports E data = (case unmarshal_root E ''checkRunReports'' data of
      Inl _ \<Rightarrow> [] | Inr x \<Rightarrow> kids_named ''checkReport'' x)"

definition objectResult :: "xml list \<Rightarrow> string \<Rightarrow> object_syntax_result" where
  "objectResult reports uri =
     \<lparr>os_uri = uri,
      os_messages = (case find (\<lambda>r. xml_attr r ''triggeringUri'' = uri) (rev reports) of
          None \<Rightarrow> []
        | Some r \<Rightarrow> map checkMessage (kids_path [''checkMessageList'', ''checkMessage''] r)),
      os_error = []\<rparr>"

definition checkChunk :: "'w env \<Rightarrow> string list \<Rightarrow> string \<Rightarrow> ('w cl, object_syntax_result list \<times> err option) state" where
  "checkChunk E uris version =
     State_Monad.bind (checked E (wrapf ''BatchSyntaxCheck: '') (\<lambda>e. e) (doMutate E ''POST'' ''/sap/bc/adt/checkruns''
        (Some (checkBody uris version))
        [(''Content-Type'', ''application/vnd.sap.adt.checkobjects+xml''),
         (''Accept'', ''application/vnd.sap.adt.checkmessages+xml'')])) (\<lambda>r. case r of
       Inl e \<Rightarrow> State_Monad.return (chunkErrorResults uris e, Some e)
     | Inr resp \<Rightarrow>
         (let reports = checkReports E (rs_body resp) in
          State_Monad.return (map (objectResult reports) uris, None)))"

section \<open>The operations\<close>

definition batchCheckChunkSize :: nat where "batchCheckChunkSize = 10"

text \<open>The error a result or a request leaves: \<open>results[0].Error\<close> after the request's own error.\<close>

definition singleResult :: "object_syntax_result list \<times> err option \<Rightarrow> err + syntax_message list" where
  "singleResult p =
     (case snd p of
        Some e \<Rightarrow> Inl (wrapf ''SyntaxCheck: '' e)
      | None \<Rightarrow>
          (let r = hd (fst p) in
           if os_error r \<noteq> [] then Inl (Msg (''SyntaxCheck: '' @ os_error r)) else Inr (os_messages r)))"

definition isFalsePositiveReportMissing :: "syntax_message list \<Rightarrow> bool" where
  "isFalsePositiveReportMissing msgs =
     (case msgs of
        [m] \<Rightarrow>
          sm_type m = ''E'' \<and> sm_line m = 1 \<and> sm_column m = 0
          \<and> (contains_str (sm_text m) ''REPORT'' \<or> contains_str (sm_text m) ''PROGRAM'')
          \<and> (contains_str (sm_text m) ''missing'' \<or> contains_str (sm_text m) ''fehlt'')
      | _ \<Rightarrow> False)"

definition SyntaxCheck :: "'w env \<Rightarrow> string \<Rightarrow> ('w, syntax_message list) go" where
  "SyntaxCheck E uri =
     State_Monad.bind (checkChunk E [uri] ''inactive'') (\<lambda>p.
     tryE (of_sum (singleResult p)) (\<lambda>msgs.
       if \<not> isFalsePositiveReportMissing msgs then ok msgs
       else tryw (wrapf ''SyntaxCheck: object does not exist: '') (GetObjectInfo E uri) (\<lambda>_.
         State_Monad.bind (checkChunk E [uri] ''active'') (\<lambda>p2. of_sum (singleResult p2)))))"

definition request_unauthorized :: "err option \<Rightarrow> bool" where
  "request_unauthorized e = (case e of None \<Rightarrow> False | Some x \<Rightarrow> is_unauthorized x)"

function BatchSyntaxCheck :: "'w env \<Rightarrow> string list \<Rightarrow> ('w cl, object_syntax_result list) state" where
  "BatchSyntaxCheck E uris =
     (if uris = [] then State_Monad.return []
      else
        (let chunk = take batchCheckChunkSize uris; rest = drop batchCheckChunkSize uris in
         State_Monad.bind (checkChunk E chunk ''inactive'') (\<lambda>p.
           case snd p of
             Some e \<Rightarrow>
               if is_unauthorized e then State_Monad.return (fst p @ chunkErrorResults rest e)
               else State_Monad.bind (BatchSyntaxCheck E rest) (\<lambda>rs. State_Monad.return (fst p @ rs))
           | None \<Rightarrow> State_Monad.bind (BatchSyntaxCheck E rest) (\<lambda>rs. State_Monad.return (fst p @ rs)))))"
  by pat_completeness auto
termination
  by (relation "measure (\<lambda>(_, uris). length uris)") (auto simp: batchCheckChunkSize_def)

declare BatchSyntaxCheck.simps [simp del]

section \<open>Results and objects\<close>

lemma checkChunk_shape:
  "yields (\<lambda>p. (\<exists>reports. p = (map (objectResult reports) uris, None)) \<or> (\<exists>e. p = (chunkErrorResults uris e, Some e)))
     (checkChunk E uris version)"
  unfolding checkChunk_def Let_def
  by (auto split: sum.splits intro!: yields_bind_any yields_intro)

lemma objectResult_uri [simp]: "os_uri (objectResult reports uri) = uri"
  by (simp add: objectResult_def)

lemma chunkErrorResults_uris [simp]: "map os_uri (chunkErrorResults uris e) = uris"
  by (simp add: chunkErrorResults_def o_def)

lemma checkChunk_uris: "yields (\<lambda>p. map os_uri (fst p) = uris) (checkChunk E uris version)"
  by (rule yields_weaken [OF checkChunk_shape]) (auto simp: o_def)

lemma BatchSyntaxCheck_uris: "yields (\<lambda>rs. map os_uri rs = uris) (BatchSyntaxCheck E uris)"
proof (induction E uris rule: BatchSyntaxCheck.induct)
  case (1 E uris)
  show ?case
  proof (cases "uris = []")
    case True
    then show ?thesis by (subst BatchSyntaxCheck.simps) (simp add: yields_intro)
  next
    case False
    let ?chunk = "take batchCheckChunkSize uris" and ?rest = "drop batchCheckChunkSize uris"
    have more: "yields (\<lambda>rs. map os_uri rs = uris)
        (State_Monad.bind (BatchSyntaxCheck E ?rest) (\<lambda>rs. State_Monad.return (fst p @ rs)))"
      if "map os_uri (fst p) = ?chunk" for p :: "object_syntax_result list \<times> err option"
    proof (rule yields_bind)
      show "yields (\<lambda>rs. map os_uri rs = ?rest) (BatchSyntaxCheck E ?rest)"
        using 1 False by auto
    qed (auto intro!: yields_intro simp: that)
    show ?thesis
      by (subst BatchSyntaxCheck.simps, simp only: False if_False Let_def, rule yields_bind [OF checkChunk_uris])
        (auto split: option.splits intro!: yields_intro more)
  qed
qed

section \<open>After a rejected credential\<close>

lemma checkChunk_stops: "stops401 (\<lambda>p. request_unauthorized (snd p)) (checkChunk E uris version)"
  unfolding checkChunk_def Let_def
  by (rule stops401_bind [of unauth])
    (auto split: sum.splits intro!: stops doMutate_stops simp: request_unauthorized_def)

text \<open>The objects not checked carry the rejection.\<close>

definition rest_rejected :: "object_syntax_result list \<Rightarrow> bool" where
  "rest_rejected rs \<longleftrightarrow> (\<exists>e k. is_unauthorized e \<and> k < length rs \<and> list_all (\<lambda>r. os_error r = err_text e) (drop k rs))"

lemma rest_rejected_append: "rest_rejected rs \<Longrightarrow> rest_rejected (qs @ rs)"
proof -
  assume "rest_rejected rs"
  then obtain e k where "is_unauthorized e" "k < length rs" "list_all (\<lambda>r. os_error r = err_text e) (drop k rs)"
    by (auto simp: rest_rejected_def)
  then show ?thesis
    unfolding rest_rejected_def by (intro exI [of _ e] exI [of _ "length qs + k"]) simp
qed

lemma errors_rejected: "is_unauthorized e \<Longrightarrow> uris \<noteq> [] \<Longrightarrow> rest_rejected (chunkErrorResults uris e)"
  unfolding rest_rejected_def
  by (intro exI [of _ e] exI [of _ 0]) (simp add: chunkErrorResults_def list_all_iff)

lemma chunkErrorResults_append: "chunkErrorResults us e @ chunkErrorResults vs e = chunkErrorResults (us @ vs) e"
  by (simp add: chunkErrorResults_def)

lemma BatchSyntaxCheck_stops: "stops401 rest_rejected (BatchSyntaxCheck E uris)"
proof (induction E uris rule: BatchSyntaxCheck.induct)
  case (1 E uris)
  show ?case
  proof (cases "uris = []")
    case True
    then show ?thesis by (subst BatchSyntaxCheck.simps) (simp add: stops)
  next
    case False
    let ?chunk = "take batchCheckChunkSize uris" and ?rest = "drop batchCheckChunkSize uris"
    let ?P = "\<lambda>p. request_unauthorized (snd p) \<and> ((\<exists>reports. p = (map (objectResult reports) ?chunk, None))
        \<or> (\<exists>e. p = (chunkErrorResults ?chunk e, Some e)))"
    have more: "stops401 rest_rejected
        (State_Monad.bind (BatchSyntaxCheck E ?rest) (\<lambda>rs. State_Monad.return (qs @ rs)))" for qs
    proof (rule stops401_bind)
      show "stops401 rest_rejected (BatchSyntaxCheck E ?rest)" using 1 False by auto
    qed (auto intro: stops rest_rejected_append)
    have first: "stops401 ?P (checkChunk E ?chunk ''inactive'')"
      by (rule stops401_yields [OF checkChunk_stops checkChunk_shape])
    show ?thesis
    proof (subst BatchSyntaxCheck.simps, simp only: False if_False Let_def, rule stops401_bind [OF first])
      fix p assume "?P p"
      then obtain e where "is_unauthorized e" "p = (chunkErrorResults ?chunk e, Some e)"
        by (auto simp: request_unauthorized_def)
      then show "silent rest_rejected (case snd p of
             Some e \<Rightarrow>
               if is_unauthorized e then State_Monad.return (fst p @ chunkErrorResults ?rest e)
               else State_Monad.bind (BatchSyntaxCheck E ?rest) (\<lambda>rs. State_Monad.return (fst p @ rs))
           | None \<Rightarrow> State_Monad.bind (BatchSyntaxCheck E ?rest) (\<lambda>rs. State_Monad.return (fst p @ rs)))"
        using False by (auto simp: chunkErrorResults_append errors_rejected)
    qed (auto split: option.splits intro!: stops more)
  qed
qed

lemma GetObjectInfo_stops:
  assumes "functionGroupURIOfPart uri = None"
  shows "stops401 unauth (GetObjectInfo E uri)"
proof -
  have part: "partPackage E lookup uri = ok []" for lookup
    using assms by (simp add: partPackage_def)
  have "stops401 unauth (servicePackage E uri info pkg)" for info pkg
    unfolding servicePackage_def by (auto intro!: stops)
  then show ?thesis
    unfolding GetObjectInfo_def objectInfo_def [of E _ uri]
    by (auto intro!: stops readWithAcceptFallback_stops simp: part)
qed

lemma singleResult_401: "request_unauthorized (snd p) \<Longrightarrow> \<exists>e. singleResult p = Inl e \<and> is_unauthorized e"
  by (auto simp: request_unauthorized_def singleResult_def split: option.splits)

lemma checkSingle_stops: "stops401 unauth (State_Monad.bind (checkChunk E uris version) (\<lambda>p. of_sum (singleResult p)))"
  by (rule stops401_bind [OF checkChunk_stops]) (auto intro!: stops dest!: singleResult_401)

lemma SyntaxCheck_stops:
  assumes "functionGroupURIOfPart uri = None"
  shows "stops401 unauth (SyntaxCheck E uri)"
  unfolding SyntaxCheck_def
proof (rule stops401_bind [OF checkChunk_stops])
  fix p :: "object_syntax_result list \<times> err option" assume "request_unauthorized (snd p)"
  then obtain e where "singleResult p = Inl e" "is_unauthorized e" using singleResult_401 by blast
  then show "silent unauth (tryE (of_sum (singleResult p)) (\<lambda>msgs.
       if \<not> isFalsePositiveReportMissing msgs then ok msgs
       else tryw (wrapf ''SyntaxCheck: object does not exist: '') (GetObjectInfo E uri) (\<lambda>_.
         State_Monad.bind (checkChunk E [uri] ''active'') (\<lambda>p2. of_sum (singleResult p2)))))"
    by (auto simp: tryw_def of_sum_def silent_def)
next
  fix p :: "object_syntax_result list \<times> err option"
  show "stops401 unauth (tryE (of_sum (singleResult p)) (\<lambda>msgs.
       if \<not> isFalsePositiveReportMissing msgs then ok msgs
       else tryw (wrapf ''SyntaxCheck: object does not exist: '') (GetObjectInfo E uri) (\<lambda>_.
         State_Monad.bind (checkChunk E [uri] ''active'') (\<lambda>p2. of_sum (singleResult p2)))))"
    by (auto intro!: stops GetObjectInfo_stops assms checkSingle_stops)
qed

section \<open>Positions\<close>

lemma index_of_hash:
  "CHR ''#'' \<notin> set u \<Longrightarrow> has_prefix p q \<Longrightarrow> index_of (u @ CHR ''#'' # p) (CHR ''#'' # q) = Some (length u)"
  by (induction u) (auto simp: has_prefix_def)

lemma digit_no_comma: "list_all is_digit ds \<Longrightarrow> CHR '','' \<notin> set ds"
  by (auto simp: list_all_iff is_digit_def)

lemma itoa_no_comma: "CHR '','' \<notin> set (itoa n)"
  using digit_no_comma [OF digits_all_digit] by (auto simp: itoa_def)

lemma parse_position:
  assumes "CHR ''#'' \<notin> set u" and "- (2 ^ 63) \<le> l" "l < 2 ^ 63" and "- (2 ^ 63) \<le> c" "c < 2 ^ 63"
  shows "parseMessagePosition (u @ ''#start='' @ itoa l @ '','' @ itoa c) = (l, c)"
proof -
  have "index_of (u @ ''#start='' @ itoa l @ '','' @ itoa c) ''#start='' = Some (length u)"
    using index_of_hash [OF assms(1), of "''start='' @ itoa l @ '','' @ itoa c" "''start=''"]
    by (simp add: has_prefix_def)
  moreover have "index_byte (itoa l @ CHR '','' # itoa c) (CHR '','') = Some (length (itoa l))"
    by (rule index_byte_append [OF itoa_no_comma])
  ultimately show ?thesis
    using atoi_itoa [OF assms(2,3)] atoi_itoa [OF assms(4,5)]
    by (simp add: parseMessagePosition_def atoi0_def)
qed

section \<open>Properties\<close>



text \<open>
  C39. The position of a message is read back as it was written, for every pair of 64-bit numbers: the
  fragment \<open>#start=L,C\<close> that \<open>GetCompletions\<close> sends is what \<open>parseMessagePosition\<close> reads.
\<close>

theorem position_roundtrip:
  assumes "CHR ''#'' \<notin> set u" and "- (2 ^ 63) \<le> l" "l < 2 ^ 63" and "- (2 ^ 63) \<le> c" "c < 2 ^ 63"
  shows "parseMessagePosition (u @ ''#start='' @ itoa l @ '','' @ itoa c) = (l, c)"
  by (rule parse_position) (use assms in auto)

theorem position_roundtrip_witness:
  "parseMessagePosition (''/sap/bc/adt/programs/programs/z/source/main'' @ ''#start='' @ itoa 42 @ '','' @ itoa 5) = (42, 5)"
  by (rule position_roundtrip) simp_all

section \<open>Where the code departs from its documentation\<close>

text \<open>The scripted system with the documents its bodies stand for.\<close>

definition with_documents :: "(string \<times> xml) list \<Rightarrow> response list env" where
  "with_documents docs = scripted\<lparr>unmarshal_xml := (\<lambda>data. case map_of docs data of
     None \<Rightarrow> Inl (Msg ''EOF'') | Some x \<Rightarrow> Inr x)\<rparr>"

definition fm_uri :: string where "fm_uri = ''/sap/bc/adt/functions/groups/zg/fmodules/zf''"

definition report_missing :: xml where
  "report_missing = Elem ''checkRunReports'' [] [] [Elem ''checkReport'' [] [(''triggeringUri'', [], fm_uri)]
     [Elem ''checkMessageList'' [] [] [Elem ''checkMessage'' []
        [(''uri'', [], ''/source/main#start=1,0''), (''type'', [], ''E''),
         (''shortText'', [], ''REPORT/PROGRAM statement is missing'')] []]]]"

definition module_document :: xml where
  "module_document = Elem ''abapFunctionModule'' [] [(''name'', nsADTCore, ''ZF'')] []"

text \<open>
  The lookup of a function module's group is best effort and keeps a 401 to itself, so
  \<open>SyntaxCheck\<close> sends the rejected credential again with the check of the active version.
\<close>

theorem SyntaxCheck_continues_after_401:
  "rejections (snd (run_state (SyntaxCheck (with_documents [(''report'', report_missing), (''doc'', module_document)]) fm_uri)
     (with_token (new_client [answer 200 ''report'', answer 200 ''doc'', answer 401 [], answer 401 []])))) = 2"
  by code_simp

end
