(* ===== verification/Answers.thy ===== *)
theory Answers
  imports Client
begin

text \<open>
  Whose answer a response is: a read or write of the client returns SAP's answer to the last request
  it sent, and that request is the one asked for (not a preflight). From it follows that an operation
  which reports success has had its request carried out.
\<close>

named_theorems lasts "operations that return the answer to their last request"

definition resp_of :: "err + response \<Rightarrow> response option" where
  "resp_of r = (case r of Inl _ \<Rightarrow> None | Inr resp \<Rightarrow> Some resp)"

lemma resp_of_simps [simp]: "resp_of (Inl e) = None" "resp_of (Inr x) = Some x"
  by (simp_all add: resp_of_def)

text \<open>
  \<open>last_from P g x m\<close>: a response that \<open>m\<close> returns (read off its result by \<open>g\<close>) is the answer to the
  last request \<open>m\<close> sent, which satisfies \<open>P\<close>; or \<open>m\<close> sent nothing and passes \<open>x\<close> on.
\<close>

definition last_from :: "(request \<Rightarrow> bool) \<Rightarrow> ('r \<Rightarrow> response option) \<Rightarrow> response option
    \<Rightarrow> ('w cl, 'r) state \<Rightarrow> bool" where
  "last_from P g x m \<longleftrightarrow> (\<forall>s r s'. run_state m s = (r, s') \<longrightarrow>
     (\<exists>es. wire s' = es @ wire s \<and> (\<forall>resp. g r = Some resp \<longrightarrow>
        (es = [] \<and> x = Some resp) \<or> (\<exists>rq rest. es = (rq, Inr resp) # rest \<and> P rq))))"

lemma last_fromI:
  "(\<And>s r s'. run_state m s = (r, s') \<Longrightarrow> \<exists>es. wire s' = es @ wire s \<and> (\<forall>resp. g r = Some resp \<longrightarrow>
        (es = [] \<and> x = Some resp) \<or> (\<exists>rq rest. es = (rq, Inr resp) # rest \<and> P rq))) \<Longrightarrow> last_from P g x m"
  by (simp add: last_from_def)

lemma last_fromE:
  assumes "last_from P g x m" and "run_state m s = (r, s')"
  obtains es where "wire s' = es @ wire s"
    "\<And>resp. g r = Some resp \<Longrightarrow> (es = [] \<and> x = Some resp) \<or> (\<exists>rq rest. es = (rq, Inr resp) # rest \<and> P rq)"
  using assms(1) [unfolded last_from_def, rule_format, OF assms(2)] that by blast

lemma last_silent:
  assumes "\<And>s r s'. run_state m s = (r, s') \<Longrightarrow> wire s' = wire s \<and> (g r = None \<or> g r = x)"
  shows "last_from P g x m"
  by (rule last_fromI) (use assms in fastforce)

lemma last_emits:
  assumes "emits (\<lambda>_. True) m"
  shows "last_from P (\<lambda>_. None) x m"
  by (rule last_fromI) (use assms in \<open>auto elim: emitsE\<close>)

lemma last_return [lasts]:
  "g r = None \<or> g r = x \<Longrightarrow> last_from P g x (State_Monad.return r)"
  by (rule last_silent) auto

lemma last_pure [lasts]:
  "last_from P resp_of (Some y) (ok y)" "last_from P resp_of x (fail e)"
  by (rule last_silent, simp)+

lemma last_of_sum [lasts]: "last_from P resp_of (resp_of r) (of_sum r)"
  by (rule last_silent) simp

lemma last_send [lasts]: "P rq \<Longrightarrow> last_from P resp_of x (http_send E rq)"
proof (rule last_fromI)
  fix s r s' assume "P rq" "run_state (http_send E rq) s = (r, s')"
  then have "wire s' = [(rq, r)] @ wire s" by (auto simp: run_http_send)
  moreover have "\<forall>resp. resp_of r = Some resp \<longrightarrow> (\<exists>rest. [(rq, r)] = (rq, Inr resp) # rest)"
    by (cases r) auto
  ultimately show "\<exists>es. wire s' = es @ wire s \<and> (\<forall>resp. resp_of r = Some resp \<longrightarrow>
        (es = [] \<and> x = Some resp) \<or> (\<exists>rq rest. es = (rq, Inr resp) # rest \<and> P rq))"
    using \<open>P rq\<close> by metis
qed

lemma last_bind:
  assumes m: "last_from P f x m" and k: "\<And>r. last_from P g (f r) (k r)"
  shows "last_from P g x (State_Monad.bind m k)"
proof (rule last_fromI)
  fix s r s' assume run: "run_state (State_Monad.bind m k) s = (r, s')"
  obtain r1 s1 where r1: "run_state m s = (r1, s1)" by fastforce
  with run have r2: "run_state (k r1) s1 = (r, s')" by simp
  from m r1 obtain es where es: "wire s1 = es @ wire s"
    "\<And>resp. f r1 = Some resp \<Longrightarrow> (es = [] \<and> x = Some resp) \<or> (\<exists>rq rest. es = (rq, Inr resp) # rest \<and> P rq)"
    by (rule last_fromE) blast
  from k r2 obtain fs where fs: "wire s' = fs @ wire s1"
    "\<And>resp. g r = Some resp \<Longrightarrow> (fs = [] \<and> f r1 = Some resp) \<or> (\<exists>rq rest. fs = (rq, Inr resp) # rest \<and> P rq)"
    by (rule last_fromE) blast
  have "(fs @ es = [] \<and> x = Some resp) \<or> (\<exists>rq rest. fs @ es = (rq, Inr resp) # rest \<and> P rq)"
    if "g r = Some resp" for resp
    using fs(2) [OF that] es(2) [of resp] by fastforce
  with es fs show "\<exists>es. wire s' = es @ wire s \<and> (\<forall>resp. g r = Some resp \<longrightarrow>
        (es = [] \<and> x = Some resp) \<or> (\<exists>rq rest. es = (rq, Inr resp) # rest \<and> P rq))"
    by (intro exI [of _ "fs @ es"]) simp
qed

lemma last_after:
  assumes "emits (\<lambda>_. True) m" and "\<And>r. last_from P g None (k r)"
  shows "last_from P g x (State_Monad.bind m k)"
  by (rule last_bind [OF last_emits [OF assms(1)]]) (rule assms(2))

lemma last_after_tryw:
  assumes "emits (\<lambda>_. True) m" and "\<And>y. last_from P resp_of None (k y)"
  shows "last_from P resp_of x (tryw w m k)"
  unfolding tryw_def
  by (rule last_after [OF assms(1)]) (auto split: sum.splits intro: lasts assms(2))

lemma last_gets [lasts]:
  assumes "\<And>y. last_from P g x (k y)"
  shows "last_from P g x (State_Monad.bind (gets f) k)"
proof (rule last_fromI)
  fix s r s' assume "run_state (State_Monad.bind (gets f) k) s = (r, s')"
  then have "run_state (k (f s)) s = (r, s')" by simp
  with assms show "\<exists>es. wire s' = es @ wire s \<and> (\<forall>resp. g r = Some resp \<longrightarrow>
        (es = [] \<and> x = Some resp) \<or> (\<exists>rq rest. es = (rq, Inr resp) # rest \<and> P rq))"
    by (rule last_fromE) blast
qed

lemma last_if [lasts]:
  "(b \<Longrightarrow> last_from P g x m) \<Longrightarrow> (\<not> b \<Longrightarrow> last_from P g x n) \<Longrightarrow> last_from P g x (if b then m else n)"
  by simp

section \<open>The client's requests\<close>

lemma fetch_emits: "emits (\<lambda>_. True) (fetchCSRFToken E)"
  by (rule fetchCSRFToken_sends) (simp add: accepts_preflight_def)

lemma ensure_emits: "emits (\<lambda>_. True) (ensureCSRF E)"
  by (rule ensureCSRF_sends) (simp add: accepts_preflight_def)

definition is_request :: "string \<Rightarrow> string \<Rightarrow> string option \<Rightarrow> request \<Rightarrow> bool" where
  "is_request meth path body rq \<longleftrightarrow> rq_method rq = meth \<and> rq_path rq = path \<and> rq_body rq = body"

lemma sendGet_last: "last_from (is_request ''GET'' path None) (\<lambda>p. resp_of (snd p)) x (sendGet E long path headers)"
  unfolding sendGet_def
  by (auto split: option.splits sum.splits prod.splits intro!: lasts last_bind [OF last_send] simp: is_request_def)

lemma execMutateWith_last:
  "last_from (is_request meth path body) (\<lambda>p. resp_of (snd p)) x (execMutateWith E long meth path body headers csrf)"
  unfolding execMutateWith_def
  by (auto split: option.splits sum.splits prod.splits intro!: lasts last_bind [OF last_send] simp: is_request_def)

lemma retryMutate_last:
  "last_from (is_request meth path body) resp_of x (retryMutate E long meth path body headers)"
  unfolding retryMutate_def
  by (rule last_after [OF fetch_emits])
    (auto split: option.splits sum.splits prod.splits intro!: lasts last_bind [OF execMutateWith_last])

lemma doMutateWith_last:
  "last_from (is_request meth (encoded_path path) body) resp_of None (doMutateWith E long meth path body headers)"
  unfolding doMutateWith_def Let_def
  by (rule last_after_tryw [OF ensure_emits])
    (auto split: option.splits sum.splits prod.splits
      intro!: lasts last_bind [OF execMutateWith_last] last_after_tryw [OF refreshAfter401_sends] retryMutate_last)

lemma doReadWith_last:
  "last_from (is_request ''GET'' (encoded_path path) None) resp_of None (doReadWith E long path headers)"
  unfolding doReadWith_def Let_def
  by (rule last_after_tryw [OF ensure_emits])
    (auto split: option.splits sum.splits prod.splits
      intro!: lasts last_bind [OF sendGet_last] last_after_tryw [OF refreshAfter401_sends] last_after [OF fetch_emits])

lemma checked_last: "last_from P resp_of None m \<Longrightarrow> last_from P resp_of None (checked E w v m)"
  unfolding checked_def tryw_def
  by (rule last_bind, assumption) (auto split: sum.splits option.splits intro!: lasts)

section \<open>Success\<close>

text \<open>\<open>does Q m\<close>: when \<open>m\<close> reports success, SAP carried out a request that satisfies \<open>Q\<close>.\<close>

definition performed :: "(request \<Rightarrow> bool) \<Rightarrow> (request \<times> (err + response)) list \<Rightarrow> bool" where
  "performed Q es \<longleftrightarrow> list_ex (\<lambda>ev. Q (fst ev) \<and> took_effect ev) es"

lemma performed_append [simp]: "performed Q (es @ fs) \<longleftrightarrow> performed Q es \<or> performed Q fs"
  by (simp add: performed_def)

definition does :: "(request \<Rightarrow> bool) \<Rightarrow> ('w cl, err + 'a) state \<Rightarrow> bool" where
  "does Q m \<longleftrightarrow> (\<forall>s r s'. run_state m s = (r, s') \<longrightarrow>
     (\<exists>es. wire s' = es @ wire s \<and> (\<forall>x. r = Inr x \<longrightarrow> performed Q es)))"

lemma doesI:
  "(\<And>s r s'. run_state m s = (r, s') \<Longrightarrow> \<exists>es. wire s' = es @ wire s \<and> (\<forall>x. r = Inr x \<longrightarrow> performed Q es)) \<Longrightarrow> does Q m"
  by (simp add: does_def)

lemma doesE:
  assumes "does Q m" and "run_state m s = (r, s')"
  obtains es where "wire s' = es @ wire s" "\<And>x. r = Inr x \<Longrightarrow> performed Q es"
  using assms(1) [unfolded does_def, rule_format, OF assms(2)] that by blast

lemma does_run:
  assumes "does Q m"
  shows "\<exists>es. wire (snd (run_state m s)) = es @ wire s \<and> (\<forall>x. fst (run_state m s) = Inr x \<longrightarrow> performed Q es)"
  using assms [unfolded does_def, rule_format, OF surjective_pairing] .

lemma does_fail: "does Q (fail e)"
  by (rule doesI) simp

lemma does_after:
  assumes "emits (\<lambda>_. True) m" and "\<And>r. does Q (k r)"
  shows "does Q (State_Monad.bind m k)"
proof (rule doesI)
  fix s r s' assume run: "run_state (State_Monad.bind m k) s = (r, s')"
  obtain r1 s1 where r1: "run_state m s = (r1, s1)" by fastforce
  with run have r2: "run_state (k r1) s1 = (r, s')" by simp
  from assms(1) r1 obtain es where es: "wire s1 = es @ wire s" by (rule emitsE)
  from assms(2) r2 obtain fs where "wire s' = fs @ wire s1" "\<And>x. r = Inr x \<Longrightarrow> performed Q fs" by (rule doesE) blast
  with es show "\<exists>es. wire s' = es @ wire s \<and> (\<forall>x. r = Inr x \<longrightarrow> performed Q es)"
    by (intro exI [of _ "fs @ es"]) simp
qed

lemma does_after_tryw:
  assumes "emits (\<lambda>_. True) m" and "\<And>x. does Q (k x)"
  shows "does Q (tryw w m k)"
  unfolding tryw_def
  by (rule does_after [OF assms(1)]) (auto split: sum.splits intro: does_fail assms(2))

lemma does_tryw:
  assumes "does Q m" and "\<And>x. emits (\<lambda>_. True) (k x)"
  shows "does Q (tryw w m k)"
proof (rule doesI)
  fix s r s' assume run: "run_state (tryw w m k) s = (r, s')"
  obtain r1 s1 where r1: "run_state m s = (r1, s1)" by fastforce
  from assms(1) r1 obtain es where es: "wire s1 = es @ wire s" "\<And>x. r1 = Inr x \<Longrightarrow> performed Q es" by (rule doesE) blast
  show "\<exists>es. wire s' = es @ wire s \<and> (\<forall>x. r = Inr x \<longrightarrow> performed Q es)"
  proof (cases r1)
    case (Inl e)
    with run r1 es show ?thesis by (auto simp: run_tryw)
  next
    case (Inr x)
    with run r1 have "run_state (k x) s1 = (r, s')" by (simp add: run_tryw)
    with assms(2) obtain fs where "wire s' = fs @ wire s1" by (rule emitsE)
    with es Inr show ?thesis by (intro exI [of _ "fs @ es"]) simp
  qed
qed

lemma does_checked:
  assumes "last_from P resp_of None m" and "\<And>rq. P rq \<Longrightarrow> Q rq \<and> rq_method rq \<noteq> ''GET''"
  shows "does Q (checked E w v m)"
proof (rule doesI)
  fix s r s' assume run: "run_state (checked E w v m) s = (r, s')"
  from checked_last [OF assms(1)] run obtain es where es: "wire s' = es @ wire s"
    "\<And>resp. resp_of r = Some resp \<Longrightarrow> (\<exists>rq rest. es = (rq, Inr resp) # rest \<and> P rq)"
    by (rule last_fromE) blast
  have "performed Q es" if r: "r = Inr resp" for resp
  proof -
    from r run have "checkResponse E resp = None"
      by (auto simp: checked_def run_tryw split: prod.splits sum.splits option.splits)
    then have "rs_status resp < 400" by (auto simp: checkResponse_def split: if_splits)
    with es(2) [of resp] r assms(2) show ?thesis by (auto simp: performed_def took_effect_def)
  qed
  with es show "\<exists>es. wire s' = es @ wire s \<and> (\<forall>x. r = Inr x \<longrightarrow> performed Q es)" by blast
qed

lemma does_mutate:
  assumes "meth \<noteq> ''GET''"
  shows "does (\<lambda>rq. rq_method rq = meth \<and> rq_path rq = encoded_path path \<and> rq_body rq = body)
    (checked E w v (doMutate E meth path body headers))"
  unfolding doMutate_def
  by (rule does_checked [OF doMutateWith_last]) (use assms in \<open>simp add: is_request_def\<close>)


section \<open>What a run leaves on the wire\<close>

text \<open>
  \<open>traces P m\<close>: the result of a run of \<open>m\<close> and the exchanges it added to the wire, newest first,
  satisfy \<open>P\<close>. The rule for \<open>bind\<close> hands what the first part left to the second.
\<close>

definition traces :: "('r \<Rightarrow> (request \<times> (err + response)) list \<Rightarrow> bool) \<Rightarrow> ('w cl, 'r) state \<Rightarrow> bool" where
  "traces P m \<longleftrightarrow> (\<forall>s r s'. run_state m s = (r, s') \<longrightarrow> (\<exists>es. wire s' = es @ wire s \<and> P r es))"

lemma tracesI:
  "(\<And>s r s'. run_state m s = (r, s') \<Longrightarrow> \<exists>es. wire s' = es @ wire s \<and> P r es) \<Longrightarrow> traces P m"
  by (simp add: traces_def)

lemma tracesE:
  assumes "traces P m" and "run_state m s = (r, s')"
  obtains es where "wire s' = es @ wire s" "P r es"
  using assms(1) [unfolded traces_def, rule_format, OF assms(2)] that by blast

lemma traces_run:
  assumes "traces P m"
  shows "\<exists>es. wire (snd (run_state m s)) = es @ wire s \<and> P (fst (run_state m s)) es"
  using assms [unfolded traces_def, rule_format, OF surjective_pairing] .

lemma traces_weaken:
  assumes "traces P m" and "\<And>r es. P r es \<Longrightarrow> Q r es"
  shows "traces Q m"
proof (rule tracesI)
  fix s r s' assume "run_state m s = (r, s')"
  with assms(1) obtain es where "wire s' = es @ wire s" "P r es" by (rule tracesE)
  with assms(2) show "\<exists>es. wire s' = es @ wire s \<and> Q r es" by blast
qed

lemma traces_pure:
  "P r [] \<Longrightarrow> traces P (State_Monad.return r)"
  "P (Inr x) [] \<Longrightarrow> traces P (ok x)"
  "P (Inl e) [] \<Longrightarrow> traces P (fail e)"
  "P z [] \<Longrightarrow> traces P (of_sum z)"
  by (rule tracesI, simp)+

lemma traces_bind:
  assumes m: "traces P m" and k: "\<And>r es. P r es \<Longrightarrow> traces (\<lambda>r' fs. Q r' (fs @ es)) (k r)"
  shows "traces Q (State_Monad.bind m k)"
proof (rule tracesI)
  fix s r s' assume run: "run_state (State_Monad.bind m k) s = (r, s')"
  obtain r1 s1 where r1: "run_state m s = (r1, s1)" by fastforce
  with run have r2: "run_state (k r1) s1 = (r, s')" by simp
  from m r1 obtain es where es: "wire s1 = es @ wire s" "P r1 es" by (rule tracesE)
  from k [OF es(2)] r2 obtain fs where "wire s' = fs @ wire s1" "Q r (fs @ es)" by (rule tracesE)
  with es show "\<exists>es. wire s' = es @ wire s \<and> Q r es" by (intro exI [of _ "fs @ es"]) simp
qed

lemma traces_tryw:
  assumes "traces P m" and "\<And>x es. P (Inr x) es \<Longrightarrow> traces (\<lambda>r' fs. Q r' (fs @ es)) (k x)"
    and "\<And>e es. P (Inl e) es \<Longrightarrow> Q (Inl (w e)) es"
  shows "traces Q (tryw w m k)"
  unfolding tryw_def
  by (rule traces_bind [OF assms(1)]) (use assms(2,3) in \<open>auto split: sum.splits intro: traces_pure\<close>)

lemma traces_emits:
  assumes "emits P m"
  shows "traces (\<lambda>_ es. list_all (\<lambda>ev. P (fst ev)) es) m"
  by (rule tracesI) (use assms in \<open>auto elim: emitsE\<close>)

lemma traces_both:
  assumes "traces P m" and "traces Q m"
  shows "traces (\<lambda>r es. P r es \<and> Q r es) m"
proof (rule tracesI)
  fix s r s' assume run: "run_state m s = (r, s')"
  from assms(1) run obtain es where es: "wire s' = es @ wire s" "P r es" by (rule tracesE)
  from assms(2) run obtain fs where fs: "wire s' = fs @ wire s" "Q r fs" by (rule tracesE)
  from es fs have "fs = es" by simp
  with es fs show "\<exists>es. wire s' = es @ wire s \<and> P r es \<and> Q r es" by blast
qed

lemma traces_modify:
  assumes "\<And>s. wire (f s) = wire s" and "traces Q (k ())"
  shows "traces Q (State_Monad.bind (modify f) k)"
proof (rule tracesI)
  fix s r s' assume "run_state (State_Monad.bind (modify f) k) s = (r, s')"
  then have "run_state (k ()) (f s) = (r, s')" by simp
  with assms(2) obtain es where "wire s' = es @ wire (f s)" "Q r es" by (rule tracesE)
  with assms(1) show "\<exists>es. wire s' = es @ wire s \<and> Q r es" by auto
qed

lemma traces_gets:
  assumes "\<And>y. traces Q (k y)"
  shows "traces Q (State_Monad.bind (gets f) k)"
proof (rule tracesI)
  fix s r s' assume "run_state (State_Monad.bind (gets f) k) s = (r, s')"
  then have "run_state (k (f s)) s = (r, s')" by simp
  with assms obtain es where "wire s' = es @ wire s" "Q r es" by (rule tracesE)
  then show "\<exists>es. wire s' = es @ wire s \<and> Q r es" by blast
qed

text \<open>A checked read or write that succeeds ends with SAP's answer to it, of a status below 400.\<close>

definition answered :: "string \<Rightarrow> string \<Rightarrow> string option \<Rightarrow> err + response
    \<Rightarrow> (request \<times> (err + response)) list \<Rightarrow> bool" where
  "answered meth path body r es \<longleftrightarrow> (\<forall>resp. r = Inr resp \<longrightarrow> rs_status resp < 400 \<and>
     (\<exists>rq rest. es = (rq, Inr resp) # rest \<and> is_request meth (encoded_path path) body rq))"

lemma traces_checked:
  assumes "last_from (is_request meth (encoded_path path) body) resp_of None m"
  shows "traces (answered meth path body) (checked E w v m)"
proof (rule tracesI)
  fix s r s' assume run: "run_state (checked E w v m) s = (r, s')"
  from checked_last [OF assms] run obtain es where es: "wire s' = es @ wire s"
    "\<And>resp. resp_of r = Some resp \<Longrightarrow>
       (\<exists>rq rest. es = (rq, Inr resp) # rest \<and> is_request meth (encoded_path path) body rq)"
    by (rule last_fromE) blast
  have "rs_status resp < 400" if "r = Inr resp" for resp
  proof -
    from that run have "checkResponse E resp = None"
      by (auto simp: checked_def run_tryw split: prod.splits sum.splits option.splits)
    then show ?thesis by (auto simp: checkResponse_def split: if_splits)
  qed
  with es show "\<exists>es. wire s' = es @ wire s \<and> answered meth path body r es"
    by (auto simp: answered_def)
qed

lemma traces_read: "traces (answered ''GET'' path None) (checked E w v (doRead E path headers))"
  unfolding doRead_def by (rule traces_checked [OF doReadWith_last])

lemma traces_write: "traces (answered meth path body) (checked E w v (doMutate E meth path body headers))"
  unfolding doMutate_def by (rule traces_checked [OF doMutateWith_last])

section \<open>A system that answers everything\<close>

text \<open>For examples: every request is answered with status 200 and the body \<open>g\<close> gives it.\<close>

definition answering :: "(request \<Rightarrow> string) \<Rightarrow> (string \<Rightarrow> err + xml) \<Rightarrow> unit env" where
  "answering g x = \<lparr>cfg_host = ''http://sap'', cfg_client = ''100'', cfg_user = ''DEVELOPER'',
     cfg_password = ''secret'', cfg_language = ''EN'', send = (\<lambda>rq w. (Inr (answer 200 (g rq)), w)),
     url_err = (\<lambda>_. None), refresh_cb = None, unmarshal_xml = x, ctx_err = (\<lambda>_. None)\<rparr>"

lemma answering_simps [simp]:
  "url_err (answering g x) u = None" "refresh_cb (answering g x) = None" "unmarshal_xml (answering g x) = x"
  "send (answering g x) rq w = (Inr (answer 200 (g rq)), w)"
  by (simp_all add: answering_def)

lemma answering_auth: "\<exists>cred sent. setAuth (answering g x) t = Inr (cred, logon_headers (answering g x), sent)"
proof -
  have "checkResolved ''user'' (cfg_user (answering g x)) = None"
    "checkResolved ''password'' (cfg_password (answering g x)) = None"
    unfolding answering_def by code_simp+
  then show ?thesis by (simp add: setAuth_def)
qed

lemma answering_auth_not [simp]: "setAuth (answering g x) t \<noteq> Inl e"
  using answering_auth [of g x t] by auto

lemma answering_send: "yields (\<lambda>r. r = Inr (answer 200 (g rq))) (http_send (answering g x) rq)"
  by (simp add: yields_def run_http_send)

lemma answering_fetch: "yields (\<lambda>p. snd p = None) (fetchCSRFToken (answering g x))"
  unfolding fetchCSRFToken_def
  by (auto simp: answer_def split: sum.splits prod.splits intro!: yields_intro yields_bind [OF answering_send])

lemma answering_ensure: "yields (\<lambda>r. r = Inr ()) (ensureCSRF (answering g x))"
  unfolding ensureCSRF_def
  by (auto split: prod.splits option.splits intro!: yields_intro yields_bind [OF answering_fetch])

definition answered_by :: "(request \<Rightarrow> string) \<Rightarrow> string \<Rightarrow> string \<Rightarrow> string option \<Rightarrow> err + response \<Rightarrow> bool" where
  "answered_by g meth path body r \<longleftrightarrow> (\<exists>rq. r = Inr (answer 200 (g rq)) \<and> is_request meth path body rq)"

lemma answered_byI: "is_request meth path body rq \<Longrightarrow> answered_by g meth path body (Inr (answer 200 (g rq)))"
  by (auto simp: answered_by_def)

lemma answering_exec:
  "yields (\<lambda>p. answered_by g meth path body (snd p)) (execMutateWith (answering g x) long meth path body headers csrf)"
  unfolding execMutateWith_def
  by (auto split: sum.splits prod.splits
      intro!: answered_byI yields_intro yields_bind [OF answering_send] simp: is_request_def)

lemma answering_get:
  "yields (\<lambda>p. answered_by g ''GET'' path None (snd p)) (sendGet (answering g x) long path headers)"
  unfolding sendGet_def
  by (auto split: sum.splits prod.splits
      intro!: answered_byI yields_intro yields_bind [OF answering_send] simp: is_request_def)

lemma answered_by_status: "answered_by g meth path body (Inr resp) \<Longrightarrow> rs_status resp = 200"
  by (auto simp: answered_by_def answer_def)

lemma answered_not_refused:
  "answered_by g meth path body (Inr resp) \<Longrightarrow> rs_status resp = 401 \<Longrightarrow> False"
  "answered_by g meth path body (Inr resp) \<Longrightarrow> rs_status resp = 403 \<Longrightarrow> False"
  "answered_by g meth path body (Inr resp) \<Longrightarrow> rs_status resp \<ge> 400 \<Longrightarrow> False"
  by (auto dest: answered_by_status)

lemma answered_by_ok: "\<not> answered_by g meth path body (Inl e)"
  by (simp add: answered_by_def)

lemma answering_mutate:
  "yields (answered_by g meth (encoded_path path) body) (doMutateWith (answering g x) long meth path body headers)"
  unfolding doMutateWith_def Let_def tryw_def
  by (rule yields_bind [OF answering_ensure])
    (auto split: sum.splits prod.splits dest: answered_not_refused simp: answered_by_ok
      intro!: yields_intro yields_bind [OF answering_exec])

lemma answering_read:
  "yields (answered_by g ''GET'' (encoded_path path) None) (doReadWith (answering g x) long path headers)"
  unfolding doReadWith_def Let_def tryw_def
  by (rule yields_bind [OF answering_ensure])
    (auto split: sum.splits prod.splits dest: answered_not_refused simp: answered_by_ok
      intro!: yields_intro yields_bind [OF answering_get])

lemma answering_checked:
  assumes "yields (answered_by g meth path body) m"
  shows "yields (answered_by g meth path body) (checked (answering g x) w v m)"
  unfolding checked_def tryw_def
  by (rule yields_bind [OF assms])
    (auto split: sum.splits option.splits dest: answered_not_refused simp: answered_by_ok checkResponse_def split: if_splits
      intro!: yields_intro)

end
