(* ===== verification/Verify.thy ===== *)
theory Verify
  imports SyntaxCheck Answers
begin

text \<open>
  \<open>VerifySource\<close> (\<open>adt/verify.go\<close>): a throw-away program in \<open>$TMP\<close> is created, filled, checked and
  deleted again. The random number of its name is an argument; the cleanup runs under a context of
  its own, so it has an environment of its own (\<open>Ec\<close>). The deferred cleanup reads the error the
  function is about to return and replaces it.
\<close>

definition sixDigits :: "nat \<Rightarrow> string" where
  "sixDigits n = (let d = digits n in replicate (6 - length d) (CHR ''0'') @ d)"

definition verifyName :: "nat \<Rightarrow> string" where
  "verifyName n = ''Z_ADTLER_VERIFY_'' @ sixDigits n"

definition verifyURI :: "nat \<Rightarrow> string" where
  "verifyURI n = ''/sap/bc/adt/programs/programs/'' @ to_lower (verifyName n)"

definition leakError :: "string \<Rightarrow> err \<Rightarrow> err" where
  "leakError prog e = VerifyCleanupError (''VerifySource: temporary program '' @ prog @ '' could not be removed from $TMP: '') e"

definition releaseLock :: "'w env \<Rightarrow> string \<Rightarrow> string \<Rightarrow> ('w cl, err option \<times> string) state" where
  "releaseLock E uri h = State_Monad.bind (UnlockObject E uri h) (\<lambda>r. State_Monad.return (case r of
      Inl e \<Rightarrow> (Some e, h)
    | Inr _ \<Rightarrow> (None, [])))"

text \<open>The steps between create and cleanup: their outcome, and the lock still held.\<close>

definition giveUp :: "'w env \<Rightarrow> string \<Rightarrow> string \<Rightarrow> (err \<Rightarrow> err) \<Rightarrow> err
    \<Rightarrow> ('w cl, (err + syntax_message list) \<times> string) state" where
  "giveUp E uri h w e =
     (if is_unauthorized e then State_Monad.return (Inl (w e), h)
      else State_Monad.bind (releaseLock E uri h) (\<lambda>p. State_Monad.return (Inl (w e), snd p)))"

definition verifySteps :: "'w env \<Rightarrow> string \<Rightarrow> string
    \<Rightarrow> ('w cl, (err + syntax_message list) \<times> string) state" where
  "verifySteps E uri source =
     State_Monad.bind (LockObject E uri) (\<lambda>rl. case rl of
       Inl e \<Rightarrow> State_Monad.return (Inl (wrapf ''VerifySource: lock: '' e), [])
     | Inr h \<Rightarrow> State_Monad.bind (GetSource E uri) (\<lambda>rg. case rg of
         Inl e \<Rightarrow> giveUp E uri h (wrapf ''VerifySource: get source for etag: '') e
       | Inr src \<Rightarrow> State_Monad.bind (SetSource E uri source h [] (sr_etag src)) (\<lambda>rs. case rs of
           Inl e \<Rightarrow> giveUp E uri h (wrapf ''VerifySource: set source: '') e
         | Inr _ \<Rightarrow> State_Monad.bind (releaseLock E uri h) (\<lambda>p.
             if request_unauthorized (fst p) then
               State_Monad.return (Inl (wrapf ''VerifySource: unlock: '' (the (fst p))), snd p)
             else State_Monad.bind (SyntaxCheck E uri) (\<lambda>rc. State_Monad.return (case rc of
                 Inl e \<Rightarrow> (Inl (wrapf ''VerifySource: syntax check: '' e), snd p)
               | Inr msgs \<Rightarrow> (Inr msgs, snd p)))))))"

definition removeProgram :: "'w env \<Rightarrow> string \<Rightarrow> string \<Rightarrow> err option \<Rightarrow> ('w, unit) go" where
  "removeProgram Ec uri held e =
     (if request_unauthorized e then fail (Sentinel ErrVerifyCleanupSkipped)
      else DeleteObject Ec uri held [])"

definition additionally :: "err \<Rightarrow> err \<Rightarrow> err" where
  "additionally e leak = Wrap2 [] e ''; additionally: '' leak"

record verify_result =
  vr_valid :: bool
  vr_messages :: "syntax_message list"
  vr_error :: "err option"

definition notVerified :: "err \<Rightarrow> verify_result" where
  "notVerified e = \<lparr>vr_valid = False, vr_messages = [], vr_error = Some e\<rparr>"

definition verified :: "syntax_message list \<Rightarrow> verify_result" where
  "verified msgs = \<lparr>vr_valid = list_all (\<lambda>m. sm_type m \<noteq> ''E'') msgs, vr_messages = msgs, vr_error = None\<rparr>"

text \<open>What the deferred function makes of the result and of the removal.\<close>

definition addLeak :: "string \<Rightarrow> verify_result \<Rightarrow> err + unit \<Rightarrow> verify_result" where
  "addLeak prog res del =
     (case del of
        Inr _ \<Rightarrow> res
      | Inl e \<Rightarrow> res\<lparr>vr_error := Some (case vr_error res of
            None \<Rightarrow> leakError prog e
          | Some e0 \<Rightarrow> additionally e0 (leakError prog e))\<rparr>)"

definition verifyCreated :: "'w env \<Rightarrow> 'w env \<Rightarrow> nat \<Rightarrow> string \<Rightarrow> ('w cl, verify_result) state" where
  "verifyCreated E Ec n source =
     State_Monad.bind (verifySteps E (verifyURI n) source) (\<lambda>p.
       (let res = (case fst p of Inl e \<Rightarrow> notVerified e | Inr msgs \<Rightarrow> verified msgs) in
        State_Monad.bind (removeProgram Ec (verifyURI n) (snd p) (vr_error res)) (\<lambda>del.
          State_Monad.return (addLeak (verifyName n) res del))))"

definition VerifySource :: "'w env \<Rightarrow> 'w env \<Rightarrow> nat \<Rightarrow> string \<Rightarrow> ('w cl, verify_result) state" where
  "VerifySource E Ec n source =
     State_Monad.bind (CreateObject E ''PROG'' (verifyName n) ''$TMP'' ''adtler VerifySource temp'' []) (\<lambda>rc.
       case rc of
         Inl e \<Rightarrow>
           (let e1 = wrapf ''VerifySource: create temp object: '' e in
            State_Monad.return (notVerified
              (if is_sentinel ErrObjectCreated e1 then
                 additionally e1 (leakError (verifyName n) (Sentinel ErrVerifyCleanupSkipped))
               else e1)))
       | Inr _ \<Rightarrow> verifyCreated E Ec n source)"

text \<open>\<open>ObjectURI("PROG", name)\<close> gives the URI and cannot fail.\<close>

lemma verifyURI_is_ObjectURI: "ObjectURI ''PROG'' (verifyName n) = Inr (verifyURI n)"
  by (simp add: ObjectURI_def verifyURI_def objectTypeMap_def to_upper_def upper_char_def is_lower_def)

section \<open>No program is left behind silently\<close>

text \<open>\<open>errors.As(err, &VerifyCleanupError)\<close>.\<close>

fun names_leak :: "err \<Rightarrow> bool" where
  "names_leak (VerifyCleanupError _ _) = True"
| "names_leak (Wrap _ e _) = names_leak e"
| "names_leak (Wrap2 _ e _ f) = (names_leak e \<or> names_leak f)"
| "names_leak (DebuggeeEndedError _ e) = names_leak e"
| "names_leak (Adt _) = False"
| "names_leak (Sentinel _) = False"
| "names_leak (Msg _) = False"
| "names_leak (TableNotFoundError _) = False"

definition leak_named :: "verify_result \<Rightarrow> bool" where
  "leak_named res = (case vr_error res of None \<Rightarrow> False | Some e \<Rightarrow> names_leak e)"

definition is_delete :: "request \<Rightarrow> bool" where
  "is_delete rq \<longleftrightarrow> rq_method rq = ''DELETE''"

lemma any_preflight: "accepts_preflight E (\<lambda>_. True)"
  by (simp add: accepts_preflight_def)

lemma any_accepted: "accepts E (\<lambda>_. True) meth path body hs"
  by (simp add: accepts_def)

lemmas any_sends = sends any_preflight any_accepted

lemma sendDelete_does: "does is_delete (sendDelete E path etag)"
  unfolding sendDelete_def
  by (rule does_tryw)
    (auto simp: doMutate_def is_delete_def is_request_def intro!: sends does_checked [OF doMutateWith_last])

lemma FetchETag_any: "emits (\<lambda>_. True) (FetchETag E uri)"
  by (rule emits_weaken [OF emits_guarded_reads]) simp

lemma sendDelete_any: "emits (\<lambda>_. True) (sendDelete E path etag)"
  unfolding sendDelete_def by (auto intro!: any_sends)

lemma retry_does:
  assumes "does Q m" and "does Q n" and "emits (\<lambda>_. True) m"
  shows "does Q (retry_on p m n)"
proof (rule doesI)
  fix s r s' assume run: "run_state (retry_on p m n) s = (r, s')"
  obtain r1 s1 where r1: "run_state m s = (r1, s1)" by fastforce
  from assms(1) r1 obtain es where es: "wire s1 = es @ wire s" "\<And>x. r1 = Inr x \<Longrightarrow> performed Q es" by (rule doesE) blast
  show "\<exists>es. wire s' = es @ wire s \<and> (\<forall>x. r = Inr x \<longrightarrow> performed Q es)"
  proof (cases "\<exists>e. r1 = Inl e \<and> p e")
    case True
    with run r1 have "run_state n s1 = (r, s')" by (auto simp: retry_on_def)
    with assms(2) obtain fs where "wire s' = fs @ wire s1" "\<And>x. r = Inr x \<Longrightarrow> performed Q fs" by (rule doesE) blast
    with es show ?thesis by (intro exI [of _ "fs @ es"]) simp
  next
    case False
    with run r1 have "r = r1" "s' = s1" by (auto simp: retry_on_def split: sum.splits)
    with es show ?thesis by (intro exI [of _ es]) simp
  qed
qed

lemma deleteObject_does: "does is_delete (deleteObject E uri transport)"
  unfolding deleteObject_def Let_def
  by (rule does_after_tryw [OF FetchETag_any]) (intro retry_does sendDelete_does sendDelete_any)

lemma UnlockObject_any: "emits (\<lambda>_. True) (UnlockObject E uri h)"
  unfolding UnlockObject_def by (auto intro!: any_sends)

lemma DeleteObject_does: "does is_delete (DeleteObject E uri h transport)"
proof -
  have del: "does is_delete (deleteAfter E uri transport unlockErr)" for unlockErr
    unfolding deleteAfter_def by (rule does_tryw [OF deleteObject_does]) (rule sends)
  show ?thesis
    unfolding DeleteObject_def
    using del by (auto intro!: does_after [OF UnlockObject_any] does_fail split: sum.splits)
qed

lemma removeProgram_does: "does is_delete (removeProgram Ec uri held e)"
  unfolding removeProgram_def using DeleteObject_does does_fail by auto

lemma LockObject_any: "emits (\<lambda>_. True) (LockObject E uri)"
  unfolding LockObject_def Let_def by (auto intro!: any_sends split: sum.splits)

lemma GetSource_any: "emits (\<lambda>_. True) (GetSource E uri)"
  unfolding GetSource_def readSource_def Let_def by (auto intro!: any_sends)

lemma SetSource_any: "emits (\<lambda>_. True) (SetSource E uri source h transport etag)"
  by (rule emits_weaken [of "write_ok source h"])
    (auto simp: SetSource_def Let_def intro!: sends write_ok_preflight trySetSource_writes bare_no_mark)

lemma ctx_result_any: "emits (\<lambda>_. True) (ctx_result E x)"
  by (rule emits_same_wire) (auto simp: ctx_result_def)

lemma readFallback_any: "emits (\<lambda>_. True) (readWithAcceptFallback E uri accept)"
  unfolding readWithAcceptFallback_def by (auto intro!: any_sends)

lemma packageLookup_any: "emits (\<lambda>_. True) (packageFromObjectProperties E uri)"
  unfolding packageFromObjectProperties_def
  by (auto intro!: any_sends readFallback_any ctx_result_any split: sum.splits)

lemma objectInfo_any:
  "(\<And>g. emits (\<lambda>_. True) (lookup g)) \<Longrightarrow> emits (\<lambda>_. True) (objectInfo E lookup uri)"
  unfolding objectInfo_def partPackage_def packageOfFunctionGroup_def servicePackage_def
  by (auto intro!: any_sends readFallback_any ctx_result_any packageLookup_any split: sum.splits option.splits)

lemma GetObjectInfo_any: "emits (\<lambda>_. True) (GetObjectInfo E uri)"
  unfolding GetObjectInfo_def by (intro objectInfo_any sends)

lemma checkChunk_any: "emits (\<lambda>_. True) (checkChunk E uris version)"
  unfolding checkChunk_def Let_def by (auto intro!: any_sends split: sum.splits)

lemma SyntaxCheck_any: "emits (\<lambda>_. True) (SyntaxCheck E uri)"
  unfolding SyntaxCheck_def by (auto intro!: any_sends checkChunk_any GetObjectInfo_any)

lemma releaseLock_any: "emits (\<lambda>_. True) (releaseLock E uri h)"
  unfolding releaseLock_def by (auto intro!: any_sends UnlockObject_any)

lemma giveUp_any: "emits (\<lambda>_. True) (giveUp E uri h w e)"
  unfolding giveUp_def by (auto intro!: any_sends releaseLock_any)

lemma verifySteps_any: "emits (\<lambda>_. True) (verifySteps E uri source)"
  unfolding verifySteps_def
  by (auto intro!: any_sends LockObject_any GetSource_any SetSource_any SyntaxCheck_any releaseLock_any giveUp_any
      split: sum.splits)

lemma addLeak_named: "del = Inl e \<Longrightarrow> leak_named (addLeak prog res del)"
  by (simp add: addLeak_def leak_named_def leakError_def additionally_def split: option.splits)

lemma verifyCreated_removes:
  assumes "run_state (verifyCreated E Ec n source) s = (res, s')"
  shows "\<exists>es. wire s' = es @ wire s \<and> (leak_named res \<or> performed is_delete es)"
proof -
  obtain p s1 where steps: "run_state (verifySteps E (verifyURI n) source) s = (p, s1)" by fastforce
  let ?res = "case fst p of Inl e \<Rightarrow> notVerified e | Inr msgs \<Rightarrow> verified msgs"
  obtain del s2 where del: "run_state (removeProgram Ec (verifyURI n) (snd p) (vr_error ?res)) s1 = (del, s2)" by fastforce
  from assms steps del have res: "res = addLeak (verifyName n) ?res del" "s' = s2"
    by (auto simp: verifyCreated_def Let_def)
  from verifySteps_any steps obtain es where es: "wire s1 = es @ wire s" by (rule emitsE)
  from removeProgram_does del obtain fs where
    "wire s2 = fs @ wire s1" "\<And>x. del = Inr x \<Longrightarrow> performed is_delete fs" by (rule doesE) blast
  with es res show ?thesis
    by (intro exI [of _ "fs @ es"]) (cases del, auto intro: addLeak_named)
qed

section \<open>Properties\<close>


text \<open>
  The release of the lock on an error path ignores a 401, so the cleanup sends the rejected
  credential again: here the source cannot be read (500), the unlock and the unlock of the delete
  are both rejected.
\<close>

theorem VerifySource_continues_after_401:
  "rejections (snd (run_state (verifyCreated scripted scripted 7 ''REPORT z.'')
     (with_token (new_client [answer 200 ''HANDLE'', answer 500 [], answer 401 [], answer 401 []])))) = 2"
  by code_simp

text \<open>
  When the check itself went through, its verdict is returned whatever the cleanup does: a failed
  removal only adds an error.
\<close>

theorem VerifySource_keeps_the_verdict:
  assumes "run_state (verifySteps E (verifyURI n) source) s = ((Inr msgs, held), s1)"
  shows "let res = fst (run_state (verifyCreated E Ec n source) s) in
     vr_messages res = msgs \<and> vr_valid res = list_all (\<lambda>m. sm_type m \<noteq> ''E'') msgs
     \<and> (case vr_error res of None \<Rightarrow> True | Some e \<Rightarrow> names_leak e)"
  using assms
  by (auto simp: verifyCreated_def Let_def verified_def addLeak_def leakError_def split: sum.splits prod.splits)

theorem VerifySource_keeps_the_verdict_witness:
  "vr_valid (fst (run_state (verifyCreated scripted scripted 7 ''REPORT z.'')
     (with_token (new_client (answer 200 ''HANDLE'' # replicate 4 (answer 200 []))))))"
proof -
  let ?s = "with_token (new_client (answer 200 ''HANDLE'' # replicate 4 (answer 200 [])))"
  have "fst (run_state (verifySteps scripted (verifyURI 7) ''REPORT z.'') ?s) = (Inr [], [])" by code_simp
  then have "run_state (verifySteps scripted (verifyURI 7) ''REPORT z.'') ?s
      = ((Inr [], []), snd (run_state (verifySteps scripted (verifyURI 7) ''REPORT z.'') ?s))"
    by (simp add: prod_eq_iff)
  from VerifySource_keeps_the_verdict [OF this, of scripted] show ?thesis by (simp add: Let_def)
qed

end
