(* ===== verification/RollbackProps.thy ===== *)
theory RollbackProps
  imports Rollback Verify
begin

text \<open>
  What a rollback does: where the entries of the transport end up, the version that is written back,
  when and what it deletes, and when it stops.
\<close>

section \<open>Restoring deletes nothing\<close>

definition no_delete :: "request \<Rightarrow> bool" where
  "no_delete rq \<longleftrightarrow> \<not> is_delete rq"

lemma no_delete_preflight [intro!]: "accepts_preflight E no_delete"
  by (simp add: accepts_preflight_def no_delete_def is_delete_def is_preflight_def)

lemma no_delete_accepts [intro!]: "meth \<noteq> ''DELETE'' \<Longrightarrow> accepts E no_delete meth path body hs"
  by (simp add: accepts_def no_delete_def is_delete_def)

lemma RunQuery_keeps: "emits no_delete (RunQuery E sql n)"
  by (rule RunQuery_sends) (auto simp: query_of_def no_delete_def is_delete_def)

lemma readTransportXML_keeps: "emits no_delete (readTransportXML E n accept)"
  unfolding readTransportXML_def by (auto intro!: sends)

lemma transport_reads_keep:
  "emits no_delete (GetTransportObjects E n)" "emits no_delete (transportNumbers E n)"
  unfolding GetTransportObjects_def getTransportObjectsViaQuery_def transportQueryNumbers_def Let_def
    transportNumbers_def GetTransportTasks_def
  by (auto intro!: sends RunQuery_keeps readTransportXML_keeps split: sum.splits option.splits)

lemma resolve_keeps: "emits no_delete (resolveRollbackTarget E ob)"
proof -
  have one: "emits no_delete (queryOne E sql)" for sql
    unfolding queryOne_def by (auto intro!: sends RunQuery_keeps)
  have func: "emits no_delete (resolveFUNC E nm)" for nm
    unfolding resolveFUNC_def by (auto intro!: sends one split: option.splits)
  have incl: "emits no_delete (resolveInclude E nm)" for nm
    unfolding resolveInclude_def resolveGroupInclude_def resolveModuleInclude_def Let_def
    by (auto intro!: sends one func split: option.splits prod.splits)
  show ?thesis
    unfolding resolveRollbackTarget_def resolveLIMU_def resolveREPS_def Let_def
    by (auto intro!: sends one func incl split: option.splits)
qed

lemma rollbackTargets_keeps: "emits no_delete (rollbackTargets E obs pl)"
  by (induction obs arbitrary: pl) (auto intro!: sends resolve_keeps split: option.splits)

lemma history_keeps: "emits no_delete (GetVersionHistory E uri)"
proof -
  have feed: "emits no_delete (getVersionFeed E path incl)" for path incl
    unfolding getVersionFeed_def by (auto intro!: sends)
  have "emits no_delete (getClassVersionHistory E uri incls all)" for uri incls all
    by (induction incls arbitrary: all) (auto intro!: sends feed split: sum.splits)
  then show ?thesis unfolding GetVersionHistory_def Let_def by (auto intro!: sends feed)
qed

lemma writeSource_keeps: "emits no_delete (writeSource E uri incl source h request etag)"
  unfolding writeSource_def SetIncludeSource_def SetSource_def trySetSource_def setClassSourceIntoRequest_def
    setSourceWithLockParam_def setSourceWithLockHeader_def doSetSource_def writeBody_def Let_def
  by (auto intro!: sends)

lemma locks_keep: "emits no_delete (LockObject E uri)" "emits no_delete (UnlockObject E uri h)"
  unfolding LockObject_def UnlockObject_def Let_def by (auto intro!: sends split: sum.splits)

lemma writeAll_keeps: "emits no_delete (writeAll E uri h request etag i ws)"
  by (induction ws arbitrary: i)
    (auto intro!: sends writeSource_keeps locks_keep simp: unlockUnlessUnauthorized_def split: sum.splits)

lemma writeRestored_keeps: "emits no_delete (writeRestored E uri ws request)"
proof -
  have "emits no_delete (versionSources E ws)" for ws
    by (induction ws) (auto intro!: sends simp: GetVersionSource_def readText_def)
  then show ?thesis
    unfolding writeRestored_def currentETag_def GetSource_def readSource_def unlockRestored_def Let_def
    by (auto intro!: sends writeAll_keeps locks_keep split: sum.splits)
qed

lemma activate_keeps: "emits no_delete (activateRestored E uri)"
  unfolding activateRestored_def ActivateObjects_def postActivation_def sendActivation_def GetInactiveObjects_def Let_def
  by (auto intro!: sends split: sum.splits option.splits)

lemma rollbackOrClassify_keeps: "emits no_delete (rollbackOrClassify E uri transports)"
  unfolding rollbackOrClassify_def restoreVersion_def
  by (auto intro!: sends history_keeps writeRestored_keeps activate_keeps)

lemma restoreTargets_keeps: "emits no_delete (restoreTargets E transports tgs st)"
  by (induction tgs arbitrary: st) (auto intro!: sends rollbackOrClassify_keeps split: option.splits)

lemma tadir_any: "emits (\<lambda>_. True) (tadirSourceSystem E objType nm)"
  unfolding tadirSourceSystem_def by (auto intro!: sends any_preflight split: list.splits)

lemma DeleteObject_any: "emits (\<lambda>_. True) (DeleteObject E uri h transport)"
proof (rule emitsI)
  fix s r s' assume "run_state (DeleteObject E uri h transport) s = (r, s')"
  with DeleteObject_does obtain es where "wire s' = es @ wire s" by (rule doesE)
  then show "\<exists>es. wire s' = es @ wire s \<and> list_all (\<lambda>_. True) es" by (auto simp: list_all_iff)
qed

lemma finishRollback_any: "emits (\<lambda>_. True) (finishRollback E transport del st)"
proof -
  have keep: "emits (\<lambda>_. True) (keepLocalOrigin E sid rejected obs res)" for sid rejected obs res
    by (induction E sid rejected obs res rule: keepLocalOrigin.induct)
      (auto intro!: sends tadir_any split: prod.splits)
  have one: "emits (\<lambda>_. True) (deleteOne E request ob)" for request ob
    unfolding deleteOne_def by (auto intro!: sends DeleteObject_any)
  have round: "emits (\<lambda>_. True) (deleteRound E request rejected obs res)" for request rejected obs res
  proof (induction obs arbitrary: rejected res)
    case (Cons ob obs)
    then show ?case by (cases rejected) (auto intro!: sends one split: prod.splits option.splits)
  qed (auto intro: sends)
  have rounds: "emits (\<lambda>_. True) (deleteRounds E request obs res)" for request obs res
  proof (induction obs arbitrary: res rule: length_induct)
    case (1 obs)
    then show ?case
      by (subst deleteRounds.simps) (auto intro!: sends round split: prod.splits)
  qed
  show ?thesis
    unfolding finishRollback_def deleteCreatedObjects_def Let_def
    by (auto intro!: sends keep rounds split: option.splits prod.splits)
qed

section \<open>Where the entries end up\<close>

definition entry_key :: "rollback_entry \<Rightarrow> string \<times> string" where
  "entry_key en = (re_type en, re_name en)"

text \<open>Type and name of everything a result reports, as often as it reports it.\<close>

definition reported :: "rollback_result \<Rightarrow> (string \<times> string) multiset" where
  "reported res = mset (map entry_key (rr_restored res @ rr_skipped res @ rr_failed res @ rr_created res @ rr_deleted res))"

lemma reported_add [simp]:
  "reported (add_failed en res) = add_mset (entry_key en) (reported res)"
  "reported (add_skipped en res) = add_mset (entry_key en) (reported res)"
  "reported (add_restored en res) = add_mset (entry_key en) (reported res)"
  "reported (add_deleted en res) = add_mset (entry_key en) (reported res)"
  "reported (add_created ens res) = reported res + mset (map entry_key ens)"
  by (simp_all add: reported_def result_defs)

lemma entry_key_reason [simp]: "entry_key (with_reason reason en) = entry_key en"
  by (simp add: entry_key_def with_reason_def)

definition created_keys :: "created_object list \<Rightarrow> (string \<times> string) multiset" where
  "created_keys obs = mset (map (\<lambda>ob. entry_key (cr_entry ob)) obs)"

lemma created_keys_simps [simp]:
  "created_keys [] = {#}"
  "created_keys (ob # obs) = add_mset (entry_key (cr_entry ob)) (created_keys obs)"
  "created_keys (obs @ obs') = created_keys obs + created_keys obs'"
  by (simp_all add: created_keys_def)

lemma createdEntries_keys [simp]: "image_mset entry_key (mset (createdEntries obs reason)) = created_keys obs"
  by (simp add: createdEntries_def created_keys_def comp_def image_mset.compositionality flip: mset_map)

lemma foldl_failed_keys:
  "(\<And>ob. entry_key (f ob) = entry_key (cr_entry ob)) \<Longrightarrow>
     reported (foldl (\<lambda>res ob. add_failed (f ob) res) res obs) = reported res + created_keys obs"
  by (induction obs arbitrary: res) auto

lemma originAnswer_keys:
  "created_keys (fst (originAnswer sid ob r res)) + reported (snd (originAnswer sid ob r res))
     = add_mset (entry_key (cr_entry ob)) (reported res)"
  by (auto simp: originAnswer_def split: sum.splits)

lemma keepLocalOrigin_keys:
  "run_state (keepLocalOrigin E sid rejected obs res) s = ((local, res'), s') \<Longrightarrow>
     created_keys local + reported res' = created_keys obs + reported res"
proof (induction E sid rejected obs res arbitrary: s local res' s' rule: keepLocalOrigin.induct)
  case (3 E sid ob obs res)
  obtain r s1 where r: "run_state (tadirSourceSystem E (re_type (cr_entry ob)) (re_name (cr_entry ob))) s = (r, s1)"
    by fastforce
  let ?rej = "case r of Inl e \<Rightarrow> if is_unauthorized e then Some e else None | Inr _ \<Rightarrow> None"
  obtain l2 r2 s2 where rest: "run_state (keepLocalOrigin E sid ?rej obs (snd (originAnswer sid ob r res))) s1 = ((l2, r2), s2)"
    by (metis surj_pair)
  from "3.IH" [OF this] "3.prems" r rest originAnswer_keys [of sid ob r res] show ?case
    by (auto simp: ac_simps) (metis add.assoc add.commute add_mset_add_single)
qed auto

lemma deleteRound_keys:
  "run_state (deleteRound E request rejected obs res) s = ((nxt, rej, res'), s') \<Longrightarrow>
     created_keys nxt + reported res' = created_keys obs + reported res"
proof (induction E request rejected obs res arbitrary: s nxt rej res' s' rule: deleteRound.induct)
  case (2 E request e ob obs res)
  then show ?case by (fastforce split: prod.splits)
next
  case (3 E request ob obs res)
  then show ?case by (fastforce split: prod.splits option.splits)
qed auto

lemma deleteRounds_keys:
  "run_state (deleteRounds E request obs res) s = ((left, rej, res'), s') \<Longrightarrow>
     created_keys left + reported res' = created_keys obs + reported res"
proof (induction E request obs res arbitrary: s rule: deleteRounds.induct)
  case (1 E request obs res)
  obtain nxt r1 res1 s1 where r: "run_state (deleteRound E request None obs res) s = ((nxt, r1, res1), s1)"
    by (metis surj_pair)
  note first = deleteRound_keys [OF this]
  show ?case
  proof (cases "obs \<noteq> [] \<and> length nxt < length obs \<and> r1 = None")
    case True
    with "1.prems" r have "run_state (deleteRounds E request nxt res1) s1 = ((left, rej, res'), s')"
      by (subst (asm) deleteRounds.simps) simp
    with first True "1.IH" [of nxt r1 res1 s1] show ?thesis by simp
  next
    case False
    with "1.prems" r first show ?thesis by (subst (asm) deleteRounds.simps) (auto split: if_splits)
  qed
qed

lemma deleteCreatedObjects_keys:
  assumes "run_state (deleteCreatedObjects E transport obs res) s = (res', s')"
  shows "reported res' = reported res + created_keys obs"
proof -
  obtain left rej r1 s1 where r: "run_state (deleteRounds E transport obs res) s = ((left, rej, r1), s1)"
    by (metis surj_pair)
  with assms have "res' = foldl (\<lambda>res ob. add_failed (with_reason (leftReason rej ob) (cr_entry ob)) res) r1 left"
    by (simp add: deleteCreatedObjects_def addLeft_def [abs_def])
  then have "reported res' = reported r1 + created_keys left" by (simp add: foldl_failed_keys)
  with deleteRounds_keys [OF r] show ?thesis by (simp add: ac_simps)
qed

lemma finishRollback_keys:
  assumes "run_state (finishRollback E transport del st) s = (res, s')"
  shows "reported res = reported (rs_result st) + created_keys (rs_created st)"
proof (cases "rs_created st \<noteq> [] \<and> del \<and> rs_rejected st = None \<and> rr_failed (rs_result st) = [] \<and> \<not> rs_partial st")
  case True
  obtain local r1 s1 where k: "run_state (keepLocalOrigin E (requestSystem transport) None (rs_created st) (rs_result st)) s
      = ((local, r1), s1)" by (metis surj_pair)
  with assms True have "run_state (deleteCreatedObjects E transport local r1) s1 = (res, s')"
    by (simp add: finishRollback_def Let_def)
  from deleteCreatedObjects_keys [OF this] keepLocalOrigin_keys [OF k] show ?thesis by (simp add: ac_simps)
next
  case False
  with assms show ?thesis
    by (auto simp: finishRollback_def Let_def foldl_failed_keys split: if_splits option.splits)
qed

definition target_keys :: "rollback_target list \<Rightarrow> (string \<times> string) multiset" where
  "target_keys tgs = mset (map (\<lambda>tg. entry_key (rt_entry tg)) tgs)"

lemma target_keys_simps [simp]:
  "target_keys [] = {#}" "target_keys (tg # tgs) = add_mset (entry_key (rt_entry tg)) (target_keys tgs)"
  by (simp_all add: target_keys_def)

definition state_keys :: "rollback_state \<Rightarrow> (string \<times> string) multiset" where
  "state_keys st = reported (rs_result st) + created_keys (rs_created st)"

lemma restoreOutcome_keys: "state_keys (restoreOutcome tg r st) = add_mset (entry_key (rt_entry tg)) (state_keys st)"
  by (auto simp: restoreOutcome_def state_keys_def newly_created_def split: sum.splits bool.splits)

lemma restoreTargets_keys:
  "run_state (restoreTargets E transports tgs st) s = (st', s') \<Longrightarrow> state_keys st' = state_keys st + target_keys tgs"
proof (induction tgs arbitrary: st s)
  case (Cons tg tgs)
  obtain r s1 where r: "run_state (rollbackOrClassify E (rt_uri tg) transports) s = (r, s1)" by fastforce
  show ?case
  proof (cases "rs_rejected st")
    case None
    with Cons.prems r have "run_state (restoreTargets E transports tgs (restoreOutcome tg r st)) s1 = (st', s')" by simp
    from Cons.IH [OF this] show ?thesis by (simp add: restoreOutcome_keys)
  next
    case (Some e)
    with Cons.prems have "run_state (restoreTargets E transports tgs (st\<lparr>rs_result :=
        add_failed (with_reason (not_attempted e) (rt_entry tg)) (rs_result st)\<rparr>)) s = (st', s')" by simp
    from Cons.IH [OF this] show ?thesis by (simp add: state_keys_def)
  qed
qed (simp add: state_keys_def)

text \<open>An entry of the transport, after the look-ups: reported, or part of a target (or a release marker).\<close>

definition resolves_to :: "'w env \<Rightarrow> transport_object \<Rightarrow> rollback_target \<Rightarrow> bool" where
  "resolves_to E ob tg \<longleftrightarrow> (\<exists>s tg' s'. run_state (resolveRollbackTarget E ob) s = (Inr (Inr tg'), s')
     \<and> to_lower (rt_uri tg') = to_lower (rt_uri tg))"

definition accounted :: "'w env \<Rightarrow> rollback_plan \<Rightarrow> transport_object \<Rightarrow> bool" where
  "accounted E pl ob \<longleftrightarrow> tob_pgmid ob = ''CORR'' \<or> (tob_type ob, tob_name ob) \<in># reported (rp_result pl)
     \<or> list_ex (resolves_to E ob) (rp_targets pl)"

definition target_uris :: "rollback_plan \<Rightarrow> string list" where
  "target_uris pl = map (\<lambda>t. to_lower (rt_uri t)) (rp_targets pl)"

text \<open>A plan that only grew.\<close>

definition extends :: "rollback_plan \<Rightarrow> rollback_plan \<Rightarrow> bool" where
  "extends pl pl' \<longleftrightarrow> reported (rp_result pl) \<subseteq># reported (rp_result pl')
     \<and> set (rp_targets pl) \<subseteq> set (rp_targets pl') \<and> (distinct (target_uris pl) \<longrightarrow> distinct (target_uris pl'))"

lemma extends_refl [simp]: "extends pl pl"
  by (simp add: extends_def)

lemma extends_trans: "extends pl pl' \<Longrightarrow> extends pl' pl'' \<Longrightarrow> extends pl pl''"
  by (auto simp: extends_def intro: subset_mset.order_trans)

lemma extends_accounted: "accounted E pl ob \<Longrightarrow> extends pl pl' \<Longrightarrow> accounted E pl' ob"
  by (auto simp: accounted_def extends_def list_ex_iff dest: mset_subset_eqD)

lemma addResolution_extends: "extends pl (addResolution ob r pl)"
  by (auto simp: addResolution_def extends_def target_uris_def split: sum.splits)

lemma addResolution_accounted:
  assumes "run_state (resolveRollbackTarget E ob) s = (r, s')"
  shows "accounted E (addResolution ob r pl) ob"
proof (cases r)
  case (Inr q)
  show ?thesis
  proof (cases q)
    case (Inr tg)
    with \<open>r = Inr q\<close> assms have "list_ex (resolves_to E ob) (rp_targets (addResolution ob r pl))"
      by (auto simp: addResolution_def list_ex_iff resolves_to_def)
    then show ?thesis by (simp add: accounted_def)
  qed (use Inr in \<open>simp add: addResolution_def accounted_def entry_key_def entry_of_def\<close>)
qed (simp add: addResolution_def accounted_def entry_key_def entry_of_def)

lemma rollbackTargets_accounts:
  "run_state (rollbackTargets E obs pl) s = (pl', s') \<Longrightarrow> extends pl pl' \<and> list_all (accounted E pl') obs"
proof (induction obs arbitrary: pl s)
  case (Cons ob obs)
  obtain r s1 where r: "run_state (resolveRollbackTarget E ob) s = (r, s1)" by fastforce
  define pl1 where "pl1 = (if tob_pgmid ob = ''CORR'' then pl else case rp_rejected pl of
      Some e \<Rightarrow> pl\<lparr>rp_result := add_failed (entry_of (tob_type ob) (tob_name ob) (not_attempted e)) (rp_result pl)\<rparr>
    | None \<Rightarrow> addResolution ob r pl)"
  have "\<exists>s2. run_state (rollbackTargets E obs pl1) s2 = (pl', s')"
    using Cons.prems r by (auto simp: pl1_def split: if_splits option.splits)
  then have rest: "extends pl1 pl' \<and> list_all (accounted E pl') obs" using Cons.IH by blast
  have "extends pl pl1 \<and> accounted E pl1 ob"
    using addResolution_extends [of pl ob r] addResolution_accounted [OF r, of pl]
    by (auto simp: pl1_def extends_def target_uris_def accounted_def entry_key_def entry_of_def split: option.splits)
  with rest show ?case by (auto intro: extends_trans extends_accounted)
qed simp

section \<open>What is deleted\<close>

text \<open>
  Why an object may be deleted: its history was read and shows nothing but this transport, its source
  system was read and is the request's own, and SAP carried the deletion out or had the object no more.
\<close>

definition only_transport :: "'w env \<Rightarrow> string \<Rightarrow> string \<Rightarrow> bool" where
  "only_transport E transport uri \<longleftrightarrow> (\<exists>tasks versions s s'. run_state (GetVersionHistory E uri) s = (Inr versions, s')
     \<and> versions \<noteq> [] \<and> list_all (of_transport (transport # tasks)) versions)"

definition local_origin :: "'w env \<Rightarrow> string \<Rightarrow> rollback_entry \<Rightarrow> bool" where
  "local_origin E transport en \<longleftrightarrow> requestSystem transport \<noteq> []
     \<and> (\<exists>s s'. run_state (tadirSourceSystem E (re_type en) (re_name en)) s = (Inr (requestSystem transport), s'))"

definition gone :: "'w env \<Rightarrow> string \<Rightarrow> string \<Rightarrow> bool" where
  "gone E transport uri \<longleftrightarrow> (\<exists>s r s'. run_state (DeleteObject E uri [] transport) s = (r, s')
     \<and> (case r of Inr _ \<Rightarrow> True | Inl e \<Rightarrow> ClassifyError e = ErrorNotFound))"

definition justified :: "'w env \<Rightarrow> string \<Rightarrow> rollback_entry \<Rightarrow> bool" where
  "justified E transport en \<longleftrightarrow> (\<exists>uri. only_transport E transport uri \<and> local_origin E transport en \<and> gone E transport uri)"

lemma result_keeps_deleted [simp]:
  "rr_deleted (add_failed en res) = rr_deleted res" "rr_deleted (add_skipped en res) = rr_deleted res"
  "rr_deleted (add_restored en res) = rr_deleted res" "rr_deleted (add_created ens res) = rr_deleted res"
  "rr_deleted (add_deleted en res) = rr_deleted res @ [en]"
  by (simp_all add: result_defs)

lemma plan_deletes_nothing:
  "run_state (rollbackTargets E obs pl) s = (pl', s') \<Longrightarrow> rr_deleted (rp_result pl') = rr_deleted (rp_result pl)"
proof (induction obs arbitrary: pl s)
  case (Cons ob obs)
  then show ?case by (auto simp: addResolution_def split: if_splits option.splits prod.splits sum.splits)
qed simp

lemma classify_created:
  assumes "run_state (rollbackOrClassify E uri (transport # tasks)) s = (Inr True, s')"
  shows "only_transport E transport uri"
  using assms
  by (auto simp: rollbackOrClassify_def run_tryw only_transport_def createdByTransport_def
      split: prod.splits sum.splits if_splits)

lemma restoreTargets_created:
  assumes "run_state (restoreTargets E (transport # tasks) tgs st) s = (st', s')"
    and "list_all (\<lambda>ob. only_transport E transport (cr_uri ob)) (rs_created st)"
  shows "list_all (\<lambda>ob. only_transport E transport (cr_uri ob)) (rs_created st')
     \<and> rr_deleted (rs_result st') = rr_deleted (rs_result st)"
  using assms
proof (induction tgs arbitrary: st s)
  case (Cons tg tgs)
  obtain r s1 where r: "run_state (rollbackOrClassify E (rt_uri tg) (transport # tasks)) s = (r, s1)" by fastforce
  have "list_all (\<lambda>ob. only_transport E transport (cr_uri ob)) (rs_created (restoreOutcome tg r st))
      \<and> rr_deleted (rs_result (restoreOutcome tg r st)) = rr_deleted (rs_result st)"
    using Cons.prems(2) classify_created [OF r [THEN trans]]
    by (auto simp: restoreOutcome_def newly_created_def split: sum.splits bool.splits)
  with Cons.IH [of "restoreOutcome tg r st" s1] Cons.IH [of "st\<lparr>rs_result := _\<rparr>" s] Cons.prems r
  show ?case by (auto split: option.splits)
qed simp

definition deletable :: "'w env \<Rightarrow> string \<Rightarrow> created_object \<Rightarrow> bool" where
  "deletable E transport ob \<longleftrightarrow> only_transport E transport (cr_uri ob) \<and> local_origin E transport (cr_entry ob)"

lemma keepLocalOrigin_local:
  "run_state (keepLocalOrigin E (requestSystem transport) rejected obs res) s = ((local, res'), s') \<Longrightarrow>
     list_all (\<lambda>ob. only_transport E transport (cr_uri ob)) obs \<Longrightarrow>
     list_all (deletable E transport) local \<and> rr_deleted res' = rr_deleted res"
proof (induction E "requestSystem transport" rejected obs res arbitrary: s local res' s' rule: keepLocalOrigin.induct)
  case (3 E ob obs res)
  let ?sid = "requestSystem transport"
  obtain r s1 where r: "run_state (tadirSourceSystem E (re_type (cr_entry ob)) (re_name (cr_entry ob))) s = (r, s1)"
    by fastforce
  let ?rej = "case r of Inl e \<Rightarrow> if is_unauthorized e then Some e else None | Inr _ \<Rightarrow> None"
  obtain l2 r2 s2 where rest: "run_state (keepLocalOrigin E ?sid ?rej obs (snd (originAnswer ?sid ob r res))) s1 = ((l2, r2), s2)"
    by (metis surj_pair)
  have "list_all (deletable E transport) (fst (originAnswer ?sid ob r res))
      \<and> rr_deleted (snd (originAnswer ?sid ob r res)) = rr_deleted res"
    using r "3.prems"(2) by (auto simp: originAnswer_def deletable_def local_origin_def split: sum.splits)
  with "3.hyps" [OF rest] "3.prems" r rest show ?case by auto
qed auto

text \<open>A deletion keeps to what it may delete, and lists only what is gone.\<close>

definition all_justified :: "'w env \<Rightarrow> string \<Rightarrow> rollback_result \<Rightarrow> bool" where
  "all_justified E transport res \<longleftrightarrow> list_all (justified E transport) (rr_deleted res)"

lemma all_justified_add [simp]:
  "all_justified E transport (add_failed en res) = all_justified E transport res"
  "all_justified E transport (add_deleted en res) \<longleftrightarrow> all_justified E transport res \<and> justified E transport en"
  by (auto simp: all_justified_def)

lemma deletable_update [simp]:
  "deletable E transport (ob\<lparr>cr_last := l\<rparr>) = deletable E transport ob"
  "deletable E transport (ob\<lparr>cr_not_retried := b\<rparr>) = deletable E transport ob"
  by (simp_all add: deletable_def)

lemma deleteOne_gone:
  "run_state (deleteOne E transport ob) s = (None, s') \<Longrightarrow> gone E transport (cr_uri ob)"
  by (fastforce simp: deleteOne_def gone_def split: prod.splits sum.splits if_splits)

lemma deleteRound_justified:
  "run_state (deleteRound E transport rejected obs res) s = ((nxt, rej, res'), s') \<Longrightarrow>
     list_all (deletable E transport) obs \<Longrightarrow> all_justified E transport res \<Longrightarrow>
     list_all (deletable E transport) nxt \<and> all_justified E transport res'"
proof (induction E transport rejected obs res arbitrary: s nxt rej res' s' rule: deleteRound.induct)
  case (2 E transport e ob obs res)
  then show ?case by (fastforce split: prod.splits)
next
  case (3 E transport ob obs res)
  obtain r s1 where r: "run_state (deleteOne E transport ob) s = (r, s1)" by fastforce
  show ?case
  proof (cases r)
    case None
    with r "3.prems" have "justified E transport (cr_entry ob)"
      using deleteOne_gone by (fastforce simp: justified_def deletable_def)
    with None r "3.prems" "3.IH"(1) show ?thesis by auto
  next
    case (Some e)
    with r "3.prems" "3.IH"(2) show ?thesis by (fastforce split: prod.splits)
  qed
qed auto

lemma deleteRounds_justified:
  "run_state (deleteRounds E transport obs res) s = ((left, rej, res'), s') \<Longrightarrow>
     list_all (deletable E transport) obs \<Longrightarrow> all_justified E transport res \<Longrightarrow> all_justified E transport res'"
proof (induction E transport obs res arbitrary: s rule: deleteRounds.induct)
  case (1 E transport obs res)
  obtain nxt r1 res1 s1 where r: "run_state (deleteRound E transport None obs res) s = ((nxt, r1, res1), s1)"
    by (metis surj_pair)
  note first = deleteRound_justified [OF this "1.prems"(2,3)]
  show ?case
  proof (cases "obs \<noteq> [] \<and> length nxt < length obs \<and> r1 = None")
    case True
    with "1.prems" r have "run_state (deleteRounds E transport nxt res1) s1 = ((left, rej, res'), s')"
      by (subst (asm) deleteRounds.simps) simp
    with first True "1.IH" [of nxt r1 res1 s1] show ?thesis by simp
  next
    case False
    with "1.prems" r first show ?thesis by (subst (asm) deleteRounds.simps) (auto split: if_splits)
  qed
qed

lemma foldl_addLeft_justified:
  "all_justified E transport (foldl (addLeft rej) res left) = all_justified E transport res"
  by (induction left arbitrary: res) (simp_all add: addLeft_def)

lemma finishRollback_justified:
  assumes "run_state (finishRollback E transport del st) s = (res, s')" and "rr_deleted (rs_result st) = []"
    and "list_all (\<lambda>ob. only_transport E transport (cr_uri ob)) (rs_created st)"
  shows "all_justified E transport res \<and> (rr_deleted res \<noteq> [] \<longrightarrow> del)"
proof (cases "rs_created st \<noteq> [] \<and> del \<and> rs_rejected st = None \<and> rr_failed (rs_result st) = [] \<and> \<not> rs_partial st")
  case True
  obtain local r1 s1 where k: "run_state (keepLocalOrigin E (requestSystem transport) None (rs_created st) (rs_result st)) s
      = ((local, r1), s1)" by (metis surj_pair)
  note local = keepLocalOrigin_local [OF k assms(3)]
  obtain left rej r2 s2 where d: "run_state (deleteRounds E transport local r1) s1 = ((left, rej, r2), s2)"
    by (metis surj_pair)
  with k True assms(1) have "res = foldl (addLeft rej) r2 left"
    by (simp add: finishRollback_def Let_def deleteCreatedObjects_def)
  moreover have "all_justified E transport r2"
    by (rule deleteRounds_justified [OF d]) (use local assms(2) in \<open>simp_all add: all_justified_def\<close>)
  ultimately show ?thesis using True by (simp add: foldl_addLeft_justified)
next
  case False
  have "rr_deleted (foldl (\<lambda>res ob. add_failed (f ob) res) r obs) = rr_deleted r" for f r and obs :: "created_object list"
    by (induction obs arbitrary: r) simp_all
  with False assms(1,2) show ?thesis
    by (auto simp: finishRollback_def Let_def all_justified_def split: if_splits option.splits)
qed

section \<open>The phases of a rollback\<close>

lemma transportNumbers_head:
  "run_state (transportNumbers E transport) s = (Inr ts, s') \<Longrightarrow> \<exists>tasks. ts = transport # tasks"
  by (auto simp: transportNumbers_def split: prod.splits sum.splits if_splits)

lemma restorePhase_runs:
  assumes "run_state (restorePhase E transport) s = (Inr st, s')"
  obtains objects tasks pl s1 s2 s3 where "run_state (GetTransportObjects E transport) s = (Inr objects, s1)"
    "run_state (rollbackTargets E objects no_plan) s2 = (pl, s3)"
    "run_state (restoreTargets E (transport # tasks) (rp_targets pl) (startState pl)) s3 = (st, s')"
  using assms
  by (auto simp: restorePhase_def run_tryw split: prod.splits sum.splits dest!: transportNumbers_head)

lemma rollback_runs:
  assumes "run_state (RollbackTransportWithOptions E transport del) s = (Inr res, s')"
  obtains st s1 where "run_state (restorePhase E transport) s = (Inr st, s1)"
    "run_state (finishRollback E transport del st) s1 = (res, s')"
  using assms by (auto simp: RollbackTransportWithOptions_def run_tryw split: prod.splits sum.splits)

section \<open>Why an object is left\<close>

text \<open>The report of what is left never lacks an error to quote: the code's nil dereference cannot happen.\<close>

definition explained :: "err option \<Rightarrow> created_object \<Rightarrow> bool" where
  "explained rej ob \<longleftrightarrow> cr_last ob \<noteq> None \<or> rej \<noteq> None"

lemma deleteRound_explained:
  "run_state (deleteRound E request rejected obs res) s = ((nxt, rej, res'), s') \<Longrightarrow>
     list_all (explained rej) nxt \<and> (rejected \<noteq> None \<longrightarrow> rej \<noteq> None)"
proof (induction obs arbitrary: s rejected nxt rej res res' s')
  case (Cons ob obs)
  show ?case
  proof (cases rejected)
    case None
    obtain r s1 where r: "run_state (deleteOne E request ob) s = (r, s1)" by fastforce
    show ?thesis
    proof (cases r)
      case None
      with Cons r \<open>rejected = None\<close> show ?thesis by auto
    next
      case (Some e)
      let ?rest = "deleteRound E request (if is_unauthorized e then Some e else None) obs res"
      obtain n2 r2 res2 s2 where rest: "run_state ?rest s1 = ((n2, r2, res2), s2)" by (metis surj_pair)
      with Some r Cons.prems \<open>rejected = None\<close> have "nxt = ob\<lparr>cr_last := Some e\<rparr> # n2" "rej = r2" by auto
      with Cons.IH [OF rest] show ?thesis by (simp add: explained_def \<open>rejected = None\<close>)
    qed
  next
    case (Some e)
    obtain n2 r2 res2 s2 where rest: "run_state (deleteRound E request (Some e) obs res) s = ((n2, r2, res2), s2)"
      by (metis surj_pair)
    with Some Cons.prems have "nxt = ob\<lparr>cr_not_retried := True\<rparr> # n2" "rej = r2" by auto
    with Cons.IH [OF rest] show ?thesis by (auto simp: explained_def list_all_iff)
  qed
qed auto

lemma deleteRounds_explained:
  "run_state (deleteRounds E request obs res) s = ((left, rej, res'), s') \<Longrightarrow> list_all (explained rej) left"
proof (induction E request obs res arbitrary: s rule: deleteRounds.induct)
  case (1 E request obs res)
  obtain nxt r1 res1 s1 where r: "run_state (deleteRound E request None obs res) s = ((nxt, r1, res1), s1)"
    by (metis surj_pair)
  note first = deleteRound_explained [OF this]
  show ?case
  proof (cases "obs \<noteq> [] \<and> length nxt < length obs \<and> r1 = None")
    case True
    with "1.prems" r have "run_state (deleteRounds E request nxt res1) s1 = ((left, rej, res'), s')"
      by (subst (asm) deleteRounds.simps) simp
    with True "1.IH" [of nxt r1 res1 s1] show ?thesis by simp
  next
    case False
    with "1.prems" r first show ?thesis by (subst (asm) deleteRounds.simps) (auto split: if_splits)
  qed
qed

section \<open>The version before the transport\<close>

text \<open>
  The content of the first version that is not the transport's, after the newest that is; empty when
  there is none.
\<close>

definition version_before :: "string list \<Rightarrow> version_info list \<Rightarrow> string" where
  "version_before ts h =
     (case dropWhile (of_transport ts) (dropWhile (\<lambda>v. \<not> of_transport ts v) h) of [] \<Rightarrow> [] | v # _ \<Rightarrow> vi_content v)"

definition touched :: "version_info list \<Rightarrow> string list \<Rightarrow> string \<Rightarrow> bool" where
  "touched versions ts incl \<longleftrightarrow> list_ex (of_transport ts) (includeHistory versions incl)"

lemma scan_seen:
  "scanHistory ts True h = (True, case dropWhile (of_transport ts) h of [] \<Rightarrow> [] | v # _ \<Rightarrow> vi_content v)"
  by (induction h) auto

lemma scan_history: "scanHistory ts False h = (list_ex (of_transport ts) h, version_before ts h)"
  by (induction h) (auto simp: version_before_def scan_seen)

lemma historyHasTransport_eq: "historyHasTransport h ts = list_ex (of_transport ts) h"
  by (auto simp: historyHasTransport_def of_transport_def equal_fold_upper list_ex_iff)

lemma planIncludes_eq:
  "planIncludes versions ts incls = Inr ws \<longleftrightarrow>
     ws = map (\<lambda>i. \<lparr>sw_include = i, sw_uri = version_before ts (includeHistory versions i)\<rparr>) (filter (touched versions ts) incls)
     \<and> list_all (\<lambda>w. sw_uri w \<noteq> []) ws"
proof (induction incls arbitrary: ws)
  case (Cons i incls)
  show ?case
  proof (cases "touched versions ts i \<and> version_before ts (includeHistory versions i) \<noteq> []")
    case True
    then have step: "planIncludes versions ts (i # incls) = (case planIncludes versions ts incls of Inl e \<Rightarrow> Inl e
        | Inr ws \<Rightarrow> Inr (\<lparr>sw_include = i, sw_uri = version_before ts (includeHistory versions i)\<rparr> # ws))"
      by (simp add: Let_def historyHasTransport_eq touched_def findPreTransportVersion_def scan_history)
    let ?vs = "map (\<lambda>i. \<lparr>sw_include = i, sw_uri = version_before ts (includeHistory versions i)\<rparr>)
        (filter (touched versions ts) incls)"
    show ?thesis
    proof (cases "planIncludes versions ts incls")
      case (Inl e)
      with Cons.IH [of ?vs] have "\<not> list_all (\<lambda>w. sw_uri w \<noteq> []) ?vs" by simp
      with Inl step True show ?thesis by auto
    next
      case (Inr vs)
      then have vs: "vs = ?vs \<and> list_all (\<lambda>w. sw_uri w \<noteq> []) vs" by (rule Cons.IH [THEN iffD1])
      from vs [THEN conjunct2] have "list_all (\<lambda>w. sw_uri w \<noteq> []) ?vs" by (subst (asm) vs [THEN conjunct1])
      with vs [THEN conjunct1] Inr step True show ?thesis by auto
    qed
  next
    case False
    with Cons.IH show ?thesis
      by (auto simp: Let_def historyHasTransport_eq touched_def findPreTransportVersion_def scan_history)
  qed
qed auto

section \<open>Properties\<close>





section \<open>After a rejected credential\<close>

lemma writeSource_stops:
  assumes "honest E" and "no_lock_401 E"
  shows "stops401 unauth (writeSource E uri incl source h request etag)"
  unfolding writeSource_def by (auto intro!: stops SetSource_stops assms)

text \<open>
  After a failed write the lock is released, and a rejection of that release is not reported: the restore
  fails with the error of the write.
\<close>

lemma after_ok [simp]: "State_Monad.bind (ok x) k = k (Inr x)"
  by (simp add: ok_def)

lemma writeAll_halts:
  assumes "honest E" and "no_lock_401 E"
  shows "halts (writeAll E uri h request etag i ws)"
proof (induction ws arbitrary: i)
  case (Cons p ws)
  obtain w src where p: "p = (w, src)" by fastforce
  show ?case unfolding p writeAll.simps
    by (rule stops401_bind [OF writeSource_stops [OF assms]])
      (auto split: sum.splits simp: unlockUnlessUnauthorized_def
        intro!: stops Cons.IH stops401_bind [OF UnlockObject_stops] stops401_bind [where P = "\<lambda>_. True"])
qed (auto intro: stops)

lemma unlockRestored_stops: "stops401 unauth (unlockRestored E uri h)"
  unfolding unlockRestored_def
  by (rule stops401_bind [OF UnlockObject_stops]) (auto split: sum.splits intro!: stops)

lemma versionSources_stops: "stops401 unauth (versionSources E ws)"
  by (induction ws) (auto intro!: stops)

lemma writeRestored_halts:
  assumes "honest E" and "no_lock_401 E"
  shows "halts (writeRestored E uri ws request)"
  unfolding writeRestored_def currentETag_def
  by (auto intro!: stops halts_tryw halts_stops [OF versionSources_stops] halts_stops [OF LockObject_stops]
      halts_stops [OF unlockRestored_stops] writeAll_halts [OF assms] halts_stops [OF GetSource_stops])

definition rollback_doc :: xml where
  "rollback_doc = Elem ''root'' [] [] [Elem ''request'' [] [(''number'', [], ''DEVK1'')]
     (map (\<lambda>n. Elem ''abap_object'' [] [(''pgmid'', [], ''R3TR''), (''type'', [], ''PROG''), (''name'', [], n)] []) [''ZA'', ''ZB''])]"

definition rollback_feed :: xml where
  "rollback_feed = Elem ''feed'' [] [] (map (\<lambda>(n, u). Elem ''entry'' [] [] [Elem ''content'' [] [(''src'', [], u)] [],
     Elem ''link'' [] [(''rel'', [], ''trans''), (''name'', [], n)] []]) [(''DEVK1'', ''/v/2''), (''DEVK0'', ''/v/1'')])"

definition rollback_system :: "response list env" where
  "rollback_system = scripted\<lparr>unmarshal_xml := (\<lambda>d.
     if d = ''doc'' then Inr rollback_doc else if d = ''feed'' then Inr rollback_feed else Inl (Msg ''EOF''))\<rparr>"

text \<open>
  A 401 for the list of inactive objects does not stop a rollback: the activation of the first program
  counts as successful, and the history of the second is asked for with the rejected credential.
\<close>

theorem rollback_continues_after_401:
  "rejections (snd (run_state (RollbackTransport rollback_system ''DEVK1'')
     (with_token (new_client [answer 200 ''doc'', answer 200 ''doc'', answer 200 ''feed'', answer 200 ''REPORT za.'',
        answer 200 ''REPORT za. WRITE 1.'', answer 200 ''HANDLE'', answer 200 [], answer 200 [], answer 200 [],
        answer 401 [], answer 401 []])))) = 2"
  by code_simp

end
