(* ===== verification/Dependencies.thy ===== *)
theory Dependencies
  imports TransportDocs
begin

text \<open>
  What an object depends on (\<open>adt/dependencies.go\<close>): flat look-ups for programs, classes and the Fiori
  catalogue, and for DDIC objects a breadth-first walk over the catalogue tables, level by level.
  \<open>RunQuery\<close> returns no nil result without an error, so the code's \<open>qr == nil\<close> never holds.
\<close>

section \<open>Data\<close>

record object_dependency =
  od_name :: string
  od_use :: string

record dependency_result =
  dr_type :: string
  dr_name :: string
  dr_count :: nat
  dr_deps :: "object_dependency list"
  dr_warnings :: "string list"

definition newDependencyResult ::
    "string \<Rightarrow> string \<Rightarrow> object_dependency list \<times> string list \<Rightarrow> dependency_result" where
  "newDependencyResult objType nm = (\<lambda>(deps, warns).
     \<lparr>dr_type = objType, dr_name = nm, dr_count = length deps, dr_deps = deps, dr_warnings = warns\<rparr>)"

definition dep :: "string \<Rightarrow> string \<Rightarrow> object_dependency" where
  "dep nm use = \<lparr>od_name = nm, od_use = use\<rparr>"

definition useUnknown :: string where "useUnknown = ''UNKNOWN''"

definition uiadTargetColumns :: "(string \<times> string) list" where
  "uiadTargetColumns = [(''TCODE'', ''TRANSACTION''), (''WD_APPL_ID'', ''WEB_DYNPRO_APP''),
     (''WCF_TARGET_ID'', ''WEB_CLIENT_TARGET''), (''UI5_APP_ID'', ''UI5_APP'')]"

definition dependencyMaxDepthCeiling :: int where "dependencyMaxDepthCeiling = 10"

definition seometarelMaxRows :: int where "seometarelMaxRows = 100"

definition ddicMaxFieldRows :: int where "ddicMaxFieldRows = 2000"

definition ddicInListMaxBytes :: nat where "ddicInListMaxBytes = 150"

definition ooRelTypeToUseType :: "string \<Rightarrow> string" where
  "ooRelTypeToUseType relType =
     (if relType \<in> {''0'', ''1''} then ''INTERFACE'' else if relType = ''2'' then ''SUPERCLASS'' else useUnknown)"

definition tabclassToUseType :: "string \<Rightarrow> string" where
  "tabclassToUseType tabclass =
     (if tabclass = ''TRANSP'' then ''TABLE'' else if tabclass = ''INTTAB'' then ''STRUCTURE''
      else if tabclass \<in> {''CLUSTER'', ''POOL''} then ''TABLE'' else if tabclass = ''VIEW'' then ''VIEW''
      else useUnknown)"

section \<open>Names of generated programs\<close>

definition fugrPoolProgramName :: "string \<Rightarrow> string" where
  "fugrPoolProgramName nm =
     (if has_prefix nm ''/'' then
        (case index_byte (drop 1 nm) (CHR ''/'') of
           Some i \<Rightarrow> take (i + 2) nm @ ''SAPL'' @ drop (i + 2) nm
         | None \<Rightarrow> ''SAPL'' @ nm)
      else ''SAPL'' @ nm)"

definition poolProgramName :: "string \<Rightarrow> string \<Rightarrow> string" where
  "poolProgramName suffix nm =
     (if length nm \<ge> 30 then nm @ suffix else nm @ replicate (30 - length nm) (CHR ''='') @ suffix)"

definition classPoolProgramName :: "string \<Rightarrow> string" where
  "classPoolProgramName = poolProgramName ''CP''"

definition intfPoolProgramName :: "string \<Rightarrow> string" where
  "intfPoolProgramName = poolProgramName ''IP''"

definition funcPoolProgramName :: "'w env \<Rightarrow> string \<Rightarrow> ('w, string) go" where
  "funcPoolProgramName E nm =
     tryw (wrapf (''looking up function module '' @ quoted nm @ '' in TFDIR: ''))
       (RunQuery E (''SELECT PNAME FROM TFDIR WHERE FUNCNAME = '' @ literal nm) 1) (\<lambda>qr.
       case qr_rows qr of
         (c # _) # _ \<Rightarrow> if c = [] then fail (Msg (''function module '' @ quoted nm @ '' not found in TFDIR'')) else ok c
       | _ \<Rightarrow> fail (Msg (''function module '' @ quoted nm @ '' not found in TFDIR'')))"

section \<open>Lists in statements\<close>

definition buildSQLInList :: "string list \<Rightarrow> string" where
  "buildSQLInList names = join '','' (map literal names)"

text \<open>The loop of \<open>chunkNames\<close>: the batch being filled and its length.\<close>

fun chunkLoop :: "nat \<Rightarrow> string list \<Rightarrow> nat \<Rightarrow> string list \<Rightarrow> string list list" where
  "chunkLoop maxBytes cur curLen [] = (if cur = [] then [] else [cur])"
| "chunkLoop maxBytes cur curLen (n # ns) =
     (let entryLen = length n + 3 in
      if cur \<noteq> [] \<and> curLen + entryLen > maxBytes then cur # chunkLoop maxBytes [n] entryLen ns
      else chunkLoop maxBytes (cur @ [n]) (curLen + entryLen) ns)"

definition chunkNames :: "string list \<Rightarrow> nat \<Rightarrow> string list list" where
  "chunkNames names maxBytes = chunkLoop maxBytes [] 0 names"

section \<open>Classification\<close>

type_synonym classification = "string \<Rightarrow> string option"

definition useOf :: "classification \<Rightarrow> string \<Rightarrow> string" where
  "useOf m n = (case m n of None \<Rightarrow> [] | Some u \<Rightarrow> u)"

definition dd02lRow :: "string list \<Rightarrow> classification \<Rightarrow> classification" where
  "dd02lRow row m = (case row of n # c # _ \<Rightarrow> m(n \<mapsto> tabclassToUseType c) | _ \<Rightarrow> m)"

definition tadirUse :: "(string \<times> string) list" where
  "tadirUse = [(''DTEL'', ''DATA_ELEMENT''), (''DOMA'', ''DOMAIN''), (''TTYP'', ''TABLE_TYPE''), (''VIEW'', ''VIEW'')]"

definition tadirRow :: "string list \<Rightarrow> classification \<Rightarrow> classification" where
  "tadirRow row m = (case row of
      t # n # _ \<Rightarrow> (case map_of tadirUse t of Some u \<Rightarrow> m(n \<mapsto> u) | None \<Rightarrow> m)
    | _ \<Rightarrow> m)"

text \<open>A query whose failure, other than a rejected credential, counts as an empty answer.\<close>

definition rowsOrNone :: "'w env \<Rightarrow> string \<Rightarrow> int \<Rightarrow> ('w, string list list) go" where
  "rowsOrNone E sql maxRows = State_Monad.bind (RunQuery E sql maxRows) (\<lambda>r. case r of
      Inr qr \<Rightarrow> ok (qr_rows qr)
    | Inl e \<Rightarrow> if is_unauthorized e then fail e else ok [])"

definition unknownMap :: "string list \<Rightarrow> classification" where
  "unknownMap names = (\<lambda>n. if n \<in> set names then Some useUnknown else None)"

definition classifyDDICObjects :: "'w env \<Rightarrow> string list \<Rightarrow> ('w, classification) go" where
  "classifyDDICObjects E names =
     tryE (rowsOrNone E (''SELECT TABNAME, TABCLASS FROM DD02L WHERE TABNAME IN ('' @ buildSQLInList names @ '')'')
       (int (length names))) (\<lambda>rows.
     (let m = fold dd02lRow rows (unknownMap names);
          unknown = filter (\<lambda>n. m n = Some useUnknown) names in
      if unknown = [] then ok m
      else tryE (rowsOrNone E (''SELECT OBJECT, OBJ_NAME FROM TADIR WHERE PGMID = '' @ literal ''R3TR''
          @ '' AND OBJ_NAME IN ('' @ buildSQLInList unknown @ '')'') (int (length unknown))) (\<lambda>rows2.
        ok (fold tadirRow rows2 m))))"

section \<open>Flat look-ups\<close>

definition d010tabDeps :: "'w env \<Rightarrow> string \<Rightarrow> int \<Rightarrow> ('w, object_dependency list) go" where
  "d010tabDeps E master maxResults =
     tryE (RunQuery E (''SELECT TABNAME FROM D010TAB WHERE MASTER = '' @ literal master @ '' ORDER BY TABNAME'') maxResults) (\<lambda>qr.
     (let names = concat (map (\<lambda>row. case row of [] \<Rightarrow> [] | c # _ \<Rightarrow> if c = [] then [] else [c]) (qr_rows qr)) in
      if names = [] then ok []
      else tryE (classifyDDICObjects E names) (\<lambda>m. ok (map (\<lambda>n. dep n (useOf m n)) names))))"

definition ooDeps :: "'w env \<Rightarrow> string \<Rightarrow> string list \<Rightarrow> ('w, object_dependency list) go" where
  "ooDeps E clsName relTypes =
     tryE (RunQuery E (''SELECT REFCLSNAME, RELTYPE FROM SEOMETAREL WHERE CLSNAME = '' @ literal clsName
       @ '' AND RELTYPE IN ('' @ buildSQLInList relTypes @ '') ORDER BY RELTYPE, REFCLSNAME'') seometarelMaxRows) (\<lambda>qr.
       ok (concat (map (\<lambda>row. case row of
           r # t # _ \<Rightarrow> if r = [] then [] else [dep r (ooRelTypeToUseType t)] | _ \<Rightarrow> []) (qr_rows qr))))"

definition truncatedWarning :: "int \<Rightarrow> int \<Rightarrow> string" where
  "truncatedWarning shown whole = ''output truncated to '' @ itoa shown @ '' entries ('' @ itoa whole @ '' total)''"

definition uiacDeps :: "'w env \<Rightarrow> string \<Rightarrow> int \<Rightarrow> ('w, object_dependency list \<times> string list) go" where
  "uiacDeps E catID maxResults =
     tryE (RunQuery E (''SELECT APP_ID FROM SUI_TM_MM_APP WHERE CAT_ID = '' @ literal catID @ '' ORDER BY APP_ID'') maxResults) (\<lambda>qr.
       ok (map (\<lambda>v. dep v ''UI_APP'') (filter (\<lambda>v. v \<noteq> []) (map (queryCell qr ''APP_ID'') (qr_rows qr))),
         if qr_total qr > int (length (qr_rows qr)) then [truncatedWarning (int (length (qr_rows qr))) (qr_total qr)] else []))"

definition uiadDeps :: "'w env \<Rightarrow> string \<Rightarrow> ('w, object_dependency list \<times> string list) go" where
  "uiadDeps E appID =
     tryE (RunQuery E (''SELECT '' @ join '', '' (''APP_TYPE'' # map fst uiadTargetColumns)
       @ '' FROM SUI_TM_MM_APP WHERE APP_ID = '' @ literal appID) 1) (\<lambda>qr. case qr_rows qr of
         [] \<Rightarrow> ok ([], [''no SUI_TM_MM_APP entry for app id '' @ quoted appID])
       | row # _ \<Rightarrow>
           (let deps = concat (map (\<lambda>(col, use). let v = queryCell qr col row in if v = [] then [] else [dep v use])
              uiadTargetColumns) in
            if deps = [] then ok ([], [''app entry has no launch target (APP_TYPE '' @ quoted (queryCell qr ''APP_TYPE'' row) @ '')''])
            else ok (deps, [])))"

section \<open>The walk over DDIC types\<close>

text \<open>
  A node is a type and a name (the code's key is \<open>type|name\<close>). \<open>wk_visited\<close> holds the nodes met, newest
  first, \<open>wk_next\<close> those of the next level.
\<close>

type_synonym node = "string \<times> string"

record ddic_walk =
  wk_visited :: "node list"
  wk_deps :: "object_dependency list"
  wk_warnings :: "string list"
  wk_next :: "node list"

definition addDep :: "string \<Rightarrow> string \<Rightarrow> string \<Rightarrow> ddic_walk \<Rightarrow> ddic_walk" where
  "addDep depName depType use wk =
     (if depName = [] \<or> (depType, depName) \<in> set (wk_visited wk) then wk
      else wk\<lparr>wk_visited := (depType, depName) # wk_visited wk, wk_deps := wk_deps wk @ [dep depName use],
        wk_next := wk_next wk @ [(depType, depName)]\<rparr>)"

definition warn :: "string \<Rightarrow> ddic_walk \<Rightarrow> ddic_walk" where
  "warn msg wk = wk\<lparr>wk_warnings := wk_warnings wk @ [msg]\<rparr>"

text \<open>
  The loop over the batches all four queries share: a rejected credential ends it, another error becomes
  a warning, the rows go to \<open>onRows\<close>.
\<close>

fun queryChunks :: "'w env \<Rightarrow> string \<Rightarrow> (string list \<Rightarrow> string) \<Rightarrow> (string list \<Rightarrow> int)
    \<Rightarrow> (string list list \<Rightarrow> ddic_walk \<times> string list \<Rightarrow> ddic_walk \<times> string list)
    \<Rightarrow> string list list \<Rightarrow> ddic_walk \<times> string list \<Rightarrow> ('w, ddic_walk \<times> string list) go" where
  "queryChunks E table sql maxRows onRows [] st = ok st"
| "queryChunks E table sql maxRows onRows (c # cs) st =
     State_Monad.bind (RunQuery E (sql c) (maxRows c)) (\<lambda>r. case r of
         Inl e \<Rightarrow>
           if is_unauthorized e then fail e
           else queryChunks E table sql maxRows onRows cs (apfst (warn (table @ '' query failed: '' @ err_text e)) st)
       | Inr qr \<Rightarrow> queryChunks E table sql maxRows onRows cs (onRows (qr_rows qr) st))"

definition in_query :: "string \<Rightarrow> string \<Rightarrow> string \<Rightarrow> string list \<Rightarrow> string" where
  "in_query cols table key names =
     ''SELECT '' @ cols @ '' FROM '' @ table @ '' WHERE '' @ key @ '' IN ('' @ buildSQLInList names @ '')''"

definition tablRow :: "string list \<Rightarrow> ddic_walk \<Rightarrow> ddic_walk" where
  "tablRow row wk = (case row of
      roll # check # _ \<Rightarrow> addDep check ''TABL'' ''TABLE'' (addDep roll ''DTEL'' ''DATA_ELEMENT'' wk) | _ \<Rightarrow> wk)"

definition capWarning :: "string list list \<Rightarrow> ddic_walk \<Rightarrow> ddic_walk" where
  "capWarning rows wk =
     (if int (length rows) \<ge> ddicMaxFieldRows then
        warn (''DD03L result capped at '' @ itoa ddicMaxFieldRows @ '' rows; some field dependencies may be missing'') wk
      else wk)"

definition ddicQueryTabl :: "'w env \<Rightarrow> string list \<Rightarrow> ddic_walk \<Rightarrow> ('w, ddic_walk) go" where
  "ddicQueryTabl E names wk =
     tryE (queryChunks E ''DD03L'' (in_query ''ROLLNAME, CHECKTABLE'' ''DD03L'' ''TABNAME'') (\<lambda>_. ddicMaxFieldRows)
       (\<lambda>rows. apfst (\<lambda>wk. capWarning rows (fold tablRow rows wk))) (chunkNames names ddicInListMaxBytes) (wk, [])) (\<lambda>st. ok (fst st))"

definition firstRow :: "string \<Rightarrow> string \<Rightarrow> string list \<Rightarrow> ddic_walk \<Rightarrow> ddic_walk" where
  "firstRow depType use row wk = (case row of n # _ \<Rightarrow> addDep n depType use wk | _ \<Rightarrow> wk)"

definition ddicQueryDtel :: "'w env \<Rightarrow> string list \<Rightarrow> ddic_walk \<Rightarrow> ('w, ddic_walk) go" where
  "ddicQueryDtel E names wk =
     tryE (queryChunks E ''DD04L'' (in_query ''DOMNAME'' ''DD04L'' ''ROLLNAME'') (\<lambda>c. int (length c))
       (\<lambda>rows. apfst (fold (firstRow ''DOMA'' ''DOMAIN'') rows)) (chunkNames names ddicInListMaxBytes) (wk, [])) (\<lambda>st. ok (fst st))"

definition ddicQueryDoma :: "'w env \<Rightarrow> string list \<Rightarrow> ddic_walk \<Rightarrow> ('w, ddic_walk) go" where
  "ddicQueryDoma E names wk =
     tryE (queryChunks E ''DD01L'' (in_query ''ENTITYTAB'' ''DD01L'' ''DOMNAME'') (\<lambda>c. int (length c))
       (\<lambda>rows. apfst (fold (firstRow ''TABL'' ''TABLE'') rows)) (chunkNames names ddicInListMaxBytes) (wk, [])) (\<lambda>st. ok (fst st))"

text \<open>Row types of kind S are gathered over all batches and classified afterwards.\<close>

definition ttypRow :: "string list \<Rightarrow> ddic_walk \<times> string list \<Rightarrow> ddic_walk \<times> string list" where
  "ttypRow row st = (case row of
      t # k # _ \<Rightarrow>
        if t = [] then st
        else if k = ''E'' then apfst (addDep t ''DTEL'' ''DATA_ELEMENT'') st
        else if k = ''S'' then apsnd (\<lambda>ns. ns @ [t]) st
        else st
    | _ \<Rightarrow> st)"

fun addClassified :: "'w env \<Rightarrow> string list list \<Rightarrow> ddic_walk \<Rightarrow> ('w, ddic_walk) go" where
  "addClassified E [] wk = ok wk"
| "addClassified E (c # cs) wk =
     tryE (classifyDDICObjects E c) (\<lambda>m. addClassified E cs (fold (\<lambda>n. addDep n ''TABL'' (useOf m n)) c wk))"

definition ddicQueryTtyp :: "'w env \<Rightarrow> string list \<Rightarrow> ddic_walk \<Rightarrow> ('w, ddic_walk) go" where
  "ddicQueryTtyp E names wk =
     tryE (queryChunks E ''DD40L'' (in_query ''ROWTYPE, ROWKIND'' ''DD40L'' ''TYPENAME'') (\<lambda>c. int (length c))
       (fold ttypRow) (chunkNames names ddicInListMaxBytes) (wk, [])) (\<lambda>(wk', rowKindS).
     addClassified E (chunkNames rowKindS ddicInListMaxBytes) wk')"

definition namesOf :: "string \<Rightarrow> node list \<Rightarrow> string list" where
  "namesOf typ current = map snd (filter (\<lambda>n. fst n = typ) current)"

definition ddicGroup :: "('w env \<Rightarrow> string list \<Rightarrow> ddic_walk \<Rightarrow> ('w, ddic_walk) go) \<Rightarrow> 'w env \<Rightarrow> string list
    \<Rightarrow> ddic_walk \<Rightarrow> ('w, ddic_walk) go" where
  "ddicGroup query E names wk = (if names = [] then ok wk else query E names wk)"

definition ddicLevel :: "'w env \<Rightarrow> node list \<Rightarrow> ddic_walk \<Rightarrow> ('w, ddic_walk) go" where
  "ddicLevel E current wk =
     tryE (ddicGroup ddicQueryTabl E (namesOf ''TABL'' current) wk) (\<lambda>wk1.
     tryE (ddicGroup ddicQueryDtel E (namesOf ''DTEL'' current) wk1) (\<lambda>wk2.
     tryE (ddicGroup ddicQueryDoma E (namesOf ''DOMA'' current) wk2) (\<lambda>wk3.
       ddicGroup ddicQueryTtyp E (namesOf ''TTYP'' current) wk3)))"

fun ddicWalk :: "'w env \<Rightarrow> nat \<Rightarrow> node list \<Rightarrow> ddic_walk \<Rightarrow> ('w, ddic_walk) go" where
  "ddicWalk E 0 current wk = ok wk"
| "ddicWalk E (Suc depth) current wk =
     (if current = [] then ok wk
      else tryE (ddicLevel E current (wk\<lparr>wk_next := []\<rparr>)) (\<lambda>wk'. ddicWalk E depth (wk_next wk') wk'))"

definition ddicChainDeps :: "'w env \<Rightarrow> string \<Rightarrow> string \<Rightarrow> nat \<Rightarrow> ('w, object_dependency list \<times> string list) go" where
  "ddicChainDeps E nm objType maxDepth =
     tryE (ddicWalk E maxDepth [(objType, nm)]
       \<lparr>wk_visited = [(objType, nm)], wk_deps = [], wk_warnings = [], wk_next = []\<rparr>) (\<lambda>wk.
       ok (wk_deps wk, wk_warnings wk))"

section \<open>GetObjectDependencies\<close>

definition clampDepth :: "int \<Rightarrow> nat" where
  "clampDepth maxDepth = nat (min dependencyMaxDepthCeiling (max 1 maxDepth))"

definition capDeps :: "int \<Rightarrow> object_dependency list \<times> string list \<Rightarrow> object_dependency list \<times> string list" where
  "capDeps maxResults = (\<lambda>(deps, warns).
     if maxResults > 0 \<and> int (length deps) > maxResults
     then (take (nat maxResults) deps, warns @ [truncatedWarning maxResults (int (length deps))])
     else (deps, warns))"

definition plainDeps :: "object_dependency list \<Rightarrow> object_dependency list \<times> string list" where
  "plainDeps deps = (deps, [])"

text \<open>Dependencies of a class or interface: the types its pool uses, then its relations of the given kinds.\<close>

definition pooledDeps :: "'w env \<Rightarrow> string \<Rightarrow> string \<Rightarrow> int \<Rightarrow> string list
    \<Rightarrow> ('w, object_dependency list \<times> string list) go" where
  "pooledDeps E pool nm maxResults relTypes =
     tryE (d010tabDeps E pool maxResults) (\<lambda>ddic. tryE (ooDeps E nm relTypes) (\<lambda>oo. ok (plainDeps (ddic @ oo))))"

definition GetObjectDependencies :: "'w env \<Rightarrow> string \<Rightarrow> string \<Rightarrow> int \<Rightarrow> int \<Rightarrow> ('w, dependency_result) go" where
  "GetObjectDependencies E objectType0 nm maxResults maxDepth =
     (let objectType = to_upper objectType0;
          flat = (\<lambda>master. tryE (d010tabDeps E master maxResults) (\<lambda>deps. ok (plainDeps deps)));
          deps = (if objectType = ''PROG'' then flat nm
            else if objectType = ''FUGR'' then flat (fugrPoolProgramName nm)
            else if objectType = ''FUNC'' then tryE (funcPoolProgramName E nm) flat
            else if objectType = ''CLAS'' then pooledDeps E (classPoolProgramName nm) nm maxResults [''1'', ''2'']
            else if objectType = ''INTF'' then pooledDeps E (intfPoolProgramName nm) nm maxResults [''0'']
            else if objectType = ''UIAC'' then uiacDeps E nm maxResults
            else if objectType = ''UIAD'' then uiadDeps E nm
            else if objectType \<in> {''TABL'', ''DTEL'', ''DOMA'', ''TTYP''} then
              tryE (ddicChainDeps E nm objectType (clampDepth maxDepth)) (\<lambda>d. ok (capDeps maxResults d))
            else fail (Msg (''unsupported object type '' @ quoted objectType
              @ '': supported are PROG, FUGR, FUNC, CLAS, INTF, TABL, DTEL, DOMA, TTYP, UIAC, UIAD''))) in
      tryE deps (\<lambda>d. ok (newDependencyResult objectType nm d)))"

end
