(* ===== verification/DependencyProps.thy ===== *)
theory DependencyProps
  imports Dependencies
begin

text \<open>
  The dependency walk against its specification: the nodes it lists are those that chains of references
  reach within the depth, each once, and a listed node was itself looked up unless the depth was used up.
\<close>

section \<open>Batches\<close>

lemma chunkLoop_concat: "concat (chunkLoop b cur len ns) = cur @ ns"
  by (induction b cur len ns rule: chunkLoop.induct) (auto simp: Let_def)

lemma chunkNames_concat [simp]: "concat (chunkNames names b) = names"
  by (simp add: chunkNames_def chunkLoop_concat)

lemma chunk_members: "n \<in> set names \<longleftrightarrow> (\<exists>c \<in> set (chunkNames names b). n \<in> set c)"
proof -
  have "set (concat (chunkNames names b)) = set names" by (simp only: chunkNames_concat)
  then show ?thesis unfolding set_concat by blast
qed

definition batch_bytes :: "string list \<Rightarrow> nat" where
  "batch_bytes c = sum_list (map (\<lambda>n. length n + 3) c)"

lemma batch_bytes_simps [simp]:
  "batch_bytes [] = 0" "batch_bytes (n # c) = length n + 3 + batch_bytes c"
  "batch_bytes (c @ d) = batch_bytes c + batch_bytes d"
  by (simp_all add: batch_bytes_def)

definition fitting :: "nat \<Rightarrow> string list \<Rightarrow> bool" where
  "fitting b c \<longleftrightarrow> c \<noteq> [] \<and> (length c = 1 \<or> batch_bytes c \<le> b)"

lemma chunkLoop_fitting:
  "len = batch_bytes cur \<Longrightarrow> cur = [] \<or> fitting b cur \<Longrightarrow> list_all (fitting b) (chunkLoop b cur len ns)"
proof (induction b cur len ns rule: chunkLoop.induct)
  case (2 b cur len n ns)
  then show ?case by (cases "cur = []") (auto simp: Let_def fitting_def not_less)
qed auto

lemma chunkNames_fitting: "list_all (fitting b) (chunkNames names b)"
  unfolding chunkNames_def by (rule chunkLoop_fitting) simp_all

text \<open>An apostrophe in a name is doubled in the statement, which the batch does not count.\<close>

definition apostrophes :: "string \<Rightarrow> nat" where
  "apostrophes n = length (filter (\<lambda>ch. ch = APOS) n)"

lemma EscapeValue_length: "length (EscapeValue n) = length n + apostrophes n"
  by (induction n) (auto simp: EscapeValue_def replace_all_byte apostrophes_def)

lemma in_list_length:
  "c \<noteq> [] \<Longrightarrow> length (buildSQLInList c) + 1 = batch_bytes c + sum_list (map apostrophes c)"
proof (induction c)
  case (Cons n c)
  then show ?case
    by (cases "c = []") (auto simp: buildSQLInList_def literal_def EscapeValue_length join_Cons)
qed simp

section \<open>References\<close>

definition ddicTypes :: "string list" where "ddicTypes = [''TABL'', ''DTEL'', ''DOMA'', ''TTYP'']"

text \<open>The statement for a batch of objects of one type, and the nodes a row of its answer mentions.\<close>

definition type_query :: "string \<Rightarrow> string list \<Rightarrow> string" where
  "type_query typ =
     (if typ = ''TABL'' then in_query ''ROLLNAME, CHECKTABLE'' ''DD03L'' ''TABNAME''
      else if typ = ''DTEL'' then in_query ''DOMNAME'' ''DD04L'' ''ROLLNAME''
      else if typ = ''DOMA'' then in_query ''ENTITYTAB'' ''DD01L'' ''DOMNAME''
      else in_query ''ROWTYPE, ROWKIND'' ''DD40L'' ''TYPENAME'')"

definition catalogue :: "string \<Rightarrow> string" where
  "catalogue typ = (if typ = ''TABL'' then ''DD03L'' else if typ = ''DTEL'' then ''DD04L''
     else if typ = ''DOMA'' then ''DD01L'' else ''DD40L'')"

definition row_mentions :: "string \<Rightarrow> string list \<Rightarrow> node list" where
  "row_mentions typ row =
     (if typ = ''TABL'' then (case row of a # b # _ \<Rightarrow> [(''DTEL'', a), (''TABL'', b)] | _ \<Rightarrow> [])
      else if typ = ''DTEL'' then (case row of a # _ \<Rightarrow> [(''DOMA'', a)] | _ \<Rightarrow> [])
      else if typ = ''DOMA'' then (case row of a # _ \<Rightarrow> [(''TABL'', a)] | _ \<Rightarrow> [])
      else (case row of a # k # _ \<Rightarrow>
          if k = ''E'' then [(''DTEL'', a)] else if k = ''S'' then [(''TABL'', a)] else []
        | _ \<Rightarrow> []))"

definition mentions :: "string \<Rightarrow> string list list \<Rightarrow> node list" where
  "mentions typ rows = filter (\<lambda>x. snd x \<noteq> []) (concat (map (row_mentions typ) rows))"

text \<open>\<open>x\<close> refers to \<open>y\<close>: an answer to a query for a batch with \<open>x\<close> mentions \<open>y\<close>.\<close>

definition refs :: "'w env \<Rightarrow> (node \<times> node) set" where
  "refs E = {(x, y). fst x \<in> set ddicTypes \<and> (\<exists>c m s qr s'. snd x \<in> set c
     \<and> run_state (RunQuery E (type_query (fst x) c) m) s = (Inr qr, s') \<and> y \<in> set (mentions (fst x) (qr_rows qr)))}"

text \<open>
  \<open>x\<close> was looked up: a batch with \<open>x\<close> was asked for, and all its answer mentions is among the nodes \<open>V\<close>,
  or the failure is among the warnings \<open>W\<close>.
\<close>

definition looked_up :: "'w env \<Rightarrow> node set \<Rightarrow> string set \<Rightarrow> node \<Rightarrow> bool" where
  "looked_up E V W x \<longleftrightarrow> fst x \<notin> set ddicTypes \<or> (\<exists>c m s r s'. snd x \<in> set c
     \<and> run_state (RunQuery E (type_query (fst x) c) m) s = (r, s')
     \<and> (case r of Inr qr \<Rightarrow> set (mentions (fst x) (qr_rows qr)) \<subseteq> V
        | Inl e \<Rightarrow> catalogue (fst x) @ '' query failed: '' @ err_text e \<in> W))"

lemma refsI:
  assumes "typ \<in> set ddicTypes" and "n \<in> set c" and "run_state (RunQuery E (type_query typ c) m) s = (Inr qr, s')"
    and "y \<in> set (mentions typ (qr_rows qr))"
  shows "((typ, n), y) \<in> refs E"
  unfolding refs_def mem_Collect_eq case_prod_conv fst_conv snd_conv using assms by blast

lemma looked_upI:
  assumes "n \<in> set c" and "run_state (RunQuery E (type_query typ c) m) s = (r, s')"
    and "case r of Inr qr \<Rightarrow> set (mentions typ (qr_rows qr)) \<subseteq> V
       | Inl e \<Rightarrow> catalogue typ @ '' query failed: '' @ err_text e \<in> W"
  shows "looked_up E V W (typ, n)"
  unfolding looked_up_def fst_conv snd_conv using assms by blast

lemma looked_up_mono: "looked_up E V W x \<Longrightarrow> V \<subseteq> V' \<Longrightarrow> W \<subseteq> W' \<Longrightarrow> looked_up E V' W' x"
proof (cases "fst x \<in> set ddicTypes")
  case True
  assume "looked_up E V W x" and sub: "V \<subseteq> V'" "W \<subseteq> W'"
  with True obtain c m s r s' where c: "snd x \<in> set c" "run_state (RunQuery E (type_query (fst x) c) m) s = (r, s')"
    "case r of Inr qr \<Rightarrow> set (mentions (fst x) (qr_rows qr)) \<subseteq> V
       | Inl e \<Rightarrow> catalogue (fst x) @ '' query failed: '' @ err_text e \<in> W"
    unfolding looked_up_def by blast
  from c(3) sub have "case r of Inr qr \<Rightarrow> set (mentions (fst x) (qr_rows qr)) \<subseteq> V'
       | Inl e \<Rightarrow> catalogue (fst x) @ '' query failed: '' @ err_text e \<in> W'"
    by (cases r) auto
  with c(1,2) show ?thesis unfolding looked_up_def by blast
qed (simp add: looked_up_def)

section \<open>Steps of the walk\<close>

definition grows :: "ddic_walk \<Rightarrow> ddic_walk \<Rightarrow> bool" where
  "grows wk wk' \<longleftrightarrow> set (wk_visited wk) \<subseteq> set (wk_visited wk') \<and> set (wk_warnings wk) \<subseteq> set (wk_warnings wk')"

lemma grows_refl [simp]: "grows wk wk"
  by (simp add: grows_def)

lemma grows_trans: "grows wk wk' \<Longrightarrow> grows wk' wk'' \<Longrightarrow> grows wk wk''"
  by (auto simp: grows_def)

text \<open>
  The state within a level that may meet the nodes \<open>R\<close>: the visited nodes are the start and one per
  dependency, no two alike, and those beyond \<open>Old\<close> are the next level.
\<close>

definition good :: "node \<Rightarrow> node set \<Rightarrow> node set \<Rightarrow> ddic_walk \<Rightarrow> bool" where
  "good start Old R wk \<longleftrightarrow> distinct (wk_visited wk)
     \<and> (\<exists>keys. wk_visited wk = rev keys @ [start] \<and> map snd keys = map od_name (wk_deps wk))
     \<and> set (wk_visited wk) = Old \<union> set (wk_next wk) \<and> set (wk_next wk) \<subseteq> R"

definition adds :: "node list \<Rightarrow> (ddic_walk \<Rightarrow> ddic_walk) \<Rightarrow> bool" where
  "adds xs f \<longleftrightarrow> (\<forall>start Old R wk. good start Old R wk \<longrightarrow> set xs \<subseteq> R \<longrightarrow> good start Old R (f wk))
     \<and> (\<forall>wk. grows wk (f wk) \<and> set xs \<subseteq> set (wk_visited (f wk)))"

lemma adds_good: "adds xs f \<Longrightarrow> good start Old R wk \<Longrightarrow> set xs \<subseteq> R \<Longrightarrow> good start Old R (f wk)"
  unfolding adds_def by blast

lemma adds_grows: "adds xs f \<Longrightarrow> grows wk (f wk)" and adds_all: "adds xs f \<Longrightarrow> set xs \<subseteq> set (wk_visited (f wk))"
  by (simp_all add: adds_def)

lemma adds_nothing: "adds [] (\<lambda>wk. wk)"
  by (simp add: adds_def)

lemma adds_warn: "adds [] (warn msg)"
  by (auto simp: adds_def good_def grows_def warn_def)

lemma adds_dep: "adds (if n = [] then [] else [(typ, n)]) (addDep n typ use)"
proof -
  have "good start Old R (addDep n typ use wk)" if "good start Old R wk" "n \<noteq> [] \<Longrightarrow> (typ, n) \<in> R" for start Old R wk
  proof (cases "n = [] \<or> (typ, n) \<in> set (wk_visited wk)")
    case False
    from that(1) obtain keys where "wk_visited wk = rev keys @ [start]" "map snd keys = map od_name (wk_deps wk)"
      by (auto simp: good_def)
    with False that show ?thesis
      by (auto simp: good_def addDep_def dep_def intro!: exI [of _ "keys @ [(typ, n)]"])
  qed (use that in \<open>auto simp: addDep_def\<close>)
  moreover have "grows wk (addDep n typ use wk)
      \<and> set (if n = [] then [] else [(typ, n)]) \<subseteq> set (wk_visited (addDep n typ use wk))" for wk
    by (auto simp: addDep_def grows_def)
  ultimately show ?thesis unfolding adds_def by (metis empty_set insert_subset list.simps(15))
qed

lemma adds_comp: "adds xs f \<Longrightarrow> adds ys g \<Longrightarrow> adds (xs @ ys) (\<lambda>wk. g (f wk))"
  unfolding adds_def by (auto intro: grows_trans) (meson grows_def subset_iff)

lemma adds_set: "adds xs f \<Longrightarrow> set xs = set ys \<Longrightarrow> adds ys f"
  by (simp add: adds_def)

lemma adds_fold:
  assumes "\<And>x. adds (ms x) (f x)"
  shows "adds (concat (map ms xs)) (fold f xs)"
proof (induction xs)
  case (Cons x xs)
  from adds_comp [OF assms Cons.IH] show ?case by (simp add: comp_def)
qed (simp add: adds_nothing id_def)

section \<open>Queries in batches\<close>

text \<open>
  What the rows of an answer do in the three look-ups without, and the one with, a list of names to
  classify: \<open>F\<close> adds nodes, \<open>G\<close> gathers names.
\<close>

definition handles :: "string \<Rightarrow> (string list list \<Rightarrow> ddic_walk \<times> string list \<Rightarrow> ddic_walk \<times> string list)
    \<Rightarrow> (string list list \<Rightarrow> node list) \<Rightarrow> (string list list \<Rightarrow> string list) \<Rightarrow> bool" where
  "handles typ onRows M G \<longleftrightarrow> (\<forall>rows. \<exists>f. adds (M rows) f
     \<and> (\<forall>wk ex. onRows rows (wk, ex) = (f wk, ex @ G rows))
     \<and> set (mentions typ rows) = set (M rows) \<union> {(''TABL'', n) |n. n \<in> set (G rows)})"

text \<open>Where a batch stands after the loop: its rows are in, or its failure is a warning.\<close>

definition batch_done :: "'w env \<Rightarrow> string \<Rightarrow> (string list list \<Rightarrow> node list) \<Rightarrow> (string list list \<Rightarrow> string list)
    \<Rightarrow> ddic_walk \<Rightarrow> string list \<Rightarrow> string list \<Rightarrow> bool" where
  "batch_done E typ M G wk ex c \<longleftrightarrow> (\<exists>m s r s'. run_state (RunQuery E (type_query typ c) m) s = (r, s')
     \<and> (case r of Inr qr \<Rightarrow> set (M (qr_rows qr)) \<subseteq> set (wk_visited wk) \<and> set (G (qr_rows qr)) \<subseteq> set ex
        | Inl e \<Rightarrow> catalogue typ @ '' query failed: '' @ err_text e \<in> set (wk_warnings wk)))"

lemma batch_done_mono:
  "batch_done E typ M G wk ex c \<Longrightarrow> grows wk wk' \<Longrightarrow> set ex \<subseteq> set ex' \<Longrightarrow> batch_done E typ M G wk' ex' c"
  unfolding batch_done_def grows_def by (fastforce split: sum.splits)

definition may_meet :: "'w env \<Rightarrow> string \<Rightarrow> node set \<Rightarrow> string list \<Rightarrow> bool" where
  "may_meet E typ R c \<longleftrightarrow> (\<forall>m s qr s'. run_state (RunQuery E (type_query typ c) m) s = (Inr qr, s')
     \<longrightarrow> set (mentions typ (qr_rows qr)) \<subseteq> R)"

lemma queryChunks_does:
  assumes "handles typ onRows M G"
  shows "run_state (queryChunks E (catalogue typ) (type_query typ) mr onRows cs (wk, ex)) s = (Inr (wk', ex'), s') \<Longrightarrow>
     good start Old R wk \<Longrightarrow> list_all (may_meet E typ R) cs \<Longrightarrow> {(''TABL'', n) |n. n \<in> set ex} \<subseteq> R \<Longrightarrow>
     good start Old R wk' \<and> grows wk wk' \<and> set ex \<subseteq> set ex' \<and> {(''TABL'', n) |n. n \<in> set ex'} \<subseteq> R
     \<and> list_all (batch_done E typ M G wk' ex') cs"
proof (induction cs arbitrary: wk ex s)
  case (Cons c cs)
  obtain r s1 where r: "run_state (RunQuery E (type_query typ c) (mr c)) s = (r, s1)" by fastforce
  show ?case
  proof (cases r)
    case (Inl e)
    let ?wk = "warn (catalogue typ @ '' query failed: '' @ err_text e) wk"
    from Inl r Cons.prems(1) have rest: "run_state (queryChunks E (catalogue typ) (type_query typ) mr onRows cs (?wk, ex)) s1
        = (Inr (wk', ex'), s')" by (auto split: if_splits)
    have wk: "good start Old R ?wk" "grows wk ?wk" 
      by (rule adds_good [OF adds_warn Cons.prems(2)], simp) (rule adds_grows [OF adds_warn])
    from Cons.IH [OF rest wk(1)] Cons.prems(3,4)
    have IH: "good start Old R wk' \<and> grows ?wk wk' \<and> set ex \<subseteq> set ex' \<and> {(''TABL'', n) |n. n \<in> set ex'} \<subseteq> R
       \<and> list_all (batch_done E typ M G wk' ex') cs" by simp
    moreover have "batch_done E typ M G wk' ex' c"
      unfolding batch_done_def by (intro exI [of _ "mr c"] exI [of _ s] exI [of _ r] exI [of _ s1])
        (use r Inl IH in \<open>auto simp: grows_def warn_def\<close>)
    ultimately show ?thesis using wk(2) by (auto intro: grows_trans)
  next
    case (Inr qr)
    from assms obtain f where f: "adds (M (qr_rows qr)) f"
      "\<And>wk ex. onRows (qr_rows qr) (wk, ex) = (f wk, ex @ G (qr_rows qr))"
      "set (mentions typ (qr_rows qr)) = set (M (qr_rows qr)) \<union> {(''TABL'', n) |n. n \<in> set (G (qr_rows qr))}"
      unfolding handles_def by blast
    from Inr r Cons.prems(1) f(2) have rest: "run_state (queryChunks E (catalogue typ) (type_query typ) mr onRows cs
        (f wk, ex @ G (qr_rows qr))) s1 = (Inr (wk', ex'), s')" by simp
    from Cons.prems(3) r Inr have "set (mentions typ (qr_rows qr)) \<subseteq> R" by (auto simp: may_meet_def)
    with f(3) have sub: "set (M (qr_rows qr)) \<subseteq> R" "{(''TABL'', n) |n. n \<in> set (G (qr_rows qr))} \<subseteq> R" by auto
    from adds_good [OF f(1) Cons.prems(2) this(1)] adds_grows [OF f(1)]
    have wk: "good start Old R (f wk)" "grows wk (f wk)" by simp_all
    have "{(''TABL'', n) |n. n \<in> set (ex @ G (qr_rows qr))} \<subseteq> R" using sub(2) Cons.prems(4) by auto
    from Cons.IH [OF rest wk(1) _ this] Cons.prems(3)
    have IH: "good start Old R wk' \<and> grows (f wk) wk' \<and> set (ex @ G (qr_rows qr)) \<subseteq> set ex'
       \<and> {(''TABL'', n) |n. n \<in> set ex'} \<subseteq> R \<and> list_all (batch_done E typ M G wk' ex') cs" by simp
    moreover have "batch_done E typ M G wk' ex' c"
      unfolding batch_done_def by (intro exI [of _ "mr c"] exI [of _ s] exI [of _ r] exI [of _ s1])
        (use r Inr IH adds_all [OF f(1), of wk] in \<open>auto simp: grows_def\<close>)
    ultimately show ?thesis using wk(2) by (auto intro: grows_trans)
  qed
qed simp

text \<open>The four look-ups.\<close>

definition nonempty :: "node list \<Rightarrow> node list" where
  "nonempty xs = filter (\<lambda>x. snd x \<noteq> []) xs"

lemma nonempty_concat: "nonempty (concat (map g xs)) = concat (map (\<lambda>x. nonempty (g x)) xs)"
  by (simp add: nonempty_def filter_concat comp_def)

lemma mentions_rows: "mentions typ rows = concat (map (\<lambda>row. nonempty (row_mentions typ row)) rows)"
  unfolding mentions_def nonempty_def [symmetric] by (rule nonempty_concat)

lemma adds_tabl: "adds (nonempty (row_mentions ''TABL'' row)) (tablRow row)"
proof (cases "\<exists>a b rest. row = a # b # rest")
  case True
  then obtain a b rest where row: "row = a # b # rest" by blast
  have "tablRow row = (\<lambda>wk. addDep b ''TABL'' ''TABLE'' (addDep a ''DTEL'' ''DATA_ELEMENT'' wk))"
    by (simp add: row tablRow_def fun_eq_iff)
  moreover have "nonempty (row_mentions ''TABL'' row)
      = (if a = [] then [] else [(''DTEL'', a)]) @ (if b = [] then [] else [(''TABL'', b)])"
    by (simp add: row row_mentions_def nonempty_def)
  ultimately show ?thesis using adds_comp [OF adds_dep adds_dep] by metis
next
  case False
  then have "tablRow row = (\<lambda>wk. wk)" "row_mentions ''TABL'' row = []"
    by (auto simp: row_mentions_def tablRow_def fun_eq_iff split: list.splits)
  then show ?thesis by (simp add: nonempty_def adds_nothing)
qed

lemma adds_cap: "adds [] (capWarning rows)"
proof (cases "int (length rows) \<ge> ddicMaxFieldRows")
  case True
  then have "capWarning rows =
      warn (''DD03L result capped at '' @ itoa ddicMaxFieldRows @ '' rows; some field dependencies may be missing'')"
    by (simp add: fun_eq_iff capWarning_def)
  then show ?thesis by (simp add: adds_warn)
next
  case False
  then have "capWarning rows = (\<lambda>wk. wk)" by (simp add: fun_eq_iff capWarning_def)
  then show ?thesis by (simp add: adds_nothing)
qed

lemma firstRow_simps [simp]:
  "firstRow t u [] = (\<lambda>wk. wk)" "firstRow t u (n # r) = addDep n t u"
  by (simp_all add: firstRow_def fun_eq_iff)

lemma adds_first: "adds (case row of [] \<Rightarrow> [] | n # _ \<Rightarrow> nonempty [(typ, n)]) (firstRow typ use row)"
proof (cases row)
  case (Cons n r)
  with adds_dep [of n "typ" "use"] show ?thesis by (cases "n = []") (simp_all add: nonempty_def)
qed (simp add: adds_nothing)

text \<open>The names a type look-up gathers, and the nodes it adds at once.\<close>

definition gathered :: "string list list \<Rightarrow> string list" where
  "gathered rows = concat (map (\<lambda>row. case row of t # k # _ \<Rightarrow> if t \<noteq> [] \<and> k = ''S'' then [t] else [] | _ \<Rightarrow> []) rows)"

definition elements :: "string list list \<Rightarrow> node list" where
  "elements rows = concat (map (\<lambda>row. case row of
     t # k # _ \<Rightarrow> if t \<noteq> [] \<and> k = ''E'' then [(''DTEL'', t)] else [] | _ \<Rightarrow> []) rows)"

lemma ttypRows:
  "\<exists>f. adds (elements rows) f \<and> (\<forall>wk ex. fold ttypRow rows (wk, ex) = (f wk, ex @ gathered rows))"
proof (induction rows)
  case Nil
  show ?case using adds_nothing by (auto simp: elements_def gathered_def)
next
  case (Cons row rows)
  then obtain f where f: "adds (elements rows) f" "\<And>wk ex. fold ttypRow rows (wk, ex) = (f wk, ex @ gathered rows)" by blast
  show ?case
  proof (cases "\<exists>t rest. row = t # ''E'' # rest \<and> t \<noteq> []")
    case True
    then obtain t rest where row: "row = t # ''E'' # rest" "t \<noteq> []" by blast
    have "adds (elements (row # rows)) (\<lambda>wk. f (addDep t ''DTEL'' ''DATA_ELEMENT'' wk))"
      using adds_comp [OF adds_dep [of t "''DTEL''" "''DATA_ELEMENT''"] f(1)] row by (simp add: elements_def)
    moreover have "fold ttypRow (row # rows) (wk, ex)
        = (f (addDep t ''DTEL'' ''DATA_ELEMENT'' wk), ex @ gathered (row # rows))" for wk ex
      by (simp add: row f(2) ttypRow_def gathered_def)
    ultimately show ?thesis by blast
  next
    case False
    have "adds (elements (row # rows)) f \<and> (\<forall>wk ex. fold ttypRow (row # rows) (wk, ex) = (f wk, ex @ gathered (row # rows)))"
    proof (cases row)
      case Nil
      then show ?thesis using f by (simp add: elements_def ttypRow_def gathered_def)
    next
      case t: (Cons t more)
      show ?thesis
      proof (cases more)
        case Nil
        then show ?thesis using f t by (simp add: elements_def ttypRow_def gathered_def)
      next
        case k: (Cons k rest)
        with t False have "t = [] \<or> k \<noteq> ''E''" by auto
        then show ?thesis using f t k by (elim disjE) (simp_all add: elements_def ttypRow_def gathered_def)
      qed
    qed
    then show ?thesis by blast
  qed
qed

lemma ttyp_mentions:
  "set (mentions ''TTYP'' rows) = set (elements rows) \<union> {(''TABL'', n) |n. n \<in> set (gathered rows)}"
proof (induction rows)
  case (Cons row rows)
  have "set (nonempty (row_mentions ''TTYP'' row)) = set (elements [row]) \<union> {(''TABL'', n) |n. n \<in> set (gathered [row])}"
  proof (cases row)
    case t: (Cons t more)
    then show ?thesis by (cases more) (auto simp: nonempty_def row_mentions_def elements_def gathered_def)
  qed (simp add: nonempty_def row_mentions_def elements_def gathered_def)
  moreover have "mentions ''TTYP'' (row # rows) = nonempty (row_mentions ''TTYP'' row) @ mentions ''TTYP'' rows"
    "elements (row # rows) = elements [row] @ elements rows" "gathered (row # rows) = gathered [row] @ gathered rows"
    by (simp_all add: mentions_rows elements_def gathered_def)
  ultimately show ?case using Cons by auto
qed (simp add: mentions_def elements_def gathered_def)

lemma handles_tabl:
  "handles ''TABL'' (\<lambda>rows. apfst (\<lambda>wk. capWarning rows (fold tablRow rows wk))) (mentions ''TABL'') (\<lambda>_. [])"
proof -
  have "adds (mentions ''TABL'' rows) (\<lambda>wk. capWarning rows (fold tablRow rows wk))" for rows
    using adds_comp [OF adds_fold [of "\<lambda>row. nonempty (row_mentions ''TABL'' row)", OF adds_tabl] adds_cap]
    by (simp add: mentions_rows)
  then show ?thesis unfolding handles_def by auto
qed

lemma handles_first:
  assumes "\<And>row. row_mentions typ row = (case row of [] \<Rightarrow> [] | n # _ \<Rightarrow> [(typ2, n)])"
  shows "handles typ (\<lambda>rows. apfst (fold (firstRow typ2 use) rows)) (mentions typ) (\<lambda>_. [])"
proof -
  have "(\<lambda>row. nonempty (row_mentions typ row)) = (\<lambda>row. case row of [] \<Rightarrow> [] | n # _ \<Rightarrow> nonempty [(typ2, n)])"
    by (auto simp: assms nonempty_def split: list.splits)
  then have "adds (mentions typ rows) (fold (firstRow typ2 use) rows)" for rows
    using adds_fold [OF adds_first [of typ2 _ "use"]] by (simp add: mentions_rows)
  then show ?thesis unfolding handles_def by auto
qed

lemma handles_ttyp: "handles ''TTYP'' (fold ttypRow) elements gathered"
  unfolding handles_def
proof
  fix rows
  from ttypRows obtain f where "adds (elements rows) f"
    "\<forall>wk ex. fold ttypRow rows (wk, ex) = (f wk, ex @ gathered rows)" by metis
  with ttyp_mentions show "\<exists>f. adds (elements rows) f \<and> (\<forall>wk ex. fold ttypRow rows (wk, ex) = (f wk, ex @ gathered rows))
      \<and> set (mentions ''TTYP'' rows) = set (elements rows) \<union> {(''TABL'', n) |n. n \<in> set (gathered rows)}"
    by (intro exI [of _ f] conjI) simp_all
qed

section \<open>One level\<close>

text \<open>A look-up of the objects \<open>names\<close> of one type, from the inside of a level.\<close>

definition looks_up :: "'w env \<Rightarrow> string \<Rightarrow> string list \<Rightarrow> (ddic_walk \<Rightarrow> ('w, ddic_walk) go) \<Rightarrow> bool" where
  "looks_up E typ names m \<longleftrightarrow> (\<forall>start Old R wk s wk' s'. run_state (m wk) s = (Inr wk', s') \<longrightarrow> good start Old R wk
     \<longrightarrow> refs E `` (Pair typ ` set names) \<subseteq> R
     \<longrightarrow> good start Old R wk' \<and> grows wk wk'
       \<and> list_all (\<lambda>n. looked_up E (set (wk_visited wk')) (set (wk_warnings wk')) (typ, n)) names)"

lemma looks_upD:
  assumes "looks_up E typ names m" and "run_state (m wk) s = (Inr wk', s')" and "good start Old R wk"
    and "refs E `` (Pair typ ` set names) \<subseteq> R"
  shows "good start Old R wk'" "grows wk wk'"
    "list_all (\<lambda>n. looked_up E (set (wk_visited wk')) (set (wk_warnings wk')) (typ, n)) names"
  using assms unfolding looks_up_def by blast+

lemma may_meet_chunk:
  assumes "refs E `` (Pair typ ` set names) \<subseteq> R" and "typ \<in> set ddicTypes"
  shows "list_all (may_meet E typ R) (chunkNames names b)"
  unfolding list_all_iff
proof
  fix c assume c: "c \<in> set (chunkNames names b)"
  then have "c \<noteq> []" using chunkNames_fitting [of b names] by (auto simp: list_all_iff fitting_def)
  then have hd: "hd c \<in> set c" by simp
  with c have "hd c \<in> set names" using chunk_members by blast
  show "may_meet E typ R c"
    unfolding may_meet_def
  proof (intro allI impI subsetI)
    fix m s qr s' y
    assume "run_state (RunQuery E (type_query typ c) m) s = (Inr qr, s')" "y \<in> set (mentions typ (qr_rows qr))"
    with assms(2) hd have "((typ, hd c), y) \<in> refs E" by (rule refsI)
    with assms(1) \<open>hd c \<in> set names\<close> show "y \<in> R" by auto
  qed
qed

lemma batch_looked_up:
  assumes "list_all (batch_done E typ M G wk ex) (chunkNames names b)" and "n \<in> set names"
    and "\<And>rows. set (mentions typ rows) = set (M rows) \<union> {(''TABL'', n) |n. n \<in> set (G rows)}"
    and "\<And>rows n. n \<in> set (G rows) \<Longrightarrow> n \<in> set ex \<Longrightarrow> (''TABL'', n) \<in> V"
    and "set (wk_visited wk) \<subseteq> V" and "set (wk_warnings wk) \<subseteq> W"
  shows "looked_up E V W (typ, n)"
proof -
  obtain c where c: "c \<in> set (chunkNames names b)" "n \<in> set c" using assms(2) chunk_members by blast
  with assms(1) have "batch_done E typ M G wk ex c" by (simp add: list_all_iff)
  then obtain m s r s' where r: "run_state (RunQuery E (type_query typ c) m) s = (r, s')"
    "case r of Inr qr \<Rightarrow> set (M (qr_rows qr)) \<subseteq> set (wk_visited wk) \<and> set (G (qr_rows qr)) \<subseteq> set ex
       | Inl e \<Rightarrow> catalogue typ @ '' query failed: '' @ err_text e \<in> set (wk_warnings wk)"
    by (auto simp: batch_done_def)
  from r(2) assms(4-6) have "case r of Inr qr \<Rightarrow> set (mentions typ (qr_rows qr)) \<subseteq> V
       | Inl e \<Rightarrow> catalogue typ @ '' query failed: '' @ err_text e \<in> W"
    by (cases r) (auto simp: assms(3))
  with c(2) r(1) show ?thesis by (rule looked_upI)
qed

lemma looks_up_plain:
  assumes "handles typ onRows (mentions typ) (\<lambda>_. [])" and "typ \<in> set ddicTypes"
  shows "looks_up E typ names (\<lambda>wk. tryE (queryChunks E (catalogue typ) (type_query typ) mr onRows
     (chunkNames names ddicInListMaxBytes) (wk, [])) (\<lambda>st. ok (fst st)))"
  unfolding looks_up_def
proof (intro allI impI)
  fix start Old R wk s wk' s'
  assume run: "run_state (tryE (queryChunks E (catalogue typ) (type_query typ) mr onRows
     (chunkNames names ddicInListMaxBytes) (wk, [])) (\<lambda>st. ok (fst st))) s = (Inr wk', s')"
    and g: "good start Old R wk" and sub: "refs E `` (Pair typ ` set names) \<subseteq> R"
  from run obtain ex where q: "run_state (queryChunks E (catalogue typ) (type_query typ) mr onRows
     (chunkNames names ddicInListMaxBytes) (wk, [])) s = (Inr (wk', ex), s')"
    by (auto simp: run_tryw split: prod.splits sum.splits)
  have did: "good start Old R wk' \<and> grows wk wk' \<and> list_all (batch_done E typ (mentions typ) (\<lambda>_. []) wk' ex)
      (chunkNames names ddicInListMaxBytes)"
    using queryChunks_does [OF assms(1) q g may_meet_chunk [OF sub assms(2)]] by simp
  have "looked_up E (set (wk_visited wk')) (set (wk_warnings wk')) (typ, n)" if "n \<in> set names" for n
    by (rule batch_looked_up [OF did [THEN conjunct2, THEN conjunct2] that]) simp_all
  then have "list_all (\<lambda>n. looked_up E (set (wk_visited wk')) (set (wk_warnings wk')) (typ, n)) names"
    by (simp add: list_all_iff)
  with did show "good start Old R wk' \<and> grows wk wk'
       \<and> list_all (\<lambda>n. looked_up E (set (wk_visited wk')) (set (wk_warnings wk')) (typ, n)) names" by blast
qed

lemma addClassified_does:
  "run_state (addClassified E cs wk) s = (Inr wk', s') \<Longrightarrow> good start Old R wk
     \<Longrightarrow> {(''TABL'', n) |n. n \<in> set (concat cs)} \<subseteq> R
     \<Longrightarrow> good start Old R wk' \<and> grows wk wk'
       \<and> {(''TABL'', n) |n. n \<in> set (concat cs) \<and> n \<noteq> []} \<subseteq> set (wk_visited wk')"
proof (induction cs arbitrary: wk s)
  case (Cons c cs)
  from Cons.prems(1) obtain m s1 where
    run: "run_state (addClassified E cs (fold (\<lambda>n. addDep n ''TABL'' (useOf m n)) c wk)) s1 = (Inr wk', s')"
    by (auto simp: run_tryw split: prod.splits sum.splits)
  let ?f = "fold (\<lambda>n. addDep n ''TABL'' (useOf m n)) c" and ?xs = "concat (map (\<lambda>n. if n = [] then [] else [(''TABL'', n)]) c)"
  have f: "adds ?xs ?f" by (rule adds_fold) (rule adds_dep)
  have xs: "set ?xs = {(''TABL'', n) |n. n \<in> set c \<and> n \<noteq> []}" by auto
  with Cons.prems(3) have "set ?xs \<subseteq> R" by auto
  with f Cons.prems(2) have g: "good start Old R (?f wk)" by (rule adds_good)
  from Cons.IH [OF run g] Cons.prems(3) have IH: "good start Old R wk' \<and> grows (?f wk) wk'
       \<and> {(''TABL'', n) |n. n \<in> set (concat cs) \<and> n \<noteq> []} \<subseteq> set (wk_visited wk')" by auto
  moreover have "{(''TABL'', n) |n. n \<in> set c \<and> n \<noteq> []} \<subseteq> set (wk_visited wk')"
    using adds_all [OF f, of wk] IH xs by (auto simp: grows_def)
  moreover have "{(''TABL'', n) |n. n \<in> set (concat (c # cs)) \<and> n \<noteq> []}
      = {(''TABL'', n) |n. n \<in> set c \<and> n \<noteq> []} \<union> {(''TABL'', n) |n. n \<in> set (concat cs) \<and> n \<noteq> []}" by auto
  ultimately show ?case using adds_grows [OF f, of wk] by (simp add: grows_trans)
qed simp

lemma looks_up_ttyp: "looks_up E ''TTYP'' names (ddicQueryTtyp E names)"
  unfolding looks_up_def
proof (intro allI impI)
  fix start Old R wk s wk' s'
  assume run: "run_state (ddicQueryTtyp E names wk) s = (Inr wk', s')"
    and g: "good start Old R wk" and sub: "refs E `` (Pair ''TTYP'' ` set names) \<subseteq> R"
  have t: "''TTYP'' \<in> set ddicTypes" by (simp add: ddicTypes_def)
  from run obtain wk1 ex s1 where q: "run_state (queryChunks E (catalogue ''TTYP'') (type_query ''TTYP'') (\<lambda>c. int (length c))
      (fold ttypRow) (chunkNames names ddicInListMaxBytes) (wk, [])) s = (Inr (wk1, ex), s1)"
    and cl: "run_state (addClassified E (chunkNames ex ddicInListMaxBytes) wk1) s1 = (Inr wk', s')"
    by (auto simp: ddicQueryTtyp_def run_tryw catalogue_def type_query_def split: prod.splits sum.splits)
  note did = queryChunks_does [OF handles_ttyp q g may_meet_chunk [OF sub t]]
  then have did: "good start Old R wk1" "grows wk wk1" "{(''TABL'', n) |n. n \<in> set ex} \<subseteq> R"
    "list_all (batch_done E ''TTYP'' elements gathered wk1 ex) (chunkNames names ddicInListMaxBytes)" by simp_all
  have cls: "good start Old R wk' \<and> grows wk1 wk' \<and> {(''TABL'', n) |n. n \<in> set ex \<and> n \<noteq> []} \<subseteq> set (wk_visited wk')"
    using addClassified_does [OF cl did(1)] did(3) by simp
  have "looked_up E (set (wk_visited wk')) (set (wk_warnings wk')) (''TTYP'', n)" if "n \<in> set names" for n
  proof (rule batch_looked_up [OF did(4) that ttyp_mentions])
    fix rows n assume "n \<in> set (gathered rows)" "n \<in> set ex"
    moreover from this(1) have "n \<noteq> []" by (auto simp: gathered_def split: list.splits if_splits)
    ultimately show "(''TABL'', n) \<in> set (wk_visited wk')" using cls by auto
  qed (use cls in \<open>auto simp: grows_def\<close>)
  with cls did(2) show "good start Old R wk' \<and> grows wk wk'
       \<and> list_all (\<lambda>n. looked_up E (set (wk_visited wk')) (set (wk_warnings wk')) (''TTYP'', n)) names"
    by (auto simp: list_all_iff intro: grows_trans)
qed

lemma looks_up_queries:
  "looks_up E ''TABL'' names (ddicQueryTabl E names)" "looks_up E ''DTEL'' names (ddicQueryDtel E names)"
  "looks_up E ''DOMA'' names (ddicQueryDoma E names)"
proof -
  note d = ddicTypes_def type_query_def catalogue_def
  show "looks_up E ''TABL'' names (ddicQueryTabl E names)"
    using looks_up_plain [OF handles_tabl, of E names] by (simp add: d ddicQueryTabl_def [abs_def])
  have "handles ''DTEL'' (\<lambda>rows. apfst (fold (firstRow ''DOMA'' ''DOMAIN'') rows)) (mentions ''DTEL'') (\<lambda>_. [])"
    by (rule handles_first) (simp add: row_mentions_def)
  from looks_up_plain [OF this, of E names] show "looks_up E ''DTEL'' names (ddicQueryDtel E names)"
    by (simp add: d ddicQueryDtel_def [abs_def])
  have "handles ''DOMA'' (\<lambda>rows. apfst (fold (firstRow ''TABL'' ''TABLE'') rows)) (mentions ''DOMA'') (\<lambda>_. [])"
    by (rule handles_first) (simp add: row_mentions_def)
  from looks_up_plain [OF this, of E names] show "looks_up E ''DOMA'' names (ddicQueryDoma E names)"
    by (simp add: d ddicQueryDoma_def [abs_def])
qed

lemma looks_up_group:
  assumes "looks_up E typ names (query E names)"
  shows "looks_up E typ names (ddicGroup query E names)"
  using assms unfolding looks_up_def ddicGroup_def by auto

text \<open>The four groups of a level one after the other.\<close>

definition level_nodes :: "node list \<Rightarrow> node set" where
  "level_nodes current = {x \<in> set current. fst x \<in> set ddicTypes}"

lemma namesOf_pairs: "Pair typ ` set (namesOf typ current) = {x \<in> set current. fst x = typ}"
  by (force simp: namesOf_def image_iff)

lemma ddicLevel_does:
  assumes run: "run_state (ddicLevel E current wk) s = (Inr wk', s')" and g: "good start Old R wk"
    and sub: "refs E `` set current \<subseteq> R"
  shows "good start Old R wk' \<and> grows wk wk'
     \<and> list_all (looked_up E (set (wk_visited wk')) (set (wk_warnings wk'))) current"
proof -
  from run obtain w1 s1 w2 s2 w3 s3 where runs:
    "run_state (ddicGroup ddicQueryTabl E (namesOf ''TABL'' current) wk) s = (Inr w1, s1)"
    "run_state (ddicGroup ddicQueryDtel E (namesOf ''DTEL'' current) w1) s1 = (Inr w2, s2)"
    "run_state (ddicGroup ddicQueryDoma E (namesOf ''DOMA'' current) w2) s2 = (Inr w3, s3)"
    "run_state (ddicGroup ddicQueryTtyp E (namesOf ''TTYP'' current) w3) s3 = (Inr wk', s')"
    by (auto simp: ddicLevel_def run_tryw split: prod.splits sum.splits)
  have part: "refs E `` (Pair typ ` set (namesOf typ current)) \<subseteq> R" for "typ"
    unfolding namesOf_pairs using sub by blast
  note l1 = looks_upD [OF looks_up_group [OF looks_up_queries(1)] runs(1) g part]
  note l2 = looks_upD [OF looks_up_group [OF looks_up_queries(2)] runs(2) l1(1) part]
  note l3 = looks_upD [OF looks_up_group [OF looks_up_queries(3)] runs(3) l2(1) part]
  note l4 = looks_upD [OF looks_up_group [OF looks_up_ttyp] runs(4) l3(1) part]
  have gr: "grows w3 wk'" "grows w2 wk'" "grows w1 wk'" "grows wk wk'"
    using l1(2) l2(2) l3(2) l4(2) by (blast intro: grows_trans)+
  have "looked_up E (set (wk_visited wk')) (set (wk_warnings wk')) x" if x: "x \<in> set current" for x
  proof -
    obtain "typ" n where p: "x = (typ, n)" by fastforce
    have n: "n \<in> set (namesOf typ current)" using x p by (force simp: namesOf_def)
    consider "typ = ''TABL''" | "typ = ''DTEL''" | "typ = ''DOMA''" | "typ = ''TTYP''" | "typ \<notin> set ddicTypes"
      by (auto simp: ddicTypes_def)
    then show ?thesis
    proof cases
      case 1
      then have "looked_up E (set (wk_visited w1)) (set (wk_warnings w1)) x" using l1(3) n p by (simp add: list_all_iff)
      then show ?thesis by (rule looked_up_mono) (use gr(3) in \<open>auto simp: grows_def\<close>)
    next
      case 2
      then have "looked_up E (set (wk_visited w2)) (set (wk_warnings w2)) x" using l2(3) n p by (simp add: list_all_iff)
      then show ?thesis by (rule looked_up_mono) (use gr(2) in \<open>auto simp: grows_def\<close>)
    next
      case 3
      then have "looked_up E (set (wk_visited w3)) (set (wk_warnings w3)) x" using l3(3) n p by (simp add: list_all_iff)
      then show ?thesis by (rule looked_up_mono) (use gr(1) in \<open>auto simp: grows_def\<close>)
    next
      case 4
      then show ?thesis using l4(3) n p by (simp add: list_all_iff)
    qed (simp add: looked_up_def p)
  qed
  with l4(1) gr(4) show ?thesis by (simp add: list_all_iff)
qed

section \<open>The whole walk\<close>

text \<open>
  The state between two levels: \<open>k\<close> levels are done, the nodes \<open>front\<close> are \<open>k\<close> references from the start
  and not yet looked up, all others are.
\<close>

definition between :: "'w env \<Rightarrow> node \<Rightarrow> nat \<Rightarrow> node set \<Rightarrow> ddic_walk \<Rightarrow> bool" where
  "between E start k front wk \<longleftrightarrow> distinct (wk_visited wk)
     \<and> (\<exists>keys. wk_visited wk = rev keys @ [start] \<and> map snd keys = map od_name (wk_deps wk))
     \<and> front \<subseteq> set (wk_visited wk) \<and> (\<forall>x \<in> front. (start, x) \<in> refs E ^^ k)
     \<and> (\<forall>x \<in> set (wk_visited wk). \<exists>i \<le> k. (start, x) \<in> refs E ^^ i)
     \<and> (\<forall>x \<in> set (wk_visited wk) - front. looked_up E (set (wk_visited wk)) (set (wk_warnings wk)) x)"

lemma between_finished: "between E start k {} wk \<Longrightarrow> k \<le> k' \<Longrightarrow> between E start k' {} wk"
  unfolding between_def by (meson empty_iff order_trans)

lemma between_level:
  assumes b: "between E start k (set current) wk"
    and run: "run_state (ddicLevel E current (wk\<lparr>wk_next := []\<rparr>)) s = (Inr wk', s')"
  shows "between E start (Suc k) (set (wk_next wk')) wk'"
proof -
  let ?R = "refs E `` set current" and ?Old = "set (wk_visited wk)"
  have "good start ?Old ?R (wk\<lparr>wk_next := []\<rparr>)" using b by (auto simp: between_def good_def)
  from ddicLevel_does [OF run this] have did: "good start ?Old ?R wk'" "grows (wk\<lparr>wk_next := []\<rparr>) wk'"
    "list_all (looked_up E (set (wk_visited wk')) (set (wk_warnings wk'))) current" by simp_all
  have far: "(start, x) \<in> refs E ^^ Suc k" if "x \<in> set (wk_next wk')" for x
  proof -
    from that did(1) obtain c where c: "c \<in> set current" "(c, x) \<in> refs E" unfolding good_def by blast
    from c(1) b have "(start, c) \<in> refs E ^^ k" unfolding between_def by blast
    from relpow_Suc_I [OF this c(2)] show ?thesis .
  qed
  have vis: "set (wk_visited wk') = ?Old \<union> set (wk_next wk')" using did(1) by (simp add: good_def)
  have known: "looked_up E (set (wk_visited wk')) (set (wk_warnings wk')) x"
    if "x \<in> set (wk_visited wk') - set (wk_next wk')" for x
  proof (cases "x \<in> set current")
    case False
    with that vis b have "looked_up E (set (wk_visited wk)) (set (wk_warnings wk)) x" by (auto simp: between_def)
    then show ?thesis by (rule looked_up_mono) (use did(2) in \<open>auto simp: grows_def\<close>)
  qed (use did(3) in \<open>simp add: list_all_iff\<close>)
  have near: "\<exists>i \<le> Suc k. (start, x) \<in> refs E ^^ i" if "x \<in> set (wk_visited wk')" for x
  proof (cases "x \<in> set (wk_next wk')")
    case False
    with that vis b obtain i where "i \<le> k" "(start, x) \<in> refs E ^^ i" unfolding between_def by blast
    then show ?thesis by (intro exI [of _ i]) simp
  qed (use far in blast)
  have shape: "distinct (wk_visited wk')"
    "\<exists>keys. wk_visited wk' = rev keys @ [start] \<and> map snd keys = map od_name (wk_deps wk')"
    using did(1) by (simp_all add: good_def)
  show ?thesis
    unfolding between_def
    by (intro conjI ballI) (fact shape, fact shape, use vis in blast, erule far, erule near, erule known)
qed

lemma ddicWalk_does:
  "run_state (ddicWalk E depth current wk) s = (Inr wk', s') \<Longrightarrow> between E start k (set current) wk
     \<Longrightarrow> \<exists>front. between E start (k + depth) front wk'"
proof (induction depth arbitrary: current wk s k)
  case (Suc depth)
  show ?case
  proof (cases "current = []")
    case True
    with Suc.prems have "between E start k {} wk'" by simp
    then have "between E start (k + Suc depth) {} wk'" by (rule between_finished) simp
    then show ?thesis by blast
  next
    case False
    with Suc.prems(1) obtain wk1 s1 where runs: "run_state (ddicLevel E current (wk\<lparr>wk_next := []\<rparr>)) s = (Inr wk1, s1)"
      "run_state (ddicWalk E depth (wk_next wk1) wk1) s1 = (Inr wk', s')"
      by (auto simp: run_tryw split: prod.splits sum.splits)
    from Suc.IH [OF runs(2) between_level [OF Suc.prems(2) runs(1)]] show ?thesis by simp
  qed
qed auto

section \<open>After a rejected credential\<close>

lemma rowsOrNone_stops [stops]: "stops401 unauth (rowsOrNone E sql n)"
  unfolding rowsOrNone_def
  by (rule stops401_bind [OF RunQuery_stops]) (auto split: sum.splits intro!: stops)

lemma classify_stops [stops]: "stops401 unauth (classifyDDICObjects E names)"
  unfolding classifyDDICObjects_def Let_def by (auto intro!: stops)

lemma queryChunks_stops [stops]: "stops401 unauth (queryChunks E table sql mr onRows cs st)"
proof (induction cs arbitrary: st)
  case (Cons c cs)
  show ?case unfolding queryChunks.simps
    by (rule stops401_bind [OF RunQuery_stops]) (auto split: sum.splits intro!: stops Cons.IH)
qed (auto intro: stops)

lemma addClassified_stops [stops]: "stops401 unauth (addClassified E cs wk)"
  by (induction cs arbitrary: wk) (auto intro!: stops)

lemma ddicLevel_stops [stops]: "stops401 unauth (ddicLevel E current wk)"
  unfolding ddicLevel_def ddicGroup_def ddicQueryTabl_def ddicQueryDtel_def ddicQueryDoma_def ddicQueryTtyp_def
  by (auto intro!: stops split: prod.splits)

lemma ddicWalk_stops [stops]: "stops401 unauth (ddicWalk E depth current wk)"
  by (induction depth arbitrary: current wk) (auto intro!: stops)

lemma flat_stops [stops]:
  "stops401 unauth (d010tabDeps E master n)" "stops401 unauth (ooDeps E cls rel)"
  "stops401 unauth (uiacDeps E cat n)" "stops401 unauth (uiadDeps E app)" "stops401 unauth (funcPoolProgramName E nm)"
  unfolding d010tabDeps_def ooDeps_def uiacDeps_def uiadDeps_def funcPoolProgramName_def Let_def
  by (auto intro!: stops split: list.splits)

lemma ddicChainDeps_stops [stops]: "stops401 unauth (ddicChainDeps E nm typ depth)"
  unfolding ddicChainDeps_def by (auto intro!: stops)

section \<open>Properties\<close>

text \<open>
  C12. The walk over the DDIC catalogue lists just what the references reach: the start and the listed nodes
  are all different, every listed node is at the end of a chain of at most \<open>depth\<close> references, and every
  node was itself looked up, with all it refers to listed or the failure among the warnings, except those
  \<open>front\<close> at the full depth.
\<close>

theorem dependencies_are_the_reachable:
  "case fst (run_state (ddicChainDeps E nm typ depth) s) of
     Inl _ \<Rightarrow> True
   | Inr (deps, warns) \<Rightarrow> \<exists>keys front. map snd keys = map od_name deps \<and> distinct ((typ, nm) # keys)
       \<and> list_all (\<lambda>x. ((typ, nm), x) \<in> (\<Union>i \<in> {..depth}. refs E ^^ i)) keys
       \<and> list_all (\<lambda>x. ((typ, nm), x) \<in> refs E ^^ depth) (filter (\<lambda>x. x \<in> front) ((typ, nm) # keys))
       \<and> list_all (\<lambda>x. x \<in> front \<or> looked_up E (set ((typ, nm) # keys)) (set warns) x) ((typ, nm) # keys)"
proof (cases "fst (run_state (ddicChainDeps E nm typ depth) s)")
  case (Inr p)
  let ?wk = "\<lparr>wk_visited = [(typ, nm)], wk_deps = [], wk_warnings = [], wk_next = []\<rparr>"
  obtain deps warns where p: "p = (deps, warns)" by fastforce
  from Inr p obtain wk s' where run: "run_state (ddicWalk E depth [(typ, nm)] ?wk) s = (Inr wk, s')"
    and res: "deps = wk_deps wk" "warns = wk_warnings wk"
    by (auto simp: ddicChainDeps_def run_tryw split: prod.splits sum.splits)
  have "between E (typ, nm) 0 (set [(typ, nm)]) ?wk" by (auto simp: between_def)
  from ddicWalk_does [OF run this] obtain front where b: "between E (typ, nm) depth front wk" by auto
  then obtain keys where keys: "wk_visited wk = rev keys @ [(typ, nm)]" "map snd keys = map od_name (wk_deps wk)"
    by (auto simp: between_def)
  have v: "set (wk_visited wk) = set ((typ, nm) # keys)" using keys(1) by auto
  have "distinct ((typ, nm) # keys)" using b keys(1) by (auto simp: between_def)
  moreover have "list_all (\<lambda>x. ((typ, nm), x) \<in> (\<Union>i \<in> {..depth}. refs E ^^ i)) keys"
    using b unfolding between_def v by (auto simp: list_all_iff)
  moreover have "list_all (\<lambda>x. ((typ, nm), x) \<in> refs E ^^ depth) (filter (\<lambda>x. x \<in> front) ((typ, nm) # keys))"
    using b unfolding between_def v list_all_iff set_filter by blast
  moreover have "list_all (\<lambda>x. x \<in> front \<or> looked_up E (set ((typ, nm) # keys)) (set (wk_warnings wk)) x) ((typ, nm) # keys)"
    using b unfolding between_def v list_all_iff by blast
  ultimately show ?thesis unfolding Inr p sum.case prod.case res using keys(2) by blast
qed simp


text \<open>
  Looking for dependencies ends with the first request SAP rejects: under Basic authentication nothing is
  sent after a 401, and the result is then an error that says so.
\<close>

theorem GetObjectDependencies_stops_at_401:
  "oauth s = None \<Longrightarrow> \<exists>es. wire (snd (run_state (GetObjectDependencies E objectType nm maxResults maxDepth) s)) = es @ wire s
     \<and> stopped unauth (fst (run_state (GetObjectDependencies E objectType nm maxResults maxDepth) s)) es"
proof -
  assume o: "oauth s = None"
  have "stops401 unauth (GetObjectDependencies E objectType nm maxResults maxDepth)"
    unfolding GetObjectDependencies_def pooledDeps_def Let_def by (auto intro!: stops)
  from stops401E [OF this surjective_pairing o] show ?thesis by metis
qed

theorem GetObjectDependencies_stops_at_401_witness:
  "\<exists>es. wire (snd (run_state (GetObjectDependencies scripted ''TABL'' ''ZT'' 0 3) (new_client [answer 401 []])))
       = es @ wire (new_client [answer 401 []])
     \<and> stopped unauth (fst (run_state (GetObjectDependencies scripted ''TABL'' ''ZT'' 0 3) (new_client [answer 401 []]))) es"
  by (rule GetObjectDependencies_stops_at_401) (simp add: new_client_def)

end
