(* ===== verification/UnitTest.thy ===== *)
theory UnitTest
  imports Activate
begin

text \<open>
  ABAP Unit (\<open>adt/unittest.go\<close>, \<open>adt/adtxml/unittest.go\<close>). The time limit of the context is inside
  \<open>send\<close>; an execution time stays the text SAP sent, and \<open>floatErr\<close> is the error of
  \<open>strconv.ParseFloat\<close> for it.
\<close>

record test_alert =
  ta_kind :: string
  ta_severity :: string
  ta_title :: string

record test_case =
  tc_name :: string
  tc_passed :: bool
  tc_messages :: "string list"
  tc_time :: string

record test_result =
  tr_passed :: nat
  tr_failed :: nat
  tr_errors :: int
  tr_cases :: "test_case list"
  tr_alerts :: "test_alert list"
  tr_inactive :: "string list"

section \<open>The request\<close>

definition runConfiguration :: "string \<Rightarrow> string" where
  "runConfiguration uri =
     xml_elem ''aunit:runConfiguration'' [(''xmlns:aunit'', ''http://www.sap.com/adt/aunit'')]
       (xml_elem ''external'' [] (xml_elem ''coverage'' [(''active'', ''false'')] [])
        @ xml_elem ''options'' []
            (xml_elem ''uriType'' [(''value'', ''semantic'')] []
             @ xml_elem ''testDeterminationStrategy''
                 [(''sameProgram'', ''true''), (''assignedTests'', ''false''), (''publicMethods'', ''false'')] []
             @ xml_elem ''testRiskLevels'' [(''harmless'', ''true''), (''dangerous'', ''true''), (''critical'', ''true'')] []
             @ xml_elem ''testDurations'' [(''short'', ''true''), (''medium'', ''true''), (''long'', ''true'')] [])
        @ xml_elem ''adtcore:objectSets'' [(''xmlns:adtcore'', nsADTCore)]
            (xml_elem ''objectSet'' [(''kind'', ''inclusive'')]
              (xml_elem ''adtcore:objectReferences'' []
                (xml_elem ''adtcore:objectReference'' [(''adtcore:uri'', uri)] []))))"

section \<open>The answer\<close>

text \<open>An \<open>int\<close> attribute as \<open>encoding/xml\<close> reads it: 0 when empty or missing.\<close>

definition xml_int :: "string \<Rightarrow> int option" where
  "xml_int s = (if s = [] then Some 0 else atoi (trim_space s))"

definition alertsOf :: "xml \<Rightarrow> test_alert list" where
  "alertsOf x = map (\<lambda>a. \<lparr>ta_kind = xml_attr a ''kind'', ta_severity = xml_attr a ''severity'', ta_title = kid_text ''title'' a\<rparr>)
     (kids_path [''alerts'', ''alert''] x)"

definition testClasses :: "xml \<Rightarrow> xml list" where
  "testClasses program = kids_path [''testClasses'', ''testClass''] program"

definition testMethods :: "xml \<Rightarrow> xml list" where
  "testMethods cls = kids_path [''testMethods'', ''testMethod''] cls"

definition testCase :: "xml \<Rightarrow> test_case" where
  "testCase m = \<lparr>tc_name = xml_attr m ''name'', tc_passed = (alertsOf m = []),
     tc_messages = map ta_title (alertsOf m), tc_time = xml_attr m ''executionTime''\<rparr>"

text \<open>The first value of the document that does not parse as a number.\<close>

definition numberErrors :: "(string \<Rightarrow> err option) \<Rightarrow> xml \<Rightarrow> err list" where
  "numberErrors floatErr x = concat (map (\<lambda>cls.
      concat (map (\<lambda>a. case xml_int (xml_attr cls a) of
          None \<Rightarrow> [Msg (''strconv.ParseInt: parsing '' @ quoted (trim_space (xml_attr cls a)))] | Some _ \<Rightarrow> [])
        [''failureCount'', ''errorCount''])
      @ concat (map (\<lambda>m. if xml_attr m ''executionTime'' = [] then []
          else (case floatErr (trim_space (xml_attr m ''executionTime'')) of None \<Rightarrow> [] | Some e \<Rightarrow> [e])) (testMethods cls)))
     (concat (map testClasses (kids_named ''program'' x))))"

definition decodeRunResult :: "'w env \<Rightarrow> (string \<Rightarrow> err option) \<Rightarrow> string \<Rightarrow> err + xml" where
  "decodeRunResult E floatErr data =
     (case unmarshal_root E ''runResult'' data of
        Inl e \<Rightarrow> Inl e
      | Inr x \<Rightarrow> (case numberErrors floatErr x of [] \<Rightarrow> Inr x | e # _ \<Rightarrow> Inl e))"

definition addClass :: "test_result \<Rightarrow> xml \<Rightarrow> test_result" where
  "addClass res cls =
     (let cases = map testCase (testMethods cls) in
      res\<lparr>tr_alerts := tr_alerts res @ alertsOf cls, tr_cases := tr_cases res @ cases,
        tr_passed := tr_passed res + length (filter tc_passed cases),
        tr_failed := tr_failed res + length (filter (\<lambda>c. \<not> tc_passed c) cases),
        tr_errors := tr_errors res + the (xml_int (xml_attr cls ''errorCount''))\<rparr>)"

definition addProgram :: "test_result \<Rightarrow> xml \<Rightarrow> test_result" where
  "addProgram res program =
     foldl addClass (res\<lparr>tr_alerts := tr_alerts res @ alertsOf program\<rparr>) (testClasses program)"

definition collectTests :: "xml \<Rightarrow> test_result" where
  "collectTests x = foldl addProgram
     \<lparr>tr_passed = 0, tr_failed = 0, tr_errors = 0, tr_cases = [], tr_alerts = alertsOf x, tr_inactive = []\<rparr>
     (kids_named ''program'' x)"

definition relatedInactiveURIs :: "'w env \<Rightarrow> string \<Rightarrow> ('w cl, string list) state" where
  "relatedInactiveURIs E uri =
     (if normalizeObjectURI uri = [] then State_Monad.return []
      else State_Monad.bind (GetInactiveObjects E) (\<lambda>r. State_Monad.return (case r of
          Inl _ \<Rightarrow> []
        | Inr inactive \<Rightarrow> filter (objectURIMatches uri) (map oi_uri inactive))))"

definition RunUnitTests :: "'w env \<Rightarrow> (string \<Rightarrow> err option) \<Rightarrow> string \<Rightarrow> ('w, test_result) go" where
  "RunUnitTests E floatErr uri =
     tryE (checked E (wrapf ''RunUnitTests: '') (\<lambda>e. e) (doMutateLong E ''POST'' ''/sap/bc/adt/abapunit/testruns''
        (Some (xml_header @ runConfiguration uri)) [(''Content-Type'', contentTypeXML), (''Accept'', contentTypeXML)])) (\<lambda>resp.
     tryw (wrapf ''RunUnitTests reading body: '') (of_sum (read_all resp)) (\<lambda>data.
       if trim_space data = [] then fail (Msg ''RunUnitTests: empty response body'')
       else tryw (wrapf ''RunUnitTests parsing: '') (of_sum (decodeRunResult E floatErr data)) (\<lambda>x.
         (let result = collectTests x in
          if tr_cases result \<noteq> [] then ok result
          else State_Monad.bind (relatedInactiveURIs E uri) (\<lambda>uris. ok (result\<lparr>tr_inactive := uris\<rparr>))))))"

section \<open>Counting\<close>

definition test_counts :: "test_result \<Rightarrow> bool" where
  "test_counts res \<longleftrightarrow> tr_passed res = length (filter tc_passed (tr_cases res))
     \<and> tr_failed res = length (filter (\<lambda>c. \<not> tc_passed c) (tr_cases res))
     \<and> list_all (\<lambda>c. tc_passed c \<longleftrightarrow> tc_messages c = []) (tr_cases res)"

lemma addClass_counts: "test_counts res \<Longrightarrow> test_counts (addClass res cls)"
  by (auto simp: test_counts_def addClass_def Let_def list_all_iff testCase_def)

lemma foldl_counts: "(\<And>r x. test_counts r \<Longrightarrow> test_counts (f r x)) \<Longrightarrow> test_counts r \<Longrightarrow> test_counts (foldl f r xs)"
  by (induction xs arbitrary: r) auto

lemma addProgram_counts: "test_counts res \<Longrightarrow> test_counts (addProgram res program)"
  unfolding addProgram_def
  by (rule foldl_counts [OF addClass_counts]) (auto simp: test_counts_def)

lemma collectTests_counts: "test_counts (collectTests x)"
  unfolding collectTests_def
  by (rule foldl_counts [OF addProgram_counts]) (auto simp: test_counts_def)

lemma RunUnitTests_halts: "stops401 (\<lambda>_. True) (RunUnitTests E floatErr uri)"
  unfolding RunUnitTests_def Let_def relatedInactiveURIs_def
  by (rule stops401_tryw_gen, rule checked_stops [OF doMutate_stops(2)])
    (auto intro!: stops stops401_tryw_gen [OF stops401_pure(3)] stops401_bind [of "\<lambda>_. True"]
       stops401_weaken [OF GetInactiveObjects_stops] split: sum.splits)

lemma RunUnitTests_yields:
  "yields (\<lambda>r. case r of Inl _ \<Rightarrow> True | Inr res \<Rightarrow> test_counts res \<and> (tr_inactive res = [] \<or> tr_cases res = []))
     (RunUnitTests E floatErr uri)"
proof -
  have silent_inactive: "tr_inactive (collectTests x) = []" for x
  proof -
    have "tr_inactive (addClass r c) = tr_inactive r" for r c
      by (simp add: addClass_def Let_def)
    then have "tr_inactive (foldl addClass r cs) = tr_inactive r" for r cs
      by (induction cs arbitrary: r) auto
    then have "tr_inactive (addProgram r p) = tr_inactive r" for r p
      by (simp add: addProgram_def)
    then have "tr_inactive (foldl addProgram r ps) = tr_inactive r" for r ps
      by (induction ps arbitrary: r) auto
    then show ?thesis by (simp add: collectTests_def)
  qed
  have more: "test_counts (r\<lparr>tr_inactive := us\<rparr>) = test_counts r" for r us
    by (simp add: test_counts_def)
  show ?thesis
    unfolding RunUnitTests_def tryw_def Let_def
    by (auto intro!: yields_bind_any yields_intro split: sum.splits simp: collectTests_counts silent_inactive more)
qed

text \<open>
  The counters of a unit test run are those of its test cases: passed and failed add up to the
  cases with and without a message, and inactive objects are only named for a run without test cases.
\<close>

theorem RunUnitTests_counts:
  "case fst (run_state (RunUnitTests E floatErr uri) s) of
     Inl _ \<Rightarrow> True
   | Inr res \<Rightarrow> test_counts res \<and> (tr_inactive res = [] \<or> tr_cases res = [])"
  using RunUnitTests_yields by (auto simp: yields_def)

end
