(* ===== verification/Debugger.thy ===== *)
theory Debugger
  imports UnitTest Sessions
begin

text \<open>
  Debug sessions (\<open>adt/debugger.go\<close>, \<open>adt/debugger_vars.go\<close> and their documents in \<open>adt/adtxml\<close>):
  breakpoints and their results, the listener, attaching and stepping with the repetition of a failed
  step, the call stack, variables and the pages of an internal table. A debug session is a client of its
  own (\<open>freshSession\<close>), so its operations run on a client state like those of any client.
\<close>

section \<open>The session\<close>

record debug_session =
  ds_user :: string
  ds_terminal :: string
  ds_ide :: string

text \<open>The session and the client it works on, from the client it is derived from.\<close>

definition NewDebugSession :: "string \<Rightarrow> string list \<Rightarrow> 'w cl \<Rightarrow> debug_session \<times> 'w cl" where
  "NewDebugSession user ideID s =
     (\<lparr>ds_user = to_upper user, ds_terminal = ''MCP01'',
        ds_ide = (case ideID of i # _ \<Rightarrow> if i \<noteq> [] then i else ''go-sap-adt'' | [] \<Rightarrow> ''go-sap-adt'')\<rparr>, freshSession s)"

definition stateful :: "(string \<times> string) list" where
  "stateful = [(''X-sap-adt-sessiontype'', ''stateful'')]"

section \<open>Reading numbers and lists from documents\<close>

text \<open>\<open>strconv.ParseBool\<close> on an attribute; an empty or missing one is false.\<close>

definition xml_bool :: "string \<Rightarrow> bool option" where
  "xml_bool v =
     (let b = trim_space v in
      if v = [] then Some False
      else if b \<in> {''1'', ''t'', ''T'', ''TRUE'', ''true'', ''True''} then Some True
      else if b \<in> {''0'', ''f'', ''F'', ''FALSE'', ''false'', ''False''} then Some False
      else None)"

definition read_int :: "string \<Rightarrow> err + int" where
  "read_int v = (case xml_int v of
     Some n \<Rightarrow> Inr n | None \<Rightarrow> Inl (Msg (''strconv.ParseInt: parsing '' @ quoted (trim_space v) @ '': invalid syntax'')))"

definition read_bool :: "string \<Rightarrow> err + bool" where
  "read_bool v = (case xml_bool v of
     Some b \<Rightarrow> Inr b | None \<Rightarrow> Inl (Msg (''strconv.ParseBool: parsing '' @ quoted (trim_space v) @ '': invalid syntax'')))"

definition and_then :: "err + 'a \<Rightarrow> ('a \<Rightarrow> err + 'b) \<Rightarrow> err + 'b" where
  "and_then r k = (case r of Inl e \<Rightarrow> Inl e | Inr x \<Rightarrow> k x)"

text \<open>One value after the other, up to the first that cannot be read.\<close>

fun read_each :: "('a \<Rightarrow> err + 'b) \<Rightarrow> 'a list \<Rightarrow> err + 'b list" where
  "read_each f [] = Inr []"
| "read_each f (x # xs) = and_then (f x) (\<lambda>y. and_then (read_each f xs) (\<lambda>ys. Inr (y # ys)))"

text \<open>An \<open>int\<close> field filled by elements: each is read, the last one counts.\<close>

definition kid_int :: "string \<Rightarrow> xml \<Rightarrow> err + int" where
  "kid_int n x = and_then (read_each read_int (map xml_text (kids_named n x)))
     (\<lambda>ns. Inr (if ns = [] then 0 else last ns))"

section \<open>Breakpoints\<close>

definition BreakpointScopeExternal :: string where "BreakpointScopeExternal = ''external''"

definition BreakpointScopeDebugger :: string where "BreakpointScopeDebugger = ''debugger''"

definition maxBreakpointsPerRequest :: nat where "maxBreakpointsPerRequest = 30"

record line_breakpoint =
  lb_uri :: string
  lb_line :: int
  lb_type :: string
  lb_name :: string

record breakpoint_result =
  bp_id :: string
  bp_kind :: string
  bp_message :: string

definition IsSet :: "breakpoint_result \<Rightarrow> bool" where
  "IsSet r \<longleftrightarrow> bp_id r \<noteq> [] \<and> bp_kind r = [] \<and> bp_message r = []"

definition errNoBreakpointResult :: string where
  "errNoBreakpointResult = ''not set: SAP returned no result for this breakpoint''"

definition adtExceptionSubtypeKey :: string where
  "adtExceptionSubtypeKey = ''com.sap.adt.communicationFramework.subType''"

definition checkBreakpointScope :: "string \<Rightarrow> err option" where
  "checkBreakpointScope scope =
     (if scope = BreakpointScopeExternal \<or> scope = BreakpointScopeDebugger then None
      else Some (Msg (''unknown breakpoint scope '' @ quoted scope)))"

definition breakpointHeaders :: "string \<Rightarrow> (string \<times> string) list \<Rightarrow> (string \<times> string) list" where
  "breakpointHeaders scope headers =
     (if scope \<noteq> BreakpointScopeDebugger then headers else stateful @ headers)"

definition wrapNoSessionAttached :: "err \<Rightarrow> err" where
  "wrapNoSessionAttached e = (case as_adt e of
      Some a \<Rightarrow> if property a adtExceptionSubtypeKey = ''noSessionAttached''
        then Wrap2 [] (Sentinel ErrNoSessionAttached) '': '' e else e
    | None \<Rightarrow> e)"

text \<open>\<open>BreakpointRequest.MarshalXML\<close>: the \<open>i\<close>-th breakpoint carries \<open>i\<close> as its client ID.\<close>

definition nsDebugger :: string where "nsDebugger = ''http://www.sap.com/adt/debugger''"

definition breakpointXML :: "nat \<Rightarrow> line_breakpoint \<Rightarrow> string" where
  "breakpointXML i b = xml_elem ''breakpoint'' ([(''kind'', ''line'')] @ opt_attr ''clientId'' (itoa (int i))
     @ [(''adtcore:uri'', lb_uri b @ ''#start='' @ itoa (lb_line b) @ '',0'')]
     @ opt_attr ''adtcore:type'' (lb_type b) @ opt_attr ''adtcore:name'' (lb_name b)) []"

definition breakpointsXML :: "debug_session \<Rightarrow> string \<Rightarrow> line_breakpoint list \<Rightarrow> string" where
  "breakpointsXML d scope bps =
     xml_elem ''dbg:breakpoints'' ([(''xmlns:dbg'', nsDebugger), (''xmlns:adtcore'', nsADTCore)]
         @ opt_attr ''scope'' scope @ opt_attr ''debuggingMode'' ''user'' @ opt_attr ''requestUser'' (ds_user d)
         @ opt_attr ''terminalId'' (ds_terminal d) @ opt_attr ''ideId'' (ds_ide d))
       (concat (map (\<lambda>(i, b). breakpointXML i b) (List.enumerate 0 bps)))"

text \<open>An entry of the answer: client ID and result.\<close>

type_synonym breakpoint_entry = "string \<times> breakpoint_result"

definition breakpointEntry :: "xml \<Rightarrow> breakpoint_entry" where
  "breakpointEntry x = (xml_attr x ''clientId'',
     \<lparr>bp_id = xml_attr x ''id'', bp_kind = xml_attr x ''errorKind'', bp_message = xml_attr x ''errorMessage''\<rparr>)"

text \<open>The results so far; \<open>None\<close> stands for a breakpoint no entry was matched to (\<open>matched[i]\<close>).\<close>

definition matchEntry :: "breakpoint_entry \<Rightarrow> breakpoint_result option list \<Rightarrow> breakpoint_result option list" where
  "matchEntry en results = (case atoi (fst en) of
      None \<Rightarrow> results
    | Some i \<Rightarrow>
        if i < 0 \<or> i \<ge> int (length results) then results
        else if results ! nat i \<noteq> None then results
        else results[nat i := Some (snd en)])"

definition noBreakpointResult :: breakpoint_result where
  "noBreakpointResult = \<lparr>bp_id = [], bp_kind = [], bp_message = errNoBreakpointResult\<rparr>"

definition matchBreakpointResults :: "nat \<Rightarrow> breakpoint_entry list \<Rightarrow> breakpoint_result list" where
  "matchBreakpointResults n entries =
     map (\<lambda>r. case r of Some b \<Rightarrow> b | None \<Rightarrow> noBreakpointResult) (fold matchEntry entries (replicate n None))"

text \<open>What is refused before anything is sent.\<close>

definition badLine :: "line_breakpoint list \<Rightarrow> err option" where
  "badLine bps = (case filter (\<lambda>(i, b). lb_line b \<le> 0) (List.enumerate 0 bps) of
      [] \<Rightarrow> None
    | (i, b) # _ \<Rightarrow> Some (Msg (''SetBreakpoints: breakpoint '' @ itoa (int i) @ '': line '' @ itoa (lb_line b)
        @ '' is not a source line'')))"

definition checkBreakpoints :: "string \<Rightarrow> line_breakpoint list \<Rightarrow> err option" where
  "checkBreakpoints scope bps =
     (if bps = [] then Some (Msg ''SetBreakpoints: no breakpoints given'')
      else if length bps > maxBreakpointsPerRequest then
        Some (Msg (''SetBreakpoints: '' @ itoa (int (length bps)) @ '' breakpoints given, SAP accepts at most ''
          @ itoa (int maxBreakpointsPerRequest)))
      else case checkBreakpointScope scope of
          Some e \<Rightarrow> Some (wrapf ''SetBreakpoints: '' e)
        | None \<Rightarrow> badLine bps)"

definition SetBreakpoints :: "'w env \<Rightarrow> debug_session \<Rightarrow> string \<Rightarrow> line_breakpoint list
    \<Rightarrow> ('w, breakpoint_result list) go" where
  "SetBreakpoints E d scope bps = (case checkBreakpoints scope bps of
      Some e \<Rightarrow> fail e
    | None \<Rightarrow>
        tryE (checked E (wrapf ''SetBreakpoints: '') wrapNoSessionAttached (doMutate E ''POST'' ''/sap/bc/adt/debugger/breakpoints''
          (Some (xml_header @ breakpointsXML d scope bps))
          (breakpointHeaders scope [(''Content-Type'', contentTypeXML), (''Accept'', ''application/xml'')]))) (\<lambda>resp.
        tryw (wrapf ''SetBreakpoints read: '') (of_sum (read_all resp)) (\<lambda>data.
        tryw (wrapf ''SetBreakpoints unmarshal: '') (of_sum (unmarshal_root E ''breakpoints'' data)) (\<lambda>x.
          ok (matchBreakpointResults (length bps) (map breakpointEntry (kids_named ''breakpoint'' x)))))))"

definition SetBreakpoint :: "'w env \<Rightarrow> debug_session \<Rightarrow> string \<Rightarrow> int \<Rightarrow> string \<Rightarrow> string
    \<Rightarrow> ('w, breakpoint_result) go" where
  "SetBreakpoint E d uri line typ nm =
     tryE (SetBreakpoints E d BreakpointScopeExternal [\<lparr>lb_uri = uri, lb_line = line, lb_type = typ, lb_name = nm\<rparr>])
       (\<lambda>results. ok (results ! 0))"

definition RemoveBreakpoint :: "'w env \<Rightarrow> debug_session \<Rightarrow> string \<Rightarrow> string \<Rightarrow> ('w, unit) go" where
  "RemoveBreakpoint E d scope bid =
     (if bid = [] then fail (Msg ''RemoveBreakpoint: empty breakpoint ID'')
      else case checkBreakpointScope scope of
          Some e \<Rightarrow> fail (wrapf ''RemoveBreakpoint: '' e)
        | None \<Rightarrow>
            tryE (checked E (wrapf ''RemoveBreakpoint: '') wrapNoSessionAttached (doMutate E ''DELETE''
              (''/sap/bc/adt/debugger/breakpoints/'' @ path_escape bid @ ''?'' @ values_encode
                [(''debuggingMode'', ''user''), (''requestUser'', ds_user d), (''terminalId'', ds_terminal d),
                 (''ideId'', ds_ide d), (''scope'', scope)])
              None (breakpointHeaders scope []))) (\<lambda>_. ok ()))"

section \<open>The listener\<close>

record listener_result =
  ls_status :: string
  ls_debuggee :: string
  ls_raw :: string

definition extractXMLTag :: "string \<Rightarrow> string \<Rightarrow> string" where
  "extractXMLTag s tag =
     (let open = ''<'' @ tag @ ''>''; close = ''</'' @ tag @ ''>'' in
      case index_of s open of
        None \<Rightarrow> []
      | Some i \<Rightarrow> (case index_of (drop i s) close of
            None \<Rightarrow> []
          | Some j \<Rightarrow> take (j - length open) (drop (i + length open) s)))"

definition listenersPath :: "debug_session \<Rightarrow> string" where
  "listenersPath d = ''/sap/bc/adt/debugger/listeners?debuggingMode=user&requestUser='' @ ds_user d
     @ ''&terminalId='' @ ds_terminal d @ ''&ideId='' @ ds_ide d"

text \<open>What is read of a body whose read may break off; the error is ignored.\<close>

definition read_some :: "response \<Rightarrow> string" where
  "read_some resp = rs_body resp"

definition StartListener :: "'w env \<Rightarrow> debug_session \<Rightarrow> int \<Rightarrow> ('w, listener_result) go" where
  "StartListener E d timeoutSeconds =
     tryE (checked E (wrapf ''StartListener: '') (\<lambda>e. e) (doMutateLong E ''POST''
       (listenersPath d @ ''&timeout='' @ itoa timeoutSeconds) None [(''Accept'', ''application/vnd.sap.as+xml'')])) (\<lambda>resp.
       ok (if read_some resp = [] then \<lparr>ls_status = ''timeout'', ls_debuggee = [], ls_raw = []\<rparr>
           else \<lparr>ls_status = ''attached'', ls_debuggee = extractXMLTag (read_some resp) ''DEBUGGEE_ID'', ls_raw = read_some resp\<rparr>))"

definition StopListener :: "'w env \<Rightarrow> debug_session \<Rightarrow> ('w, unit) go" where
  "StopListener E d =
     tryE (checked E (wrapf ''StopListener: '') (\<lambda>e. e) (doMutate E ''DELETE'' (listenersPath d) None [])) (\<lambda>_. ok ())"

text \<open>The test run that triggers a breakpoint goes through a session of its own.\<close>

definition triggerUnitTests :: "'w env \<Rightarrow> (string \<Rightarrow> err option) \<Rightarrow> string \<Rightarrow> ('w, test_result) go" where
  "triggerUnitTests E floatErr uri = onFreshSession (RunUnitTests E floatErr uri)"

section \<open>Attaching and stepping\<close>

definition debuggerPath :: string where "debuggerPath = ''/sap/bc/adt/debugger?method=''"

definition GetDebuggeeSessions :: "'w env \<Rightarrow> ('w, string) go" where
  "GetDebuggeeSessions E =
     tryE (checked E (wrapf ''GetDebuggeeSessions: '') (\<lambda>e. e) (doMutate E ''POST''
       (debuggerPath @ ''getDebuggeeSessions'') None [(''Accept'', ''application/vnd.sap.as+xml'')])) (\<lambda>resp.
       ok (read_some resp))"

definition Attach :: "'w env \<Rightarrow> string \<Rightarrow> ('w, unit) go" where
  "Attach E debuggeeID =
     tryE (checked E (wrapf ''Attach: '') (\<lambda>e. e) (doMutate E ''POST''
       (debuggerPath @ ''attach&debuggeeId='' @ debuggeeID) None ([(''Accept'', ''application/xml'')] @ stateful))) (\<lambda>_. ok ())"

definition ExceptionTypeAdiFailed :: string where "ExceptionTypeAdiFailed = ''AdiFailed''"

definition cxTpdapiDebuggeeEnded :: string where "cxTpdapiDebuggeeEnded = ''CX_TPDAPI_DEBUGGEE_ENDED''"

definition isDebuggeeEndedAdiFailed :: "err \<Rightarrow> bool" where
  "isDebuggeeEndedAdiFailed e = (case as_adt e of
      None \<Rightarrow> False
    | Some a \<Rightarrow> ExcType a = ExceptionTypeAdiFailed \<and> property a ''previous1ExceptionClassName'' = cxTpdapiDebuggeeEnded)"

text \<open>\<open>errors.As\<close> with a \<open>*DebuggeeEndedError\<close> target.\<close>

fun as_ended :: "err \<Rightarrow> bool" where
  "as_ended (DebuggeeEndedError a e) = True"
| "as_ended (Wrap _ e _) = as_ended e"
| "as_ended (Wrap2 _ e _ f) = (as_ended e \<or> as_ended f)"
| "as_ended (VerifyCleanupError _ e) = as_ended e"
| "as_ended (Adt _) = False"
| "as_ended (Sentinel _) = False"
| "as_ended (Msg _) = False"
| "as_ended (TableNotFoundError _) = False"

definition isAdiFailed :: "err \<Rightarrow> bool" where
  "isAdiFailed e \<longleftrightarrow> \<not> as_ended e \<and> \<not> isDebuggeeEndedAdiFailed e
     \<and> (case as_adt e of None \<Rightarrow> False | Some a \<Rightarrow> ExcType a = ExceptionTypeAdiFailed)"

text \<open>
  \<open>timeout\<close> stands for the \<open>Timeout()\<close> method of the first error in the chain that has one (\<open>net/http\<close>'s
  \<open>*url.Error\<close>).
\<close>

definition isTimeoutErr :: "(err \<Rightarrow> bool) \<Rightarrow> err \<Rightarrow> bool" where
  "isTimeoutErr timeout e \<longleftrightarrow> is_sentinel ErrDeadlineExceeded e \<or> timeout e"

definition debuggeeSessionsEmpty :: "'w env \<Rightarrow> ('w cl, bool) state" where
  "debuggeeSessionsEmpty E = State_Monad.bind (GetDebuggeeSessions E) (\<lambda>r. State_Monad.return (case r of
      Inl _ \<Rightarrow> False | Inr data \<Rightarrow> trim_space data = []))"

definition stepFailed :: "'w env \<Rightarrow> (err \<Rightarrow> bool) \<Rightarrow> string \<Rightarrow> err \<Rightarrow> ('w, string) go" where
  "stepFailed E timeout action e =
     State_Monad.bind (if isTimeoutErr timeout e then debuggeeSessionsEmpty E else State_Monad.return False) (\<lambda>ended.
       fail (if ended then DebuggeeEndedError action e else wrapf ''Step: '' e))"

definition stepAnswer :: "'w env \<Rightarrow> string \<Rightarrow> response \<Rightarrow> err + string" where
  "stepAnswer E action resp = (case checkResponse E resp of
      Some e \<Rightarrow> Inl (if isDebuggeeEndedAdiFailed e then DebuggeeEndedError action e else e)
    | None \<Rightarrow> read_all resp)"

definition stepOnce :: "'w env \<Rightarrow> (err \<Rightarrow> bool) \<Rightarrow> string \<Rightarrow> ('w, string) go" where
  "stepOnce E timeout action =
     State_Monad.bind (doMutate E ''POST'' (debuggerPath @ action) None ([(''Accept'', ''application/xml'')] @ stateful))
       (\<lambda>r. case r of Inl e \<Rightarrow> stepFailed E timeout action e | Inr resp \<Rightarrow> of_sum (stepAnswer E action resp))"

definition adiFailedMaxRetries :: nat where "adiFailedMaxRetries = 2"

definition retriesExhausted :: "err \<Rightarrow> err" where
  "retriesExhausted e = wrapf (''after '' @ itoa (int adiFailedMaxRetries) @ '' retries on AdiFailed (aibap.mcp#513): '') e"

text \<open>
  The attempts still allowed after one that failed with \<open>lastErr\<close>. \<open>pause\<close> is the passing of the delay;
  the context is looked at after it.
\<close>

fun retryAgain :: "'w env \<Rightarrow> ('w \<Rightarrow> 'w) \<Rightarrow> ('w, 'a) go \<Rightarrow> nat \<Rightarrow> err \<Rightarrow> ('w, 'a) go" where
  "retryAgain E pause m 0 lastErr = fail (retriesExhausted lastErr)"
| "retryAgain E pause m (Suc attempts) lastErr =
     State_Monad.bind (modify (\<lambda>s. s\<lparr>world := pause (world s)\<rparr>)) (\<lambda>_.
     State_Monad.bind (gets (\<lambda>s. ctx_err E (world s))) (\<lambda>over. case over of
        Some _ \<Rightarrow> fail lastErr
      | None \<Rightarrow> State_Monad.bind m (\<lambda>r. case r of
            Inr x \<Rightarrow> ok x
          | Inl e \<Rightarrow> if isAdiFailed e then retryAgain E pause m attempts e else fail e)))"

definition retryOnAdiFailed :: "'w env \<Rightarrow> ('w \<Rightarrow> 'w) \<Rightarrow> ('w, 'a) go \<Rightarrow> ('w, 'a) go" where
  "retryOnAdiFailed E pause m = State_Monad.bind m (\<lambda>r. case r of
      Inr x \<Rightarrow> ok x
    | Inl e \<Rightarrow> if isAdiFailed e then retryAgain E pause m adiFailedMaxRetries e else fail e)"

definition Step :: "'w env \<Rightarrow> ('w \<Rightarrow> 'w) \<Rightarrow> (err \<Rightarrow> bool) \<Rightarrow> string \<Rightarrow> ('w, string) go" where
  "Step E pause timeout action = retryOnAdiFailed E pause (stepOnce E timeout action)"

section \<open>Raw reads\<close>

definition readBody :: "'w env \<Rightarrow> (err \<Rightarrow> err) \<Rightarrow> ('w, response) go \<Rightarrow> ('w, string) go" where
  "readBody E w m = tryE (checked E w (\<lambda>e. e) m) (\<lambda>resp. of_sum (read_all resp))"

definition GetVariable :: "'w env \<Rightarrow> string \<Rightarrow> ('w, string) go" where
  "GetVariable E nm = readBody E (wrapf ''GetVariable: '')
     (doMutate E ''POST'' (debuggerPath @ ''getVariableValue&variableName='' @ query_escape nm) None
       ([(''Accept'', ''text/plain'')] @ stateful))"

definition GetStack :: "'w env \<Rightarrow> ('w, string) go" where
  "GetStack E = readBody E (wrapf ''GetStack: '')
     (doMutate E ''POST'' (debuggerPath @ ''getStack'') None ([(''Accept'', ''application/xml'')] @ stateful))"

definition SetWatchpoint :: "'w env \<Rightarrow> string \<Rightarrow> string \<Rightarrow> ('w, string) go" where
  "SetWatchpoint E variableName condition = readBody E (wrapf ''SetWatchpoint: '')
     (doMutate E ''POST'' (''/sap/bc/adt/debugger/watchpoints?variableName='' @ variableName
       @ (if condition \<noteq> [] then ''&condition='' @ condition else [])) None [(''Accept'', ''application/xml'')])"

section \<open>The call stack\<close>

record stack_frame =
  sf_position :: int
  sf_program :: string
  sf_include :: string
  sf_line :: int
  sf_event_type :: string
  sf_event_name :: string
  sf_uri :: string
  sf_source_line :: int
  sf_system :: bool
  sf_active :: bool

text \<open>The URI before \<open>#\<close> and the line of a fragment \<open>start=<line>,<col>\<close>, 0 without one.\<close>

definition frameSource :: "string \<Rightarrow> string \<times> int" where
  "frameSource uri = (case index_byte uri (CHR ''#'') of
      None \<Rightarrow> (uri, 0)
    | Some i \<Rightarrow> (take i uri,
        (let frag = drop (i + 1) uri in
         if has_prefix frag ''start='' then atoi0 (takeWhile (\<lambda>c. c \<notin> {CHR '','', CHR '';''}) (trim_prefix frag ''start='')) else 0)))"

text \<open>An entry of the answer; the four typed attributes are read first.\<close>

definition stackFrame :: "xml \<Rightarrow> err + stack_frame" where
  "stackFrame x =
     and_then (read_int (xml_attr x ''stackPosition'')) (\<lambda>position.
     and_then (read_int (xml_attr x ''line'')) (\<lambda>line.
     and_then (read_bool (xml_attr x ''systemProgram'')) (\<lambda>system.
     and_then (read_bool (xml_attr x ''isActive'')) (\<lambda>active.
       Inr \<lparr>sf_position = position, sf_program = xml_attr x ''programName'', sf_include = xml_attr x ''includeName'',
         sf_line = line, sf_event_type = xml_attr x ''eventType'', sf_event_name = xml_attr x ''eventName'',
         sf_uri = fst (frameSource (xml_attr x ''uri'')), sf_source_line = snd (frameSource (xml_attr x ''uri'')),
         sf_system = system, sf_active = active\<rparr>))))"

definition parseStack :: "'w env \<Rightarrow> string \<Rightarrow> err + stack_frame list" where
  "parseStack E data = and_then (unmarshal_root E ''stack'' data) (\<lambda>x. read_each stackFrame (kids_named ''stackEntry'' x))"

definition GetStackFrames :: "'w env \<Rightarrow> ('w, stack_frame list) go" where
  "GetStackFrames E = tryE (GetStack E) (\<lambda>data. tryw (wrapf ''GetStackFrames unmarshal: '') (of_sum (parseStack E data)) ok)"

text \<open>The loop of \<open>ActiveFrame\<close>: the topmost frame so far.\<close>

fun activeOrTop :: "stack_frame \<Rightarrow> stack_frame list \<Rightarrow> stack_frame" where
  "activeOrTop best [] = best"
| "activeOrTop best (f # fs) =
     (if sf_active f then f
      else if sf_position f > sf_position best then activeOrTop f fs
      else activeOrTop best fs)"

definition ActiveFrame :: "stack_frame list \<Rightarrow> stack_frame option" where
  "ActiveFrame frames = (case frames of [] \<Rightarrow> None | f # fs \<Rightarrow> Some (activeOrTop f frames))"

section \<open>Variables\<close>

definition nsASX :: string where "nsASX = ''http://www.sap.com/abapxml''"

definition ctChildVariables :: string where
  "ctChildVariables = ''application/vnd.sap.as+xml; charset=UTF-8; dataname=com.sap.adt.debugger.ChildVariables''"

definition ctVariables :: string where
  "ctVariables = ''application/vnd.sap.as+xml; charset=UTF-8; dataname=com.sap.adt.debugger.Variables''"

definition acceptASXML :: string where "acceptASXML = ''application/vnd.sap.as+xml''"

record debug_variable =
  dv_id :: string
  dv_name :: string
  dv_meta :: string
  dv_declared :: string
  dv_actual :: string
  dv_technical :: string
  dv_value :: string
  dv_incomplete :: bool
  dv_lines :: int
  dv_kind :: string
  dv_access :: string
  dv_instantiation :: string
  dv_parameter :: string
  dv_length :: int
  dv_read_only :: bool
  dv_exception :: bool
  dv_inheritance :: string

text \<open>The links are triples of parent ID, child ID and child name.\<close>

record child_variables =
  cv_variables :: "debug_variable list"
  cv_links :: "(string \<times> string \<times> string) list"

text \<open>A row is its index and its fields, each a path and a value.\<close>

type_synonym table_row = "int \<times> (string \<times> string) list"

record table_page =
  tp_name :: string
  tp_total :: int
  tp_offset :: int
  tp_rows :: "table_row list"

definition asxRequest :: "string \<Rightarrow> string" where
  "asxRequest data = xml_elem ''asx:abap'' [(''xmlns:asx'', nsASX), (''version'', ''1.0'')]
     (xml_elem ''asx:values'' [] (xml_elem ''DATA'' [] data))"

definition ChildVariablesRequest :: "string list \<Rightarrow> string" where
  "ChildVariablesRequest parentIDs =
     xml_header @ asxRequest (xml_elem ''HIERARCHIES'' [] (concat (map (\<lambda>i. xml_elem ''STPDA_ADT_VARIABLE_HIERARCHY'' []
       (xml_elem ''PARENT_ID'' [] (xml_escape i))) (if parentIDs = [] then [''@ROOT''] else parentIDs))))"

definition VariablesRequest :: "string list \<Rightarrow> string" where
  "VariablesRequest ids =
     xml_header @ asxRequest (concat (map (\<lambda>i. xml_elem ''STPDA_ADT_VARIABLE'' [] (xml_elem ''ID'' [] (xml_escape i))) ids))"

definition VariableDataRequest :: "string \<Rightarrow> int \<Rightarrow> int \<Rightarrow> string list \<Rightarrow> string" where
  "VariableDataRequest nm offset len flds =
     xml_elem ''dbg:dataRequest'' [(''xmlns:dbg'', nsDebugger)]
       (xml_elem ''table'' [(''name'', nm), (''offset'', itoa offset), (''length'', itoa len)]
         (concat (map (\<lambda>f. xml_elem ''field'' [(''path'', f)] []) flds)))"

text \<open>\<open>ASXVariable\<close> and \<open>toDebugVariable\<close> in one.\<close>

definition debugVariable :: "xml \<Rightarrow> err + debug_variable" where
  "debugVariable x =
     and_then (kid_int ''LENGTH'' x) (\<lambda>len.
     and_then (kid_int ''TABLE_LINES'' x) (\<lambda>lines.
       Inr \<lparr>dv_id = kid_text ''ID'' x, dv_name = kid_text ''NAME'' x, dv_meta = kid_text ''META_TYPE'' x,
         dv_declared = kid_text ''DECLARED_TYPE_NAME'' x, dv_actual = kid_text ''ACTUAL_TYPE_NAME'' x,
         dv_technical = kid_text ''TECHNICAL_TYPE'' x, dv_value = kid_text ''VALUE'' x,
         dv_incomplete = (kid_text ''IS_VALUE_INCOMPLETE'' x = ''X''), dv_lines = lines,
         dv_kind = kid_text ''KIND'' x, dv_access = kid_text ''ACCESS_KIND'' x,
         dv_instantiation = kid_text ''INSTANTIATION_KIND'' x, dv_parameter = kid_text ''PARAMETER_KIND'' x,
         dv_length = len, dv_read_only = (kid_text ''READ_ONLY'' x = ''X''),
         dv_exception = (kid_text ''IS_EXCEPTION'' x = ''X''), dv_inheritance = kid_text ''INHERITANCE_CLASS'' x\<rparr>))"

definition childLink :: "xml \<Rightarrow> string \<times> string \<times> string" where
  "childLink x = (kid_text ''PARENT_ID'' x, kid_text ''CHILD_ID'' x, kid_text ''CHILD_NAME'' x)"

definition ParseChildVariables :: "'w env \<Rightarrow> string \<Rightarrow> err + child_variables" where
  "ParseChildVariables E data = and_then (unmarshal_any E data) (\<lambda>x.
     and_then (read_each debugVariable (kids_path [''values'', ''DATA'', ''VARIABLES'', ''STPDA_ADT_VARIABLE''] x)) (\<lambda>vars.
       Inr \<lparr>cv_variables = vars, cv_links = filter (\<lambda>(_, c, _). c \<noteq> [])
         (map childLink (kids_path [''values'', ''DATA'', ''HIERARCHIES'', ''STPDA_ADT_VARIABLE_HIERARCHY''] x))\<rparr>))"

definition ParseVariables :: "'w env \<Rightarrow> string \<Rightarrow> err + debug_variable list" where
  "ParseVariables E data = and_then (unmarshal_any E data) (\<lambda>x.
     read_each debugVariable (kids_path [''values'', ''DATA'', ''STPDA_ADT_VARIABLE''] x))"

definition tableLine :: "xml \<Rightarrow> err + table_row" where
  "tableLine x = and_then (read_int (xml_attr x ''index'')) (\<lambda>i.
     Inr (i, map (\<lambda>f. (xml_attr f ''path'', kid_text ''value'' f)) (kids_named ''field'' x)))"

definition dataTable :: "xml \<Rightarrow> err + table_row list" where
  "dataTable x = and_then (read_int (xml_attr x ''totalLines'')) (\<lambda>_. read_each tableLine (kids_named ''tableLine'' x))"

text \<open>The lines of the first table of the answer, none without a table; every table is read.\<close>

definition ParseVariableData :: "'w env \<Rightarrow> string \<Rightarrow> err + table_row list" where
  "ParseVariableData E data = and_then (unmarshal_any E data) (\<lambda>x.
     and_then (read_each dataTable (kids_named ''table'' x)) (\<lambda>tables. Inr (case tables of [] \<Rightarrow> [] | t # _ \<Rightarrow> t)))"

definition postASX :: "'w env \<Rightarrow> string \<Rightarrow> string \<Rightarrow> string \<Rightarrow> ('w, string) go" where
  "postASX E meth contentType body = readBody E (wrapf (meth @ '': ''))
     (doMutate E ''POST'' (debuggerPath @ meth) (Some body) ([(''Content-Type'', contentType), (''Accept'', acceptASXML)] @ stateful))"

definition GetChildVariables :: "'w env \<Rightarrow> string list \<Rightarrow> ('w, child_variables) go" where
  "GetChildVariables E parentIDs =
     tryE (postASX E ''getChildVariables'' ctChildVariables (ChildVariablesRequest parentIDs)) (\<lambda>data.
     tryw (wrapf ''GetChildVariables unmarshal: '') (of_sum (ParseChildVariables E data)) ok)"

definition GetVariables :: "'w env \<Rightarrow> string list \<Rightarrow> ('w, debug_variable list) go" where
  "GetVariables E ids =
     tryE (postASX E ''getVariables'' ctVariables (VariablesRequest ids)) (\<lambda>data.
     tryw (wrapf ''GetVariables unmarshal: '') (of_sum (ParseVariables E data)) ok)"

definition findTableMeta :: "debug_variable list \<Rightarrow> string \<Rightarrow> debug_variable option" where
  "findTableMeta vars nm = (case find (\<lambda>v. dv_id v = nm) vars of
      Some v \<Rightarrow> Some v
    | None \<Rightarrow> (case vars of [v] \<Rightarrow> Some v | _ \<Rightarrow> find (\<lambda>v. equal_fold (dv_id v) nm) vars))"

definition readRows :: "'w env \<Rightarrow> string \<Rightarrow> int \<Rightarrow> int \<Rightarrow> string list \<Rightarrow> ('w, table_row list) go" where
  "readRows E nm offset len flds =
     tryE (checked E (wrapf ''GetTableRows: '') (\<lambda>e. e) (doMutate E ''POST'' (debuggerPath @ ''getVariableData'')
       (Some (VariableDataRequest nm offset len flds))
       ([(''Content-Type'', contentTypeXML), (''Accept'', ''application/xml'')] @ stateful))) (\<lambda>resp.
     tryw (wrapf ''GetTableRows read: '') (of_sum (read_all resp)) (\<lambda>data.
     tryw (wrapf ''GetTableRows unmarshal: '') (of_sum (ParseVariableData E data)) ok))"

definition tablePage :: "'w env \<Rightarrow> string \<Rightarrow> int \<Rightarrow> int \<Rightarrow> string list \<Rightarrow> debug_variable \<Rightarrow> ('w, table_page) go" where
  "tablePage E nm offset limit flds meta =
     (if dv_meta meta \<noteq> ''table'' then
        fail (wrapf (''GetTableRows '' @ quoted nm @ '' ('' @ dv_meta meta @ ''): '') (Sentinel ErrNotATable))
      else
        (let page = \<lparr>tp_name = nm, tp_total = dv_lines meta, tp_offset = offset, tp_rows = []\<rparr> in
         if offset > dv_lines meta then ok page
         else tryE (readRows E nm offset (min limit (dv_lines meta - offset + 1)) flds) (\<lambda>rows. ok (page\<lparr>tp_rows := rows\<rparr>))))"

definition GetTableRows :: "'w env \<Rightarrow> string \<Rightarrow> int \<Rightarrow> int \<Rightarrow> string list \<Rightarrow> ('w, table_page) go" where
  "GetTableRows E nm offset limit flds =
     (if offset < 1 then fail (Msg (''GetTableRows: offset must be >= 1 (1-based), got '' @ itoa offset))
      else if limit < 1 then fail (Msg (''GetTableRows: limit must be >= 1, got '' @ itoa limit))
      else tryE (GetVariables E [nm]) (\<lambda>vars. case findTableMeta vars nm of
          None \<Rightarrow> fail (Msg (''GetTableRows: unknown variable '' @ quoted nm))
        | Some meta \<Rightarrow> tablePage E nm offset limit flds meta))"

end
