(* ===== verification/DebuggerProps.thy ===== *)
theory DebuggerProps
  imports Debugger Answers
begin

text \<open>
  What debug sessions guarantee: results of breakpoints find their breakpoint whatever the order of the
  answer, a step is repeated only for a transient failure and reported as the debuggee's end only when SAP
  says so, pages of a table stay inside the table, and the active frame is the one marked or the topmost.
\<close>

section \<open>Results of breakpoints\<close>

definition entry_for :: "nat \<Rightarrow> breakpoint_entry \<Rightarrow> bool" where
  "entry_for i en \<longleftrightarrow> atoi (fst en) = Some (int i)"

definition result_of :: "breakpoint_entry list \<Rightarrow> nat \<Rightarrow> breakpoint_result option" where
  "result_of entries i = map_option snd (find (entry_for i) entries)"

lemma matchEntry_length [simp]: "length (matchEntry en rs) = length rs"
  by (simp add: matchEntry_def split: option.splits)

lemma matchEntry_nth:
  "i < length rs \<Longrightarrow> matchEntry en rs ! i = (if rs ! i = None \<and> entry_for i en then Some (snd en) else rs ! i)"
  by (auto simp: matchEntry_def entry_for_def nth_list_update split: option.splits)

lemma matchEntries_nth:
  "i < length rs \<Longrightarrow> fold matchEntry entries rs ! i = (case rs ! i of Some r \<Rightarrow> Some r | None \<Rightarrow> result_of entries i)"
proof (induction entries arbitrary: rs)
  case (Cons en entries)
  then show ?case by (simp add: matchEntry_nth result_of_def split: option.splits)
qed (simp add: result_of_def split: option.splits)

lemma matchEntries_length: "length (fold matchEntry entries rs) = length rs"
  by (induction entries arbitrary: rs) simp_all

text \<open>
  C31. The result reported for the \<open>i\<close>-th breakpoint is the first entry of the answer that carries \<open>i\<close> as its
  client ID, wherever it stands; without one the breakpoint is reported as not set.
\<close>

theorem matchBreakpointResults_by_client_id:
  "matchBreakpointResults n entries = map (\<lambda>i. case find (\<lambda>en. atoi (fst en) = Some (int i)) entries of
     Some en \<Rightarrow> snd en | None \<Rightarrow> noBreakpointResult) [0..<n]"
proof (rule nth_equalityI)
  fix i assume "i < length (matchBreakpointResults n entries)"
  then have i: "i < n" by (simp add: matchBreakpointResults_def matchEntries_length)
  then have "fold matchEntry entries (replicate n None) ! i = result_of entries i"
    by (simp add: matchEntries_nth)
  with i show "matchBreakpointResults n entries ! i = map (\<lambda>i. case find (\<lambda>en. atoi (fst en) = Some (int i)) entries of
     Some en \<Rightarrow> snd en | None \<Rightarrow> noBreakpointResult) [0..<n] ! i"
    by (simp add: matchBreakpointResults_def matchEntries_length result_of_def entry_for_def [abs_def] split: option.splits)
qed (simp add: matchBreakpointResults_def matchEntries_length)

section \<open>The active frame\<close>

lemma activeOrTop_active: "find sf_active fs = Some f \<Longrightarrow> activeOrTop best fs = f"
  by (induction fs arbitrary: best) (auto split: if_splits)

definition highest :: "stack_frame list \<Rightarrow> int" where
  "highest fs = Max (sf_position ` set fs)"

lemma highest_simps [simp]:
  "highest [f] = sf_position f"
  "fs \<noteq> [] \<Longrightarrow> highest (f # fs) = max (sf_position f) (highest fs)"
  by (simp_all add: highest_def)

lemma activeOrTop_top:
  "find sf_active fs = None \<Longrightarrow> find (\<lambda>f. sf_position f = highest (best # fs)) (best # fs) = Some (activeOrTop best fs)"
proof (induction fs arbitrary: best)
  case (Cons f fs)
  then have inactive: "\<not> sf_active f" "find sf_active fs = None" by (auto split: if_splits)
  show ?case
  proof (cases "sf_position f > sf_position best")
    case True
    then have "highest (best # f # fs) = highest (f # fs)" and "sf_position best \<noteq> highest (f # fs)"
      by (cases fs; simp; linarith)+
    with Cons.IH [OF inactive(2), of f] True inactive(1) show ?thesis by simp
  next
    case False
    then have same: "highest (best # f # fs) = highest (best # fs)"
      by (cases fs) auto
    show ?thesis
    proof (cases "sf_position best = highest (best # fs)")
      case True
      with Cons.IH [OF inactive(2), of best] False inactive(1) same show ?thesis by simp
    next
      case notbest: False
      with False have "sf_position f \<noteq> highest (best # fs)" by (cases fs) auto
      with notbest Cons.IH [OF inactive(2), of best] False inactive(1) same show ?thesis by simp
    qed
  qed
qed simp

text \<open>
  The active frame is the first one marked active, or, when none is, the first of those with the highest
  position; only an empty stack has none.
\<close>

theorem ActiveFrame_marked_or_top:
  "ActiveFrame frames = (case find sf_active frames of
      Some f \<Rightarrow> Some f
    | None \<Rightarrow> find (\<lambda>f. sf_position f = Max (sf_position ` set frames)) frames)"
proof (cases frames)
  case (Cons f fs)
  show ?thesis
  proof (cases "find sf_active frames")
    case None
    with Cons have "find sf_active fs = None" by (auto split: if_splits)
    from activeOrTop_top [OF this, of f] None Cons show ?thesis
      by (auto simp: ActiveFrame_def highest_def split: if_splits)
  next
    case (Some g)
    from activeOrTop_active [OF this] Some Cons show ?thesis by (simp add: ActiveFrame_def)
  qed
qed (simp add: ActiveFrame_def)

section \<open>Stepping\<close>

lemma at_most_doMutate: "sends_at_most 5 (doMutate E meth path body headers)"
  by (simp add: doMutate_def at_most_mutate)

lemma at_most_then: "sends_at_most n m \<Longrightarrow> (\<And>r. sends_at_most 0 (k r)) \<Longrightarrow> sends_at_most n (State_Monad.bind m k)"
  using at_most_bind [of n m 0 k] by simp

lemma at_most_try_then: "sends_at_most n m \<Longrightarrow> (\<And>x. sends_at_most 0 (k x)) \<Longrightarrow> sends_at_most n (tryw w m k)"
  using at_most_tryw [of n m 0 k w] by simp

lemma at_most_checked: "sends_at_most n m \<Longrightarrow> sends_at_most n (checked E w v m)"
  unfolding checked_def by (rule at_most_try_then) (auto split: option.splits intro: at_most)

lemma at_most_sessions: "sends_at_most 5 (debuggeeSessionsEmpty E)"
  unfolding debuggeeSessionsEmpty_def GetDebuggeeSessions_def
  by (intro at_most_then at_most_try_then at_most_checked at_most_doMutate at_most)

lemma at_most_stepOnce: "sends_at_most 10 (stepOnce E timeout action)"
proof -
  have "sends_at_most 5 (stepFailed E timeout action e)" for e
    unfolding stepFailed_def by (rule at_most_then) (auto intro: at_most at_most_sessions)
  then have "sends_at_most (5 + 5) (stepOnce E timeout action)"
    unfolding stepOnce_def by (intro at_most_bind [OF at_most_doMutate]) (auto split: sum.splits intro: at_most)
  then show ?thesis by simp
qed

lemma at_most_retryAgain: "sends_at_most a m \<Longrightarrow> sends_at_most (n * a) (retryAgain E pause m n e)"
proof (induction n arbitrary: e)
  case (Suc n)
  have "sends_at_most (a + n * a) (State_Monad.bind m (\<lambda>r. case r of Inr x \<Rightarrow> ok x
      | Inl e \<Rightarrow> if isAdiFailed e then retryAgain E pause m n e else fail e))"
    by (rule at_most_bind [OF Suc.prems]) (use Suc in \<open>auto split: sum.splits intro: at_most\<close>)
  then show ?case by (auto split: option.splits intro!: at_most)
qed (auto intro: at_most)

lemma at_most_Step: "sends_at_most 30 (Step E pause timeout action)"
proof -
  have "sends_at_most (10 + 2 * 10) (Step E pause timeout action)"
    unfolding Step_def retryOnAdiFailed_def adiFailedMaxRetries_def
    by (intro at_most_bind [OF at_most_stepOnce])
      (use at_most_retryAgain [OF at_most_stepOnce, of 2] in \<open>auto split: sum.splits intro: at_most\<close>)
  then show ?thesis by simp
qed

text \<open>
  When the debuggee may be reported as ended, by the last exchange: SAP answered the step with the
  exception of an ended debuggee, or a request timed out and SAP then answered the question for the
  sessions with an empty list. (The third case is an error of that name from reading the body, which
  \<open>net/http\<close> does not have.)
\<close>

definition ended_answer :: "'w env \<Rightarrow> string \<Rightarrow> err \<Rightarrow> (request \<times> (err + response)) list \<Rightarrow> bool" where
  "ended_answer E action e es \<longleftrightarrow> (\<exists>rq resp rest. es = (rq, Inr resp) # rest
     \<and> is_request ''POST'' (encoded_path (debuggerPath @ action)) None rq \<and> checkResponse E resp = Some e
     \<and> isDebuggeeEndedAdiFailed e)"

definition no_sessions :: "(request \<times> (err + response)) list \<Rightarrow> bool" where
  "no_sessions es \<longleftrightarrow> (\<exists>rq resp rest. es = (rq, Inr resp) # rest
     \<and> is_request ''POST'' (encoded_path (debuggerPath @ ''getDebuggeeSessions'')) None rq \<and> rs_status resp < 400
     \<and> trim_space (rs_body resp) = [])"

definition read_failed_with :: "err \<Rightarrow> (request \<times> (err + response)) list \<Rightarrow> bool" where
  "read_failed_with e es \<longleftrightarrow> (\<exists>rq resp rest. es = (rq, Inr resp) # rest \<and> rs_body_err resp = Some e)"

definition ended_justified :: "'w env \<Rightarrow> (err \<Rightarrow> bool) \<Rightarrow> string \<Rightarrow> err + string
    \<Rightarrow> (request \<times> (err + response)) list \<Rightarrow> bool" where
  "ended_justified E timeout action r es = (case r of
      Inl (DebuggeeEndedError a e) \<Rightarrow>
        a = action \<and> (ended_answer E action e es \<or> isTimeoutErr timeout e \<and> no_sessions es)
        \<or> read_failed_with (DebuggeeEndedError a e) es
    | _ \<Rightarrow> True)"

definition is_ended :: "err \<Rightarrow> bool" where
  "is_ended e = (case e of DebuggeeEndedError _ _ \<Rightarrow> True | _ \<Rightarrow> False)"

lemma justified_other: "\<not> is_ended e \<Longrightarrow> ended_justified E timeout action (Inl e) es"
  by (cases e) (simp_all add: ended_justified_def is_ended_def)

lemma justified_ok [simp]: "ended_justified E timeout action (Inr x) es"
  by (simp add: ended_justified_def)

lemma adi_failed_not_ended: "isAdiFailed e \<Longrightarrow> \<not> is_ended e"
  by (cases e) (simp_all add: isAdiFailed_def is_ended_def)

lemma justified_append: "ended_justified E timeout action r es \<Longrightarrow> ended_justified E timeout action r (es @ fs)"
  by (auto simp: ended_justified_def ended_answer_def no_sessions_def read_failed_with_def split: sum.splits err.splits)

lemma traces_return: "P r [] \<Longrightarrow> traces P (State_Monad.return r)"
  by (rule tracesI) simp

lemma traces_sessions:
  "traces (\<lambda>r es. r \<longrightarrow> no_sessions es) (debuggeeSessionsEmpty E)"
proof -
  let ?path = "debuggerPath @ ''getDebuggeeSessions''"
  have "traces (\<lambda>r es. \<forall>data. r = Inr data \<longrightarrow> trim_space data = [] \<longrightarrow> no_sessions es) (GetDebuggeeSessions E)"
    unfolding GetDebuggeeSessions_def
  proof (rule traces_tryw [OF traces_write])
    fix resp es assume "answered ''POST'' ?path None (Inr resp) es"
    then show "traces (\<lambda>r fs. \<forall>data. r = Inr data \<longrightarrow> trim_space data = [] \<longrightarrow> no_sessions (fs @ es)) (ok (read_some resp))"
      by (intro traces_pure) (auto simp: answered_def read_some_def no_sessions_def)
  qed simp
  then show ?thesis
    unfolding debuggeeSessionsEmpty_def by (rule traces_bind) (rule traces_return, auto split: sum.splits)
qed

lemma traces_stepFailed: "traces (ended_justified E timeout action) (stepFailed E timeout action e)"
proof -
  have "traces (\<lambda>r es. r \<longrightarrow> isTimeoutErr timeout e \<and> no_sessions es)
      (if isTimeoutErr timeout e then debuggeeSessionsEmpty E else State_Monad.return False)"
  proof (cases "isTimeoutErr timeout e")
    case True
    with traces_sessions [of E] show ?thesis by simp
  next
    case False
    have "traces (\<lambda>r es. r \<longrightarrow> isTimeoutErr timeout e \<and> no_sessions es) (State_Monad.return False)"
      by (rule traces_return) simp
    with False show ?thesis by simp
  qed
  then show ?thesis
    unfolding stepFailed_def by (rule traces_bind) (rule traces_pure, auto simp: ended_justified_def)
qed

lemma traces_last:
  assumes "last_from P resp_of None m"
  shows "traces (\<lambda>r es. \<forall>resp. r = Inr resp \<longrightarrow> (\<exists>rq rest. es = (rq, Inr resp) # rest \<and> P rq)) m"
proof (rule tracesI)
  fix s r s' assume "run_state m s = (r, s')"
  with assms obtain es where "wire s' = es @ wire s"
    "\<And>resp. resp_of r = Some resp \<Longrightarrow> (\<exists>rq rest. es = (rq, Inr resp) # rest \<and> P rq)"
    by (rule last_fromE) blast
  then show "\<exists>es. wire s' = es @ wire s \<and> (\<forall>resp. r = Inr resp \<longrightarrow> (\<exists>rq rest. es = (rq, Inr resp) # rest \<and> P rq))"
    by auto
qed

lemma stepAnswer_justified:
  assumes "is_request ''POST'' (encoded_path (debuggerPath @ action)) None rq"
  shows "ended_justified E timeout action (stepAnswer E action resp) ((rq, Inr resp) # rest)"
proof (cases "checkResponse E resp")
  case None
  show ?thesis
  proof (cases "rs_body_err resp")
    case (Some e)
    with None show ?thesis
      by (cases e) (auto simp: stepAnswer_def read_all_def ended_justified_def read_failed_with_def)
  qed (simp add: None stepAnswer_def read_all_def)
next
  case (Some e)
  then have "\<not> is_ended e" by (auto simp: checkResponse_def is_ended_def split: if_splits)
  with Some assms show ?thesis
    by (cases "isDebuggeeEndedAdiFailed e")
      (auto simp: stepAnswer_def justified_other, auto simp: ended_justified_def ended_answer_def)
qed

lemma traces_stepOnce: "traces (ended_justified E timeout action) (stepOnce E timeout action)"
  unfolding stepOnce_def doMutate_def
proof (rule traces_bind [OF traces_last [OF doMutateWith_last]])
  fix r :: "err + response" and es :: "(request \<times> (err + response)) list"
  assume last: "\<forall>resp. r = Inr resp \<longrightarrow> (\<exists>rq rest. es = (rq, Inr resp) # rest
    \<and> is_request ''POST'' (encoded_path (debuggerPath @ action)) None rq)"
  show "traces (\<lambda>r' fs. ended_justified E timeout action r' (fs @ es))
      (case r of Inl e \<Rightarrow> stepFailed E timeout action e | Inr resp \<Rightarrow> of_sum (stepAnswer E action resp))"
  proof (cases r)
    case (Inl e)
    then show ?thesis by (auto intro: traces_weaken [OF traces_stepFailed] justified_append)
  next
    case (Inr resp)
    with last obtain rq rest where "es = (rq, Inr resp) # rest"
      "is_request ''POST'' (encoded_path (debuggerPath @ action)) None rq" by blast
    with Inr show ?thesis by (auto intro!: traces_pure stepAnswer_justified)
  qed
qed

lemma traces_retryAgain:
  assumes "traces (ended_justified E timeout action) m"
  shows "isAdiFailed e \<Longrightarrow> traces (\<lambda>r fs. ended_justified E timeout action r (fs @ es)) (retryAgain E pause m n e)"
proof (induction n arbitrary: e es)
  case 0
  then show ?case by (auto intro!: traces_pure justified_other simp: retriesExhausted_def is_ended_def)
next
  case (Suc n)
  have "traces (\<lambda>r fs. ended_justified E timeout action r (fs @ es)) (State_Monad.bind m (\<lambda>r. case r of Inr x \<Rightarrow> ok x
      | Inl e \<Rightarrow> if isAdiFailed e then retryAgain E pause m n e else fail e))"
  proof (rule traces_bind [OF assms])
    fix r fs assume j: "ended_justified E timeout action r fs"
    show "traces (\<lambda>r' gs. ended_justified E timeout action r' ((gs @ fs) @ es)) (case r of Inr x \<Rightarrow> ok x
      | Inl e \<Rightarrow> if isAdiFailed e then retryAgain E pause m n e else fail e)"
      using Suc.IH [of _ "fs @ es"] justified_append [OF j, of es] by (auto split: sum.splits intro!: traces_pure)
  qed
  with Suc.prems show ?case
    by (auto split: option.splits intro!: traces_modify traces_gets traces_pure justified_other dest: adi_failed_not_ended)
qed


section \<open>Pages of a table\<close>

text \<open>The size of the table \<open>nm\<close> as SAP reported it in one of the exchanges.\<close>

definition size_reported :: "'w env \<Rightarrow> string \<Rightarrow> int \<Rightarrow> (request \<times> (err + response)) list \<Rightarrow> bool" where
  "size_reported E nm n es \<longleftrightarrow> (\<exists>rq resp vars meta. (rq, Inr resp) \<in> set es \<and> rs_status resp < 400
     \<and> is_request ''POST'' (encoded_path (debuggerPath @ ''getVariables'')) (Some (VariablesRequest [nm])) rq
     \<and> ParseVariables E (rs_body resp) = Inr vars \<and> findTableMeta vars nm = Some meta
     \<and> dv_meta meta = ''table'' \<and> dv_lines meta = n)"

definition is_window :: "string \<Rightarrow> int \<Rightarrow> int \<Rightarrow> string list \<Rightarrow> request \<Rightarrow> bool" where
  "is_window nm offset len flds = is_request ''POST'' (encoded_path (debuggerPath @ ''getVariableData''))
     (Some (VariableDataRequest nm offset len flds))"

definition no_window :: "string \<Rightarrow> request \<Rightarrow> bool" where
  "no_window nm rq \<longleftrightarrow> is_preflight rq
     \<or> is_request ''POST'' (encoded_path (debuggerPath @ ''getVariables'')) (Some (VariablesRequest [nm])) rq"

text \<open>What was sent before the rows, and the request for them, which lies inside the table.\<close>

definition inside_table :: "'w env \<Rightarrow> string \<Rightarrow> int \<Rightarrow> int \<Rightarrow> string list
    \<Rightarrow> (request \<times> (err + response)) list \<Rightarrow> bool" where
  "inside_table E nm offset limit flds es \<longleftrightarrow> list_all (\<lambda>ev. no_window nm (fst ev)) es
     \<or> (\<exists>n len. size_reported E nm n es \<and> 1 \<le> offset \<and> 1 \<le> len \<and> len \<le> limit \<and> offset + len - 1 \<le> n
        \<and> list_all (\<lambda>ev. no_window nm (fst ev) \<or> is_window nm offset len flds (fst ev)) es)"

lemma readBody_sends [sends]: "emits P m \<Longrightarrow> emits P (readBody E w m)"
  unfolding readBody_def by (auto intro!: sends)

lemma GetVariables_sends: "emits (no_window nm) (GetVariables E [nm])"
  unfolding GetVariables_def postASX_def
  by (auto intro!: sends simp: accepts_preflight_def accepts_def no_window_def is_request_def)

lemma readRows_sends: "emits (\<lambda>rq. no_window nm rq \<or> is_window nm offset len flds rq) (readRows E nm offset len flds)"
  unfolding readRows_def
  by (auto intro!: sends simp: accepts_preflight_def accepts_def no_window_def is_window_def is_request_def)

lemma traces_GetVariables:
  "traces (\<lambda>r es. \<forall>vars. r = Inr vars \<longrightarrow> (\<exists>rq resp rest. es = (rq, Inr resp) # rest \<and> rs_status resp < 400
     \<and> is_request ''POST'' (encoded_path (debuggerPath @ ''getVariables'')) (Some (VariablesRequest [nm])) rq
     \<and> ParseVariables E (rs_body resp) = Inr vars)) (GetVariables E [nm])"
  unfolding GetVariables_def postASX_def readBody_def
proof (rule traces_tryw [OF traces_tryw [OF traces_write]])
  let ?body = "Some (VariablesRequest [nm])" and ?path = "debuggerPath @ ''getVariables''"
  let ?R = "\<lambda>data es. \<exists>rq resp rest. es = (rq, Inr resp) # rest \<and> rs_status resp < 400
     \<and> is_request ''POST'' (encoded_path ?path) ?body rq \<and> read_all resp = Inr data"
  show "traces (\<lambda>r fs. (\<forall>data. r = Inr data \<longrightarrow> ?R data (fs @ es))) (of_sum (read_all resp))"
    if "answered ''POST'' ?path ?body (Inr resp) es" for resp es
    using that by (intro traces_pure) (auto simp: answered_def)
  show "traces (\<lambda>r fs. \<forall>vars. r = Inr vars \<longrightarrow> (\<exists>rq resp rest. fs @ es = (rq, Inr resp) # rest \<and> rs_status resp < 400
     \<and> is_request ''POST'' (encoded_path ?path) ?body rq \<and> ParseVariables E (rs_body resp) = Inr vars))
     (tryw (wrapf ''GetVariables unmarshal: '') (of_sum (ParseVariables E data)) ok)"
    if "\<forall>d. Inr data = Inr d \<longrightarrow> ?R d es" for data es
  proof -
    from that obtain rq resp rest where es: "es = (rq, Inr resp) # rest" "rs_status resp < 400"
      "is_request ''POST'' (encoded_path ?path) ?body rq" "read_all resp = Inr data" by blast
    then have "rs_body resp = data" by (auto simp: read_all_def split: option.splits)
    with es show ?thesis
      by (intro traces_tryw [OF traces_pure(4) [where P = "\<lambda>r fs. r = ParseVariables E data \<and> fs = []"]])
        (auto intro!: traces_pure)
  qed
qed auto

text \<open>
  C30. \<open>GetTableRows\<close> asks for rows of the table only after SAP has said how many it has, and then only for
  rows that exist: the window begins at the offset asked for, is no longer than the limit and ends at the
  last row at the latest.
\<close>

theorem GetTableRows_stays_inside:
  "\<exists>es. wire (snd (run_state (GetTableRows E nm offset limit flds) s)) = es @ wire s
     \<and> inside_table E nm offset limit flds es"
proof -
  have window: "traces (\<lambda>r fs. inside_table E nm offset limit flds (fs @ es)) (tablePage E nm offset limit flds meta)"
    if es: "list_all (\<lambda>ev. no_window nm (fst ev)) es" "size_reported E nm (dv_lines meta) es \<or> dv_meta meta \<noteq> ''table''"
      and "1 \<le> offset" "1 \<le> limit" for es meta
  proof (cases "dv_meta meta = ''table'' \<and> offset \<le> dv_lines meta")
    case True
    let ?len = "min limit (dv_lines meta - offset + 1)"
    have bounds: "1 \<le> ?len" "?len \<le> limit" "offset + ?len - 1 \<le> dv_lines meta" using True that by auto
    have "traces (\<lambda>r fs. list_all (\<lambda>ev. no_window nm (fst ev) \<or> is_window nm offset ?len flds (fst ev)) fs)
        (tablePage E nm offset limit flds meta)"
      unfolding tablePage_def Let_def using True by (intro traces_emits) (auto intro!: sends readRows_sends)
    then show ?thesis
    proof (rule traces_weaken)
      fix r :: "err + table_page" and fs :: "(request \<times> (err + response)) list"
      assume fs: "list_all (\<lambda>ev. no_window nm (fst ev) \<or> is_window nm offset ?len flds (fst ev)) fs"
      have "size_reported E nm (dv_lines meta) (fs @ es)"
        using es(2) True unfolding size_reported_def set_append by blast
      moreover have "list_all (\<lambda>ev. no_window nm (fst ev) \<or> is_window nm offset ?len flds (fst ev)) (fs @ es)"
        using fs es(1) by (auto simp: list_all_iff)
      ultimately show "inside_table E nm offset limit flds (fs @ es)"
        unfolding inside_table_def using that(3) bounds by blast
    qed
  next
    case False
    then show ?thesis
      unfolding tablePage_def Let_def using es(1)
      by (auto intro!: traces_pure simp: inside_table_def)
  qed
  have "traces (\<lambda>r es. inside_table E nm offset limit flds es) (GetTableRows E nm offset limit flds)"
  proof (cases "offset < 1 \<or> limit < 1")
    case True
    then show ?thesis unfolding GetTableRows_def by (auto intro!: traces_pure simp: inside_table_def)
  next
    case False
    have "traces (\<lambda>r es. inside_table E nm offset limit flds es) (tryE (GetVariables E [nm]) (\<lambda>vars. case findTableMeta vars nm of
        None \<Rightarrow> fail (Msg (''GetTableRows: unknown variable '' @ quoted nm))
      | Some meta \<Rightarrow> tablePage E nm offset limit flds meta))"
    proof (rule traces_tryw [OF traces_both [OF traces_emits [OF GetVariables_sends] traces_GetVariables]])
      fix vars and es :: "(request \<times> (err + response)) list"
      assume a: "list_all (\<lambda>ev. no_window nm (fst ev)) es \<and> (\<forall>vars'. Inr vars = Inr vars' \<longrightarrow>
        (\<exists>rq resp rest. es = (rq, Inr resp) # rest \<and> rs_status resp < 400
         \<and> is_request ''POST'' (encoded_path (debuggerPath @ ''getVariables'')) (Some (VariablesRequest [nm])) rq
         \<and> ParseVariables E (rs_body resp) = Inr vars'))"
      show "traces (\<lambda>r fs. inside_table E nm offset limit flds (fs @ es)) (case findTableMeta vars nm of
          None \<Rightarrow> fail (Msg (''GetTableRows: unknown variable '' @ quoted nm))
        | Some meta \<Rightarrow> tablePage E nm offset limit flds meta)"
      proof (cases "findTableMeta vars nm")
        case None
        with a show ?thesis by (auto intro!: traces_pure simp: inside_table_def)
      next
        case (Some meta)
        have "size_reported E nm (dv_lines meta) es \<or> dv_meta meta \<noteq> ''table''"
          using a Some unfolding size_reported_def by fastforce
        with a False Some window show ?thesis by auto
      qed
    qed (auto simp: inside_table_def)
    with False show ?thesis by (simp add: GetTableRows_def)
  qed
  from traces_run [OF this, of s] show ?thesis by blast
qed

end
