(* ===== verification/CustExport.thy ===== *)
theory CustExport
  imports Query "HOL-Library.List_Lexorder" "HOL-Library.Char_ord"
begin

text \<open>
  The export of customizing tables (\<open>adt/custexport/export.go\<close>, \<open>config.go\<close>): which tables, the pages of one table,
  and the collection of the results. The code works on any \<open>adt.Client\<close>, of which it only calls
  \<open>RunQuery\<close>: that call is the parameter \<open>q\<close>, for the client of this package \<open>RunQuery E\<close>. The writer
  (SQLite and JSON files) is a parameter as well. The workers' tables are exported one after the other;
  in which order their results arrive is a parameter. Times and log lines are left out.
\<close>

section \<open>Data\<close>

type_synonym 's query = "string \<Rightarrow> int \<Rightarrow> ('s, err + query_result) state"

record export_config =
  ec_tables :: "string list"
  ec_customer_only :: bool
  ec_page_size :: int
  ec_workers :: int
  ec_system :: string
  ec_client :: string

record table_export =
  te_table :: string
  te_columns :: "query_column list"
  te_rows :: "string list list"
  te_total :: nat
  te_pages :: nat

text \<open>The outcome of one table: \<open>TableExportResult\<close> with or without an error.\<close>

type_synonym table_outcome = "string \<times> (err + table_export)"

record export_summary =
  es_system :: string
  es_client :: string
  es_tables :: nat
  es_exported :: nat
  es_empty :: nat
  es_rows :: nat
  es_page_size :: int
  es_workers :: int
  es_errors :: "(string \<times> err) list"

definition defaultPageSize :: int where "defaultPageSize = 100000"

definition defaultWorkers :: int where "defaultWorkers = 20"

definition maxWorkers :: int where "maxWorkers = 40"

section \<open>Which tables\<close>

definition tablesSQL :: string where
  "tablesSQL = ''SELECT TABNAME, CONTFLAG FROM DD02L WHERE CONTFLAG IN ('' @ literal ''C'' @ '','' @ literal ''G''
     @ '') AND TABCLASS = '' @ literal ''TRANSP'' @ '' AND AS4LOCAL = '' @ literal ''A'' @ '' AND AS4VERS = ''
     @ literal ''0000'' @ '' ORDER BY TABNAME''"

definition transportedSQL :: string where
  "transportedSQL = ''SELECT DISTINCT OBJNAME FROM E071K WHERE PGMID = '' @ literal ''R3TR'' @ '' AND OBJECT IN (''
     @ join '','' (map literal [''TABU'', ''CDAT'', ''VDAT'', ''TDAT'']) @ '') ORDER BY OBJNAME''"

text \<open>The first cells of the rows, trimmed.\<close>

definition firstCells :: "query_result \<Rightarrow> string list" where
  "firstCells qr = concat (map (\<lambda>row. case row of [] \<Rightarrow> [] | c # _ \<Rightarrow> [trim_space c]) (qr_rows qr))"

definition discoverTables :: "'s query \<Rightarrow> ('s, err + string list) state" where
  "discoverTables q = tryw (wrapf ''discoverTables: '') (q tablesSQL 200000) (\<lambda>qr.
     ok (sort (filter (\<lambda>n. n \<noteq> []) (firstCells qr))))"

definition discoverCustomerTables :: "'s query \<Rightarrow> ('s, err + string list) state" where
  "discoverCustomerTables q =
     tryw (wrapf ''discoverCustomerTables (E071K): '') (q transportedSQL 200000) (\<lambda>qr.
     tryE (discoverTables q) (\<lambda>all. ok (filter (\<lambda>t. t \<in> set (firstCells qr)) all)))"

section \<open>The key of a table\<close>

text \<open>The name of a key field, unless the row is none or a marker such as \<open>.INCLUDE\<close>.\<close>

definition keyField :: "string list \<Rightarrow> string option" where
  "keyField row = (case row of
      [] \<Rightarrow> None
    | c # _ \<Rightarrow> (let nm = trim_space c in if nm = [] \<or> has_prefix nm ''.'' then None else Some nm))"

definition keyType :: "string list \<Rightarrow> key_types" where
  "keyType row = (case keyField row of
      None \<Rightarrow> []
    | Some nm \<Rightarrow> if length row > 2 then [(nm, trim_space (row ! 2))] else [])"

text \<open>The types list has the latest assignment first.\<close>

definition fetchTableKeys :: "'s query \<Rightarrow> string \<Rightarrow> ('s, err + string list \<times> key_types) state" where
  "fetchTableKeys q table =
     tryw (wrapf (''fetchTableKeys '' @ table @ '': ''))
       (q (''SELECT FIELDNAME, POSITION, DATATYPE FROM DD03L WHERE TABNAME = '' @ literal table @ '' AND KEYFLAG = ''
         @ literal ''X'' @ '' AND AS4LOCAL = '' @ literal ''A'' @ '' ORDER BY POSITION'') 1000) (\<lambda>qr.
       ok (concat (map (\<lambda>row. case keyField row of None \<Rightarrow> [] | Some nm \<Rightarrow> [nm]) (qr_rows qr)),
         rev (concat (map keyType (qr_rows qr)))))"

section \<open>The pages of a table\<close>

text \<open>The index of a column; of two columns with one name the last.\<close>

definition columnIndex :: "query_column list \<Rightarrow> string \<Rightarrow> nat option" where
  "columnIndex columns k = (case filter (\<lambda>i. qc_name (columns ! i) = k) [0..<length columns] of
      [] \<Rightarrow> None | i # js \<Rightarrow> Some (last (i # js)))"

definition keyCell :: "query_column list \<Rightarrow> string list \<Rightarrow> string \<Rightarrow> string option" where
  "keyCell columns row k = (case columnIndex columns k of
      None \<Rightarrow> None | Some i \<Rightarrow> if i < length row then Some (row ! i) else None)"

definition missingColumns :: "query_column list \<Rightarrow> string list \<Rightarrow> string list \<Rightarrow> string list" where
  "missingColumns columns keys row = filter (\<lambda>k. keyCell columns row k = None) keys"

definition extractKeyValues :: "query_column list \<Rightarrow> string list \<Rightarrow> string list \<Rightarrow> string list option" where
  "extractKeyValues columns keys row =
     (if missingColumns columns keys row = [] then Some (map (\<lambda>k. the (keyCell columns row k)) keys) else None)"

definition markKeys :: "string list \<Rightarrow> query_column list \<Rightarrow> query_column list" where
  "markKeys keys columns = map (\<lambda>c. if qc_name c \<in> set keys then c\<lparr>qc_is_key := True\<rparr> else c) columns"

text \<open>What the loop of \<open>exportTable\<close> carries from page to page.\<close>

record paging =
  pa_rows :: "string list list"
  pa_columns :: "query_column list"
  pa_pages :: nat
  pa_last :: "string list"

definition noKeyError :: "string \<Rightarrow> nat \<Rightarrow> int \<Rightarrow> err" where
  "noKeyError table pages pageSize = Msg (''export '' @ table @ '' page '' @ itoa (int pages)
     @ '': the table has no key besides the client to paginate on and returned a full page (page size '' @ itoa pageSize
     @ ''); the table may hold more rows, raise the page size to export it'')"

definition noKeyValuesError :: "string \<Rightarrow> nat \<Rightarrow> string list \<Rightarrow> string list \<Rightarrow> err" where
  "noKeyValuesError table pages keys missing = Msg (''export '' @ table @ '' page '' @ itoa (int pages)
     @ '': cannot determine the pagination keys from the result (key columns '' @ join '', '' keys
     @ '', missing from result: '' @ join '', '' missing @ ''); the table would be exported incompletely'')"

definition noProgressError :: "string \<Rightarrow> nat \<Rightarrow> string list \<Rightarrow> err" where
  "noProgressError table pages keys = Msg (''export '' @ table @ '' page '' @ itoa (int pages)
     @ '': no progress, the last row has the same key values ('' @ join '', '' keys
     @ '') as the last row of the previous page; stopping instead of fetching the same page again'')"

definition finished :: "string \<Rightarrow> paging \<Rightarrow> table_export" where
  "finished table p = \<lparr>te_table = table, te_columns = pa_columns p, te_rows = pa_rows p,
     te_total = length (pa_rows p), te_pages = pa_pages p\<rparr>"

definition addPage :: "string list \<Rightarrow> query_result \<Rightarrow> paging \<Rightarrow> paging" where
  "addPage keys qr p = p\<lparr>pa_rows := pa_rows p @ qr_rows qr, pa_pages := Suc (pa_pages p),
     pa_columns := (if pa_pages p = 0 then markKeys keys (qr_columns qr) else pa_columns p)\<rparr>"

text \<open>
  What follows after a page: the outcome of the table (\<open>Inl\<close>), or the next page to ask for. The page size
  is positive (\<open>RunExport\<close> sees to it), so a full page has a last row.
\<close>

definition afterPage :: "string \<Rightarrow> string list \<Rightarrow> int \<Rightarrow> query_result \<Rightarrow> paging \<Rightarrow> (err + table_export) + paging" where
  "afterPage table keys pageSize qr p =
     (let pageKeys = FilterNonMandtKeys keys; p' = addPage keys qr p in
      if int (length (qr_rows qr)) < pageSize then Inl (Inr (finished table p'))
      else if pageKeys = [] then Inl (Inl (noKeyError table (pa_pages p') pageSize))
      else case extractKeyValues (pa_columns p') pageKeys (last (qr_rows qr)) of
          None \<Rightarrow> Inl (Inl (noKeyValuesError table (pa_pages p') pageKeys
            (missingColumns (pa_columns p') pageKeys (last (qr_rows qr)))))
        | Some nextValues \<Rightarrow>
            if nextValues = pa_last p then Inl (Inl (noProgressError table (pa_pages p') pageKeys))
            else Inr (p'\<lparr>pa_last := nextValues\<rparr>))"

definition pageSQL :: "string \<Rightarrow> string list \<Rightarrow> key_types \<Rightarrow> string list \<Rightarrow> err + string" where
  "pageSQL table keys types lastValues =
     (case BuildExportSQLTyped table keys (FilterNonMandtKeys keys) lastValues types of
        Inl e \<Rightarrow> Inl (wrapf (''build SQL for '' @ table @ '': '') (Msg e)) | Inr sql \<Rightarrow> Inr sql)"

text \<open>\<open>None\<close>: the fuel, one for each page, was not enough.\<close>

fun exportPages :: "'s query \<Rightarrow> string \<Rightarrow> string list \<Rightarrow> key_types \<Rightarrow> int \<Rightarrow> nat \<Rightarrow> paging
    \<Rightarrow> ('s, (err + table_export) option) state" where
  "exportPages q table keys types pageSize 0 p = State_Monad.return None"
| "exportPages q table keys types pageSize (Suc fuel) p =
     (case pageSQL table keys types (pa_last p) of
        Inl e \<Rightarrow> State_Monad.return (Some (Inl e))
      | Inr sql \<Rightarrow> State_Monad.bind (q sql pageSize) (\<lambda>r. case r of
            Inl e \<Rightarrow> State_Monad.return (Some (Inl (wrapf (''query '' @ table @ '' page '' @ itoa (int (pa_pages p + 1)) @ '': '') e)))
          | Inr qr \<Rightarrow> (case afterPage table keys pageSize qr p of
                Inl outcome \<Rightarrow> State_Monad.return (Some outcome)
              | Inr p' \<Rightarrow> exportPages q table keys types pageSize fuel p')))"

definition exportTable :: "nat \<Rightarrow> 's query \<Rightarrow> string \<Rightarrow> string list \<Rightarrow> key_types \<Rightarrow> int
    \<Rightarrow> ('s, (err + table_export) option) state" where
  "exportTable fuel q table keys types pageSize =
     exportPages q table keys types pageSize fuel \<lparr>pa_rows = [], pa_columns = [], pa_pages = 0, pa_last = []\<rparr>"

section \<open>What the caller passes\<close>

definition ParseTableList :: "string \<Rightarrow> string list" where
  "ParseTableList s = map to_upper (filter (\<lambda>t. t \<noteq> []) (map trim_space (split_on (CHR '','') s)))"

definition ClampWorkers :: "int \<Rightarrow> int" where
  "ClampWorkers n = (if n < 1 then defaultWorkers else if n > maxWorkers then maxWorkers else n)"

section \<open>The run\<close>

text \<open>One turn of a worker.\<close>

definition exportOne :: "nat \<Rightarrow> 's query \<Rightarrow> int \<Rightarrow> string \<Rightarrow> ('s, table_outcome option) state" where
  "exportOne fuel q pageSize table = State_Monad.bind (fetchTableKeys q table) (\<lambda>r. case r of
      Inl e \<Rightarrow> State_Monad.return (Some (table, Inl e))
    | Inr (keys, types) \<Rightarrow> State_Monad.bind (exportTable fuel q table keys types pageSize) (\<lambda>x.
        State_Monad.return (map_option (Pair table) x)))"

fun exportAll :: "nat \<Rightarrow> 's query \<Rightarrow> int \<Rightarrow> string list \<Rightarrow> ('s, table_outcome list option) state" where
  "exportAll fuel q pageSize [] = State_Monad.return (Some [])"
| "exportAll fuel q pageSize (t # ts) = State_Monad.bind (exportOne fuel q pageSize t) (\<lambda>x.
     State_Monad.bind (exportAll fuel q pageSize ts) (\<lambda>xs. State_Monad.return (case (x, xs) of
        (Some y, Some ys) \<Rightarrow> Some (y # ys) | _ \<Rightarrow> None)))"

text \<open>The writer is a function on the files \<open>'f\<close>; what the loop over the results counts.\<close>

type_synonym 'f writer = "table_export \<Rightarrow> 'f \<Rightarrow> err option \<times> 'f"

record 'f collected =
  co_exported :: nat
  co_empty :: nat
  co_rows :: nat
  co_errors :: "(string \<times> err) list"
  co_writer :: "err option"
  co_files :: 'f

definition nothing_collected :: "'f \<Rightarrow> 'f collected" where
  "nothing_collected files = \<lparr>co_exported = 0, co_empty = 0, co_rows = 0, co_errors = [], co_writer = None, co_files = files\<rparr>"

definition collectResult :: "'f writer \<Rightarrow> table_outcome \<Rightarrow> 'f collected \<Rightarrow> 'f collected" where
  "collectResult write outcome c = (case outcome of
      (table, Inl e) \<Rightarrow> c\<lparr>co_errors := co_errors c @ [(table, e)]\<rparr>
    | (table, Inr t) \<Rightarrow>
        if co_writer c \<noteq> None then c
        else if te_rows t = [] then c\<lparr>co_empty := Suc (co_empty c), co_files := snd (write t (co_files c))\<rparr>
        else c\<lparr>co_rows := co_rows c + length (te_rows t), co_exported := Suc (co_exported c),
          co_writer := fst (write t (co_files c)), co_files := snd (write t (co_files c))\<rparr>)"

definition pageSizeOf :: "export_config \<Rightarrow> int" where
  "pageSizeOf cfg = (if ec_page_size cfg \<le> 0 then defaultPageSize else ec_page_size cfg)"

definition workersOf :: "export_config \<Rightarrow> int" where
  "workersOf cfg = min maxWorkers (if ec_workers cfg \<le> 0 then defaultWorkers else ec_workers cfg)"

definition exportTables :: "'s query \<Rightarrow> export_config \<Rightarrow> ('s, err + string list) state" where
  "exportTables q cfg =
     (if ec_tables cfg \<noteq> [] then ok (sort (ec_tables cfg))
      else if ec_customer_only cfg then tryw (wrapf ''discover customer tables: '') (discoverCustomerTables q) ok
      else tryw (wrapf ''discover tables: '') (discoverTables q) ok)"

definition summaryOf :: "export_config \<Rightarrow> nat \<Rightarrow> 'f collected \<Rightarrow> export_summary" where
  "summaryOf cfg n c = \<lparr>es_system = ec_system cfg, es_client = ec_client cfg, es_tables = n, es_exported = co_exported c,
     es_empty = co_empty c, es_rows = co_rows c, es_page_size = pageSizeOf cfg, es_workers = workersOf cfg,
     es_errors = co_errors c\<rparr>"

text \<open>
  \<open>newWriter\<close> opens the files, \<open>save\<close> writes the summary beside them, \<open>arrive\<close> is the order in which the
  workers' results come in. The summary comes back also beside the error of saving it. \<open>None\<close> as in
  \<open>exportPages\<close>.
\<close>

definition RunExport :: "nat \<Rightarrow> 's query \<Rightarrow> (table_outcome list \<Rightarrow> table_outcome list) \<Rightarrow> (string \<Rightarrow> err + 'f)
    \<Rightarrow> 'f writer \<Rightarrow> (export_summary \<Rightarrow> 'f \<Rightarrow> err option) \<Rightarrow> export_config
    \<Rightarrow> ('s, (export_summary option \<times> err option) option) state" where
  "RunExport fuel q arrive newWriter write save cfg = State_Monad.bind (exportTables q cfg) (\<lambda>r. case r of
      Inl e \<Rightarrow> State_Monad.return (Some (None, Some e))
    | Inr tables \<Rightarrow> (case newWriter (ec_client cfg) of
        Inl e \<Rightarrow> State_Monad.return (Some (None, Some (wrapf ''create writer: '' e)))
      | Inr files \<Rightarrow> State_Monad.bind (exportAll fuel q (pageSizeOf cfg) tables) (\<lambda>outcomes.
          State_Monad.return (map_option (\<lambda>os.
            (let c = fold (collectResult write) (arrive os) (nothing_collected files) in
             case co_writer c of
               Some e \<Rightarrow> (None, Some (wrapf ''writer error: '' e))
             | None \<Rightarrow> (Some (summaryOf cfg (length tables) c), save (summaryOf cfg (length tables) c) (co_files c)))) outcomes))))"

end
