(* ===== verification/CustExportProps.thy ===== *)
theory CustExportProps
  imports CustExport "HOL-Library.Multiset"
begin

text \<open>
  What the customizing export guarantees: a table is exported whole or reported as failed, whatever the
  page size, and the summary of a run accounts for every table.
\<close>

section \<open>Whole tables\<close>

lemma columnIndex_mark [simp]: "columnIndex (markKeys keys columns) k = columnIndex columns k"
proof -
  have "filter (\<lambda>i. qc_name (markKeys keys columns ! i) = k) [0..<length columns]
      = filter (\<lambda>i. qc_name (columns ! i) = k) [0..<length columns]"
    by (rule filter_cong) (auto simp: markKeys_def)
  then show ?thesis by (simp add: columnIndex_def) (simp add: markKeys_def)
qed

lemma extractKeyValues_mark [simp]: "extractKeyValues (markKeys keys columns) ks row = extractKeyValues columns ks row"
  by (simp add: extractKeyValues_def missingColumns_def keyCell_def)

text \<open>The pagination key of a row, and that of the row before the \<open>i\<close>-th.\<close>

definition row_key :: "query_column list \<Rightarrow> string list \<Rightarrow> string list \<Rightarrow> string list option" where
  "row_key columns keys = extractKeyValues columns (FilterNonMandtKeys keys)"

definition key_before :: "query_column list \<Rightarrow> string list \<Rightarrow> string list list \<Rightarrow> nat \<Rightarrow> string list" where
  "key_before columns keys T i = (if i = 0 then [] else the (row_key columns keys (T ! (i - 1))))"

text \<open>A table with its rows: it has a key besides the client, in every row, and no two rows share it.\<close>

definition keyed_table :: "query_column list \<Rightarrow> string list \<Rightarrow> string list list \<Rightarrow> bool" where
  "keyed_table columns keys T \<longleftrightarrow> FilterNonMandtKeys keys \<noteq> [] \<and> list_all (\<lambda>row. row_key columns keys row \<noteq> None) T
     \<and> distinct (map (row_key columns keys) T)"

definition page_answer :: "(err \<Rightarrow> bool) \<Rightarrow> query_column list \<Rightarrow> string list list \<Rightarrow> err + query_result \<Rightarrow> bool" where
  "page_answer F columns rows r \<longleftrightarrow> (case r of
      Inl e \<Rightarrow> F e | Inr qr \<Rightarrow> qr_rows qr = rows \<and> qr_columns qr = columns)"

text \<open>
  The system answers the query for the rows after the \<open>i\<close>-th with the next \<open>n\<close> rows of \<open>T\<close>, or with an
  error in \<open>F\<close>.
\<close>

definition serves_table :: "(err \<Rightarrow> bool) \<Rightarrow> 's query \<Rightarrow> string \<Rightarrow> query_column list \<Rightarrow> string list \<Rightarrow> key_types
    \<Rightarrow> nat \<Rightarrow> string list list \<Rightarrow> bool" where
  "serves_table F q table columns keys types n T \<longleftrightarrow> list_all (\<lambda>k. case pageSQL table keys types (key_before columns keys T (k * n)) of
      Inl _ \<Rightarrow> False
    | Inr sql \<Rightarrow> yields (page_answer F columns (take n (drop (k * n) T))) (q sql (int n))) (filter (\<lambda>k. k * n \<le> length T) [0..<Suc (length T)])"

definition whole_or_failed :: "(err \<Rightarrow> bool) \<Rightarrow> string \<Rightarrow> nat \<Rightarrow> string list list \<Rightarrow> (err + table_export) option \<Rightarrow> bool" where
  "whole_or_failed F table n T x \<longleftrightarrow> (case x of
      None \<Rightarrow> False
    | Some (Inl e) \<Rightarrow> \<exists>page e0. F e0 \<and> e = wrapf (''query '' @ table @ '' page '' @ itoa page @ '': '') e0
    | Some (Inr t) \<Rightarrow> te_table t = table \<and> te_rows t = T \<and> te_total t = length T \<and> te_pages t = length T div n + 1)"

definition at_page :: "query_column list \<Rightarrow> string list \<Rightarrow> string list list \<Rightarrow> nat \<Rightarrow> nat \<Rightarrow> paging" where
  "at_page columns keys T n k = \<lparr>pa_rows = take (k * n) T, pa_columns = (if k = 0 then [] else markKeys keys columns),
     pa_pages = k, pa_last = key_before columns keys T (k * n)\<rparr>"

lemma row_key_length: "row_key columns keys row = Some ks \<Longrightarrow> length ks = length (FilterNonMandtKeys keys)"
  by (auto simp: row_key_def extractKeyValues_def split: if_splits)

lemma next_key:
  assumes "keyed_table columns keys T" and "i < j" and "j \<le> length T"
  shows "row_key columns keys (T ! (j - 1)) = Some (key_before columns keys T j)"
    and "key_before columns keys T j \<noteq> key_before columns keys T i"
proof -
  have some: "row_key columns keys (T ! m) \<noteq> None" if "m < length T" for m
    using assms(1) that by (auto simp: keyed_table_def list_all_length)
  have j: "j - 1 < length T" "j \<noteq> 0" using assms(2,3) by auto
  then show 1: "row_key columns keys (T ! (j - 1)) = Some (key_before columns keys T j)"
    using some [of "j - 1"] by (simp add: key_before_def)
  show "key_before columns keys T j \<noteq> key_before columns keys T i"
  proof (cases "i = 0")
    case True
    have "key_before columns keys T j \<noteq> []" using row_key_length [OF 1] assms(1) by (auto simp: keyed_table_def)
    with True show ?thesis by (simp add: key_before_def)
  next
    case False
    then have i: "i - 1 < length T" "i - 1 \<noteq> j - 1" using assms(2,3) by auto
    then have "row_key columns keys (T ! (i - 1)) = Some (key_before columns keys T i)"
      using some [of "i - 1"] False by (simp add: key_before_def)
    moreover have "row_key columns keys (T ! (i - 1)) \<noteq> row_key columns keys (T ! (j - 1))"
      using assms(1) i j(1) unfolding keyed_table_def distinct_conv_nth by (metis length_map nth_map)
    ultimately show ?thesis using 1 by auto
  qed
qed

lemma last_take_drop: "i + n \<le> length xs \<Longrightarrow> 1 \<le> n \<Longrightarrow> last (take n (drop i xs)) = xs ! (i + n - 1)"
  by (subst last_conv_nth) auto

lemma addPage_at_page:
  "qr_columns qr = columns \<Longrightarrow> addPage keys qr (at_page columns keys T n k) = \<lparr>pa_rows = take (k * n) T @ qr_rows qr,
     pa_columns = markKeys keys columns, pa_pages = Suc k, pa_last = key_before columns keys T (k * n)\<rparr>"
  by (cases "k = 0") (simp_all add: addPage_def at_page_def)

lemma afterPage_goes_on:
  assumes T: "keyed_table columns keys T" and n: "1 \<le> n" and rows: "qr_rows qr = take n (drop (k * n) T)"
    and cols: "qr_columns qr = columns" and le: "k * n \<le> length T"
  shows "afterPage table keys (int n) qr (at_page columns keys T n k) =
     (if length T < k * n + n
      then Inl (Inr \<lparr>te_table = table, te_columns = markKeys keys columns, te_rows = T, te_total = length T, te_pages = Suc k\<rparr>)
      else Inr (at_page columns keys T n (Suc k)))"
proof (cases "length T < k * n + n")
  case True
  then have "take (k * n) T @ take n (drop (k * n) T) = T" by simp
  moreover have "length (qr_rows qr) < n" using True n le by (simp add: rows)
  then have "afterPage table keys (int n) qr (at_page columns keys T n k)
      = Inl (Inr (finished table (addPage keys qr (at_page columns keys T n k))))"
    by (simp add: afterPage_def Let_def)
  ultimately show ?thesis using True by (simp add: addPage_at_page [OF cols] finished_def rows)
next
  case False
  have j: "k * n < Suc k * n" "Suc k * n \<le> length T" using n False by auto
  have "last (qr_rows qr) = T ! (Suc k * n - 1)" using False n by (simp add: rows last_take_drop add.commute)
  with next_key [OF T j] have next': "extractKeyValues columns (FilterNonMandtKeys keys) (last (qr_rows qr))
      = Some (key_before columns keys T (Suc k * n))"
    and new: "key_before columns keys T (Suc k * n) \<noteq> key_before columns keys T (k * n)" by (simp_all add: row_key_def)
  have "take (k * n) T @ take n (drop (k * n) T) = take (k * n + n) T" by (rule take_add [symmetric])
  then have "take (k * n) T @ take n (drop (k * n) T) = take (Suc k * n) T" by (simp add: add.commute)
  moreover have "FilterNonMandtKeys keys \<noteq> []" using T by (simp add: keyed_table_def)
  moreover have "pa_last (at_page columns keys T n k) = key_before columns keys T (k * n)" by (simp add: at_page_def)
  moreover have "\<not> int (length (qr_rows qr)) < int n" using False by (simp add: rows)
  ultimately show ?thesis using False next' new rows
    by (simp add: afterPage_def Let_def addPage_at_page [OF cols]) (simp add: at_page_def)
qed

lemma exportPages_rest:
  assumes T: "keyed_table columns keys T" and S: "serves_table F q table columns keys types n T" and n: "1 \<le> n"
  shows "length T - k * n < fuel \<Longrightarrow> k * n \<le> length T \<Longrightarrow>
     yields (whole_or_failed F table n T) (exportPages q table keys types (int n) fuel (at_page columns keys T n k))"
proof (induction fuel arbitrary: k)
  case (Suc fuel)
  have "k * 1 \<le> k * n" using n by (rule mult_le_mono2)
  with Suc.prems(2) have k: "k < Suc (length T)" by linarith
  then have "k \<in> set (filter (\<lambda>k. k * n \<le> length T) [0..<Suc (length T)])"
    using Suc.prems(2) unfolding set_filter by (simp only: set_upt atLeastLessThan_iff mem_Collect_eq le0 simp_thms)
  with S have "case pageSQL table keys types (key_before columns keys T (k * n)) of Inl _ \<Rightarrow> False
      | Inr sql \<Rightarrow> yields (page_answer F columns (take n (drop (k * n) T))) (q sql (int n))"
    unfolding serves_table_def list_all_iff by (rule bspec)
  then obtain sql where sql: "pageSQL table keys types (key_before columns keys T (k * n)) = Inr sql"
    and ans: "yields (page_answer F columns (take n (drop (k * n) T))) (q sql (int n))"
    by (cases "pageSQL table keys types (key_before columns keys T (k * n))") simp_all
  show ?case
    unfolding exportPages.simps at_page_def [of columns keys T n k] paging.simps sql sum.case
    unfolding at_page_def [of columns keys T n k, symmetric]
  proof (rule yields_bind [OF ans])
    fix r assume r: "page_answer F columns (take n (drop (k * n) T)) r"
    show "yields (whole_or_failed F table n T) (case r of
        Inl e \<Rightarrow> State_Monad.return (Some (Inl (wrapf (''query '' @ table @ '' page '' @ itoa (int (k + 1)) @ '': '') e)))
      | Inr qr \<Rightarrow> (case afterPage table keys (int n) qr (at_page columns keys T n k) of
          Inl outcome \<Rightarrow> State_Monad.return (Some outcome)
        | Inr p' \<Rightarrow> exportPages q table keys types (int n) fuel p'))"
    proof (cases r)
      case (Inl e)
      with r show ?thesis by (auto simp: page_answer_def whole_or_failed_def intro!: yields_pure)
    next
      case (Inr qr)
      with r have qr: "qr_rows qr = take n (drop (k * n) T)" "qr_columns qr = columns" by (auto simp: page_answer_def)
      note next' = afterPage_goes_on [OF T n qr Suc.prems(2), of table]
      show ?thesis
      proof (cases "length T < k * n + n")
        case True
        then have "length T div n = k" using Suc.prems(2) n by (intro div_nat_eqI) (auto simp: mult.commute)
        with True next' Inr show ?thesis by (auto simp: whole_or_failed_def intro!: yields_pure)
      next
        case False
        then have "length T - Suc k * n < fuel" "Suc k * n \<le> length T" using Suc.prems n by auto
        with False next' Inr Suc.IH [of "Suc k"] show ?thesis by simp
      qed
    qed
  qed
qed simp


lemma yields_unit: "yields P (m :: (unit, 'r) state) \<longleftrightarrow> P (fst (run_state m ()))"
  by (simp add: yields_def)

text \<open>A system that holds one table, as the answers to the statements the export sends.\<close>

definition table_server :: "string \<Rightarrow> query_column list \<Rightarrow> string list \<Rightarrow> string list list \<Rightarrow> unit query" where
  "table_server table columns keys T sql n = (case find (\<lambda>i. pageSQL table keys [] (key_before columns keys T i) = Inr sql)
       [0..<Suc (length T)] of
     None \<Rightarrow> fail (Msg ''unknown statement'')
   | Some i \<Rightarrow> ok \<lparr>qr_columns = columns, qr_rows = take (nat n) (drop i T), qr_total = int (length T), qr_execution = []\<rparr>)"

definition example_columns :: "query_column list" where
  "example_columns = map (\<lambda>c. \<lparr>qc_name = c, qc_type = ''C'', qc_description = [], qc_is_key = False\<rparr>) [''MANDT'', ''SPRAS'', ''TXT'']"

definition example_rows :: "string list list" where
  "example_rows = [[''100'', ''D'', ''eins''], [''100'', ''E'', ''one''], [''100'', ''F'', ''un''], [''100'', ''I'', ''uno''], [''100'', ''S'', ''uno'']]"


section \<open>The summary\<close>

definition failures :: "table_outcome list \<Rightarrow> (string \<times> err) list" where
  "failures os = concat (map (\<lambda>(t, r). case r of Inl e \<Rightarrow> [(t, e)] | Inr _ \<Rightarrow> []) os)"

definition exports :: "table_outcome list \<Rightarrow> table_export list" where
  "exports os = concat (map (\<lambda>(t, r). case r of Inl _ \<Rightarrow> [] | Inr x \<Rightarrow> [x]) os)"

definition row_count :: "table_export list \<Rightarrow> nat" where
  "row_count ts = sum_list (map (\<lambda>t. length (te_rows t)) ts)"

lemma outcome_simps [simp]:
  "failures [] = []" "exports [] = []" "row_count [] = 0"
  "failures ((t, Inl e) # os) = (t, e) # failures os" "failures ((t, Inr x) # os) = failures os"
  "exports ((t, Inl e) # os) = exports os" "exports ((t, Inr x) # os) = x # exports os"
  "row_count (x # xs) = length (te_rows x) + row_count xs"
  by (simp_all add: failures_def exports_def row_count_def)

lemma collect_steps:
  "collectResult write (t, Inl e) c = c\<lparr>co_errors := co_errors c @ [(t, e)]\<rparr>"
  "co_writer c = None \<Longrightarrow> collectResult write (t, Inr x) c =
     (if te_rows x = [] then c\<lparr>co_empty := Suc (co_empty c), co_files := snd (write x (co_files c))\<rparr>
      else c\<lparr>co_rows := co_rows c + length (te_rows x), co_exported := Suc (co_exported c),
        co_writer := fst (write x (co_files c)), co_files := snd (write x (co_files c))\<rparr>)"
  by (simp_all add: collectResult_def)

lemma writer_error_stays: "co_writer c \<noteq> None \<Longrightarrow> co_writer (fold (collectResult write) os c) \<noteq> None"
proof (induction os arbitrary: c)
  case (Cons x os)
  then have "co_writer (collectResult write x c) \<noteq> None"
    by (auto simp: collectResult_def split: prod.splits sum.splits)
  with Cons.IH show ?case by simp
qed simp

lemma collected_counts:
  assumes "co_writer (fold (collectResult write) os c) = None"
  shows "co_errors (fold (collectResult write) os c) = co_errors c @ failures os
     \<and> co_exported (fold (collectResult write) os c) = co_exported c + length (filter (\<lambda>t. te_rows t \<noteq> []) (exports os))
     \<and> co_empty (fold (collectResult write) os c) = co_empty c + length (filter (\<lambda>t. te_rows t = []) (exports os))
     \<and> co_rows (fold (collectResult write) os c) = co_rows c + row_count (exports os)"
  using assms
proof (induction os arbitrary: c)
  case (Cons x os)
  obtain t r where x: "x = (t, r)" by fastforce
  have "co_writer (collectResult write x c) = None" using Cons.prems writer_error_stays [of "collectResult write x c" "write" os] by (cases "co_writer (collectResult write x c)") auto
  then have "co_writer c = None" by (cases "co_writer c") (auto simp: collectResult_def split: prod.splits sum.splits)
  moreover have "co_writer (fold (collectResult write) os (collectResult write x c)) = None" using Cons.prems by simp
  note Cons.IH [OF this]
  ultimately show ?case by (cases r) (simp_all add: x collect_steps)
qed simp

lemma outcome_count: "length (failures os) + length (exports os) = length os"
proof (induction os)
  case (Cons x os)
  obtain t r where "x = (t, r)" by fastforce
  with Cons show ?case by (cases r) simp_all
qed simp

lemma exportOne_names: "yields (\<lambda>x. case x of None \<Rightarrow> True | Some y \<Rightarrow> fst y = table) (exportOne fuel q pageSize table)"
  unfolding exportOne_def
  by (rule yields_bind_any) (auto split: sum.splits option.splits intro!: yields_pure yields_bind_any)

lemma exportAll_names: "yields (\<lambda>x. case x of None \<Rightarrow> True | Some ys \<Rightarrow> map fst ys = ts) (exportAll fuel q pageSize ts)"
proof (induction ts)
  case (Cons t ts)
  show ?case
    unfolding exportAll.simps
    by (rule yields_bind [OF exportOne_names], rule yields_bind [OF Cons.IH])
      (auto split: option.splits intro!: yields_pure)
qed (auto intro: yields_pure)

text \<open>What a summary says of the outcomes of its tables.\<close>

definition summary_of_tables :: "string list \<Rightarrow> table_outcome list \<Rightarrow> export_summary \<Rightarrow> bool" where
  "summary_of_tables tables os sm \<longleftrightarrow> map fst os = tables \<and> es_tables sm = length tables
     \<and> mset (es_errors sm) = mset (failures os)
     \<and> es_empty sm = length (filter (\<lambda>t. te_rows t = []) (exports os)) \<and> es_rows sm = row_count (exports os)
     \<and> es_exported sm + es_empty sm + length (es_errors sm) = es_tables sm"

definition summary_accounts :: "nat \<Rightarrow> 's query \<Rightarrow> export_config \<Rightarrow> 's \<Rightarrow> (export_summary option \<times> err option) option \<Rightarrow> bool" where
  "summary_accounts fuel q cfg s x \<longleftrightarrow> (case x of
      Some (Some sm, _) \<Rightarrow> \<exists>tables s1 os s2. run_state (exportTables q cfg) s = (Inr tables, s1)
        \<and> run_state (exportAll fuel q (pageSizeOf cfg) tables) s1 = (Some os, s2) \<and> summary_of_tables tables os sm
    | _ \<Rightarrow> True)"

lemma mset_failures: "mset xs = mset ys \<Longrightarrow> mset (failures xs) = mset (failures ys)"
proof -
  have "mset (failures zs) = \<Sum>\<^sub># (image_mset (\<lambda>(t, r). case r of Inl e \<Rightarrow> {#(t, e)#} | Inr _ \<Rightarrow> {#}) (mset zs))" for zs
    by (induction zs) (auto split: prod.splits sum.splits simp: failures_def)
  then show "mset xs = mset ys \<Longrightarrow> mset (failures xs) = mset (failures ys)" by simp
qed

lemma mset_exports: "mset xs = mset ys \<Longrightarrow> mset (exports xs) = mset (exports ys)"
proof -
  have "mset (exports zs) = \<Sum>\<^sub># (image_mset (\<lambda>(t, r). case r of Inl _ \<Rightarrow> {#} | Inr x \<Rightarrow> {#x#}) (mset zs))" for zs
    by (induction zs) (auto split: prod.splits sum.splits simp: exports_def)
  then show "mset xs = mset ys \<Longrightarrow> mset (exports xs) = mset (exports ys)" by simp
qed

lemma row_count_mset: "mset xs = mset ys \<Longrightarrow> row_count xs = row_count ys"
  unfolding row_count_def by (metis mset_map sum_mset_sum_list)

lemma filter_length_mset: "mset xs = mset ys \<Longrightarrow> length (filter P xs) = length (filter P ys)"
  by (metis mset_filter size_mset)

lemma summary_of_collected:
  assumes names: "map fst os = tables" and same: "mset (arrive os) = mset os"
    and ok: "co_writer (fold (collectResult write) (arrive os) (nothing_collected files)) = None"
  shows "summary_of_tables tables os (summaryOf cfg (length tables) (fold (collectResult write) (arrive os) (nothing_collected files)))"
proof -
  have "length (failures os) + length (exports os) = length tables" using outcome_count [of os] names by auto
  moreover have "length (failures (arrive os)) = length (failures os)" "length (exports (arrive os)) = length (exports os)"
    using mset_failures [OF same] mset_exports [OF same] by (metis size_mset)+
  ultimately show ?thesis
    using collected_counts [OF ok] mset_failures [OF same] row_count_mset [OF mset_exports [OF same]]
      filter_length_mset [OF mset_exports [OF same]] names sum_length_filter_compl [of "\<lambda>t. te_rows t = []" "exports os"]
    by (simp add: summary_of_tables_def summaryOf_def nothing_collected_def)
qed

text \<open>
  C18. The summary of a run accounts for every table, in whatever order the workers' results arrive: its errors
  are those of the tables that failed, each once, the empty tables and the rows are those of the others, and
  the counts add up to the number of tables.
\<close>

theorem RunExport_accounts_for_every_table:
  assumes "\<And>os. mset (arrive os) = mset os"
  shows "summary_accounts fuel q cfg s (fst (run_state (RunExport fuel q arrive newWriter write save cfg) s))"
proof -
  obtain r s1 where tabs: "run_state (exportTables q cfg) s = (r, s1)" by fastforce
  show ?thesis
  proof (cases r)
    case (Inr tables)
    obtain x s2 where all: "run_state (exportAll fuel q (pageSizeOf cfg) tables) s1 = (x, s2)" by fastforce
    have names: "case x of None \<Rightarrow> True | Some ys \<Rightarrow> map fst ys = tables" using yieldsD [OF exportAll_names all] .
    show ?thesis
    proof (cases "newWriter (ec_client cfg)")
      case (Inr files)
      show ?thesis
      proof (cases x)
        case (Some os)
        with names have "map fst os = tables" by simp
        note counted = summary_of_collected [of os tables arrive "write" files cfg, OF this assms]
        show ?thesis
          using counted tabs \<open>r = Inr tables\<close> all Some \<open>newWriter (ec_client cfg) = Inr files\<close>
          by (auto simp: RunExport_def summary_accounts_def Let_def split: option.splits)
      qed (use tabs \<open>r = Inr tables\<close> all Inr in \<open>simp add: RunExport_def summary_accounts_def\<close>)
    qed (use tabs \<open>r = Inr tables\<close> in \<open>simp add: RunExport_def summary_accounts_def\<close>)
  qed (use tabs in \<open>simp add: RunExport_def summary_accounts_def\<close>)
qed

text \<open>A run over two tables, one of which the system does not know; the results arrive in reverse.\<close>

definition two_tables :: "unit query" where
  "two_tables sql n = (if sql = tablesSQL
     then ok \<lparr>qr_columns = [], qr_rows = [[''ZA'', ''C''], [''ZB'', ''C'']], qr_total = 2, qr_execution = []\<rparr>
     else if has_suffix sql ''ZA'' then ok \<lparr>qr_columns = [], qr_rows = [[''1'']], qr_total = 1, qr_execution = []\<rparr>
     else if contains_str sql ''DD03L'' \<and> \<not> contains_str sql ''ZB'' then ok \<lparr>qr_columns = [], qr_rows = [], qr_total = 0, qr_execution = []\<rparr>
     else fail (Msg ''down''))"

definition export_all :: export_config where
  "export_all = \<lparr>ec_tables = [], ec_customer_only = False, ec_page_size = 0, ec_workers = 0, ec_system = ''S'', ec_client = ''100''\<rparr>"

theorem RunExport_accounts_for_every_table_witness:
  "summary_accounts 3 two_tables export_all ()
     (fst (run_state (RunExport 3 two_tables rev (\<lambda>_. Inr ()) (\<lambda>_ f. (None, f)) (\<lambda>_ _. None) export_all) ()))
   \<and> map_option (\<lambda>x. map_option (\<lambda>sm. (es_tables sm, es_exported sm, es_rows sm, map fst (es_errors sm))) (fst x))
       (fst (run_state (RunExport 3 two_tables rev (\<lambda>_. Inr ()) (\<lambda>_ f. (None, f)) (\<lambda>_ _. None) export_all) ()))
     = Some (Some (2, 1, 1, [''ZB'']))"
proof (intro conjI)
  show "summary_accounts 3 two_tables export_all ()
     (fst (run_state (RunExport 3 two_tables rev (\<lambda>_. Inr ()) (\<lambda>_ f. (None, f)) (\<lambda>_ _. None) export_all) ()))"
    by (rule RunExport_accounts_for_every_table) simp
qed code_simp

end
