(* ===== verification/TextElements.thy ===== *)
theory TextElements
  imports Source Versions
begin

text \<open>
  Text symbols and selection texts (\<open>adt/textelements.go\<close>): the plain-text documents they travel in, and
  the calls that read and write them.
\<close>

section \<open>Data\<close>

record text_symbol =
  ts_key :: string
  ts_text :: string
  ts_max :: int

record selection_text =
  st_name :: string
  st_text :: string

record text_elements =
  tx_symbols :: "text_symbol list"
  tx_selections :: "selection_text list"

section \<open>The documents\<close>

definition trimCR :: "string \<Rightarrow> string" where
  "trimCR line = trim_right (\<lambda>c. c = CR) line"

text \<open>
  \<open>fmt.Sscanf(line, "@MaxLength:%d", &maxLen)\<close>: blanks, a sign and digits after the colon; the value stays
  when there is no number or it is out of range.
\<close>

definition maxLengthTag :: string where "maxLengthTag = ''@MaxLength:''"

definition scanMaxLength :: "string \<Rightarrow> int \<Rightarrow> int" where
  "scanMaxLength line old =
     (let rest = trim_left is_space (trim_prefix line maxLengthTag);
          sign = takeWhile (\<lambda>c. c = CHR ''+'' \<or> c = CHR ''-'') (take 1 rest);
          ds = takeWhile is_digit (drop (length sign) rest) in
      case atoi (sign @ ds) of Some n \<Rightarrow> n | None \<Rightarrow> old)"

text \<open>A line before \<open>=\<close>, trimmed, and after it.\<close>

definition keyValueLine :: "string \<Rightarrow> (string \<times> string) option" where
  "keyValueLine line = (case index_byte line (CHR ''='') of
      None \<Rightarrow> None
    | Some i \<Rightarrow> if i > 0 then Some (trim_space (take i line), drop (i + 1) line) else None)"

text \<open>One turn of the loop: the symbols so far and the pending maximal length.\<close>

definition symbolLine :: "string \<Rightarrow> text_symbol list \<times> int \<Rightarrow> text_symbol list \<times> int" where
  "symbolLine line0 st =
     (let line = trimCR line0 in
      if line = [] then st
      else if has_prefix line maxLengthTag then (fst st, scanMaxLength line (snd st))
      else case keyValueLine line of
          None \<Rightarrow> st
        | Some (k, v) \<Rightarrow> (fst st @ [\<lparr>ts_key = k, ts_text = v, ts_max = snd st\<rparr>], 0))"

definition parseTextSymbols :: "string \<Rightarrow> text_symbol list" where
  "parseTextSymbols source = fst (fold symbolLine (split_on NL source) ([], 0))"

definition selectionLine :: "string \<Rightarrow> selection_text list" where
  "selectionLine line0 =
     (let line = trimCR line0 in
      if line = [] then [] else case keyValueLine line of None \<Rightarrow> [] | Some (k, v) \<Rightarrow> [\<lparr>st_name = k, st_text = v\<rparr>])"

definition parseSelectionTexts :: "string \<Rightarrow> selection_text list" where
  "parseSelectionTexts source = concat (map selectionLine (split_on NL source))"

definition formatSymbol :: "text_symbol \<Rightarrow> string" where
  "formatSymbol s = (if ts_max s > 0 then maxLengthTag @ itoa (ts_max s) @ [NL] else []) @ ts_key s @ ''='' @ ts_text s @ [NL]"

definition formatTextSymbols :: "text_symbol list \<Rightarrow> string" where
  "formatTextSymbols symbols = concat (map formatSymbol symbols)"

text \<open>\<open>%-8s\<close>: blanks up to eight runes.\<close>

definition pad8 :: "string \<Rightarrow> string" where
  "pad8 s = s @ replicate (8 - rune_count s) (CHR '' '')"

definition formatSelectionTexts :: "selection_text list \<Rightarrow> string" where
  "formatSelectionTexts selections = concat (map (\<lambda>s. pad8 (st_name s) @ ''='' @ st_text s @ [NL]) selections)"

section \<open>The calls\<close>

definition textElementEndpoints :: "(string \<times> string) list" where
  "textElementEndpoints = [(''/sap/bc/adt/programs/programs/'', ''/sap/bc/adt/textelements/programs/''),
     (''/sap/bc/adt/oo/classes/'', ''/sap/bc/adt/textelements/classes/''),
     (''/sap/bc/adt/functions/groups/'', ''/sap/bc/adt/textelements/functiongroups/'')]"

text \<open>The prefixes exclude each other, so the order in which Go walks over its map does not matter.\<close>

definition resolveTextElementPath :: "string \<Rightarrow> err + string" where
  "resolveTextElementPath uri0 =
     (let uri = bareObjectURI uri0 in
      case find (\<lambda>(prefix, _). has_prefix (to_upper uri) (to_upper prefix)) textElementEndpoints of
        Some (prefix, path) \<Rightarrow> Inr (path @ drop (length prefix) uri)
      | None \<Rightarrow> Inl (Msg (''unsupported object type for text elements: URI '' @ quoted uri @ '' (only programs, classes, function groups)'')))"

definition TextElementLockURI :: "string \<Rightarrow> err + string" where
  "TextElementLockURI uri = resolveTextElementPath uri"

definition symbolsType :: string where "symbolsType = ''application/vnd.sap.adt.textelements.symbols.v1''"

definition selectionsType :: string where "selectionsType = ''application/vnd.sap.adt.textelements.selections.v1''"

definition readTextElementSource :: "'w env \<Rightarrow> string \<Rightarrow> string \<Rightarrow> ('w, string) go" where
  "readTextElementSource E path accept =
     tryE (checked E (\<lambda>e. e) (\<lambda>e. e) (doRead E path [(''Accept'', accept)])) (\<lambda>resp. of_sum (read_all resp))"

definition bothTextElements :: "err + string \<Rightarrow> err + string \<Rightarrow> err + text_elements" where
  "bothTextElements symbols selections =
     (let syms = (case symbols of Inr d \<Rightarrow> parseTextSymbols d | Inl _ \<Rightarrow> []);
          sels = (case selections of Inr d \<Rightarrow> parseSelectionTexts d | Inl _ \<Rightarrow> []);
          lastErr = (case selections of Inl e \<Rightarrow> Some e | Inr _ \<Rightarrow> (case symbols of Inl e \<Rightarrow> Some e | Inr _ \<Rightarrow> None)) in
      case lastErr of
        Some e \<Rightarrow> if syms = [] \<and> sels = [] then Inl e else Inr \<lparr>tx_symbols = syms, tx_selections = sels\<rparr>
      | None \<Rightarrow> Inr \<lparr>tx_symbols = syms, tx_selections = sels\<rparr>)"

definition GetTextElements :: "'w env \<Rightarrow> string \<Rightarrow> ('w, text_elements) go" where
  "GetTextElements E uri =
     tryE (of_sum (resolveTextElementPath uri)) (\<lambda>basePath.
       State_Monad.bind (readTextElementSource E (basePath @ ''/source/symbols'') symbolsType) (\<lambda>symbols.
       State_Monad.bind (readTextElementSource E (basePath @ ''/source/selections'') selectionsType) (\<lambda>selections.
         of_sum (bothTextElements symbols selections))))"

definition writeTextElementSource ::
    "'w env \<Rightarrow> string \<Rightarrow> string \<Rightarrow> string \<Rightarrow> string \<Rightarrow> string \<Rightarrow> ('w, unit) go" where
  "writeTextElementSource E path contentType body lockHandle transport =
     (let params = opt_param ''lockHandle'' lockHandle @ opt_param ''corrNr'' transport;
          path' = (if params = [] then path
            else path @ (if contains_str path ''?'' then ''&'' else ''?'') @ values_encode params) in
      tryE (checked E (\<lambda>e. e) (\<lambda>e. e) (doMutate E ''PUT'' path' (Some body)
        [(''Content-Type'', contentType), (''Accept'', contentType), (''X-sap-adt-sessiontype'', ''stateful'')])) (\<lambda>_. ok ()))"

text \<open>\<open>None\<close> is Go's nil: that part is not written.\<close>

definition SetTextElements :: "'w env \<Rightarrow> string \<Rightarrow> text_symbol list option \<Rightarrow> selection_text list option
    \<Rightarrow> string \<Rightarrow> string \<Rightarrow> ('w, unit) go" where
  "SetTextElements E uri symbols selections lockHandle transport =
     tryE (of_sum (resolveTextElementPath uri)) (\<lambda>basePath.
     tryE (case symbols of None \<Rightarrow> ok ()
       | Some ss \<Rightarrow> tryw (wrapf ''SetTextElements symbols: '') (writeTextElementSource E (basePath @ ''/source/symbols'')
           symbolsType (formatTextSymbols ss) lockHandle transport) ok) (\<lambda>_.
       case selections of None \<Rightarrow> ok ()
       | Some ss \<Rightarrow> tryw (wrapf ''SetTextElements selections: '') (writeTextElementSource E (basePath @ ''/source/selections'')
           selectionsType (formatSelectionTexts ss) lockHandle transport) ok))"

section \<open>What is written is read back\<close>

text \<open>
  Texts the documents can carry: a key that is its own trimmed form, has no \<open>=\<close> and is not the tag itself,
  one line of text that does not end in a carriage return, and a length that is a Go \<open>int\<close>.
\<close>

definition one_line :: "string \<Rightarrow> bool" where
  "one_line s \<longleftrightarrow> NL \<notin> set s"

definition key_ok :: "string \<Rightarrow> bool" where
  "key_ok k \<longleftrightarrow> k \<noteq> [] \<and> trim_space k = k \<and> one_line k \<and> CHR ''='' \<notin> set k"

definition text_ok :: "string \<Rightarrow> bool" where
  "text_ok t \<longleftrightarrow> one_line t \<and> trimCR t = t"

definition symbol_ok :: "text_symbol \<Rightarrow> bool" where
  "symbol_ok s \<longleftrightarrow> key_ok (ts_key s) \<and> \<not> has_prefix (ts_key s) maxLengthTag \<and> text_ok (ts_text s) \<and> 0 \<le> ts_max s \<and> ts_max s < 2 ^ 63"

definition selection_ok :: "selection_text \<Rightarrow> bool" where
  "selection_ok s \<longleftrightarrow> key_ok (st_name s) \<and> text_ok (st_text s)"

lemma trimCR_snoc: "c \<noteq> CR \<Longrightarrow> trimCR (s @ [c]) = s @ [c]"
  by (simp add: trimCR_def trim_right_def)

lemma trimCR_no_cr: "CR \<notin> set s \<Longrightarrow> trimCR s = s"
  by (cases s rule: rev_cases) (auto simp: trimCR_snoc trimCR_def trim_right_def)

lemma trimCR_line:
  assumes "trimCR t = t"
  shows "trimCR (k @ CHR ''='' # t) = k @ CHR ''='' # t"
proof (cases t rule: rev_cases)
  case Nil
  then show ?thesis using trimCR_snoc [of "CHR ''=''" k] by simp
next
  case (snoc u c)
  have "c \<noteq> CR"
  proof
    assume "c = CR"
    with assms snoc have "rev (dropWhile (\<lambda>c. c = CR) (rev u)) = u @ [CR]"
      by (simp add: trimCR_def trim_right_def)
    then have "length (dropWhile (\<lambda>c. c = CR) (rev u)) = Suc (length u)"
      by (metis length_append_singleton length_rev)
    with length_dropWhile_le [of "\<lambda>c. c = CR" "rev u"] show False by simp
  qed
  with snoc show ?thesis using trimCR_snoc [of c "k @ CHR ''='' # u"] by simp
qed

lemma keyValueLine_line:
  assumes "CHR ''='' \<notin> set k" and "k \<noteq> []"
  shows "keyValueLine (k @ CHR ''='' # t) = Some (trim_space k, t)"
  using assms index_byte_append [of "CHR ''=''" k t] by (simp add: keyValueLine_def)

lemma digits_no_cr: "CR \<notin> set (digits n)"
  using digits_all_digit [of n] by (auto simp: list_all_iff is_digit_def)

lemma scanMaxLength_tag:
  assumes "0 \<le> n" and "n < 2 ^ 63"
  shows "scanMaxLength (maxLengthTag @ itoa n) old = n"
proof -
  obtain c cs where d: "digits (nat n) = c # cs" by (cases "digits (nat n)") auto
  have a: "list_all is_digit (c # cs)" using digits_all_digit [of "nat n"] d by simp
  then have c: "c \<noteq> CHR ''+''" "c \<noteq> CHR ''-''" "\<not> is_space c" "is_digit c"
    by (auto simp: is_digit_def is_space_def)
  have "takeWhile is_digit cs = cs" using a by (simp add: list_all_iff takeWhile_eq_all_conv)
  moreover have "atoi (c # cs) = Some n"
    using assms atoi_itoa [of n] d by (simp add: itoa_def)
  ultimately show ?thesis using assms c d
    by (simp add: scanMaxLength_def itoa_def trim_left_def del: takeWhile_eq_all_conv)
qed

text \<open>One entry is peeled off the front of the document; the loop goes on with the rest.\<close>

lemma has_prefix_before: "has_prefix (k @ c # t) p \<Longrightarrow> c \<notin> set p \<Longrightarrow> has_prefix k p"
proof (induction k arbitrary: p)
  case Nil
  then show ?case by (cases p) (simp_all add: has_prefix_def)
next
  case (Cons x k)
  then show ?case by (cases p) (auto simp: has_prefix_def)
qed

lemma symbolLine_entry:
  assumes "symbol_ok s"
  shows "symbolLine (ts_key s @ CHR ''='' # ts_text s) (acc, n) = (acc @ [s\<lparr>ts_max := n\<rparr>], 0)"
proof -
  from assms have k: "CHR ''='' \<notin> set (ts_key s)" "ts_key s \<noteq> []" "trim_space (ts_key s) = ts_key s"
    and t: "trimCR (ts_text s) = ts_text s" and p: "\<not> has_prefix (ts_key s) maxLengthTag"
    by (simp_all add: symbol_ok_def key_ok_def text_ok_def)
  have "\<not> has_prefix (ts_key s @ CHR ''='' # ts_text s) maxLengthTag"
    using p by (auto dest: has_prefix_before simp: maxLengthTag_def)
  with k t show ?thesis
    by (simp add: symbolLine_def Let_def trimCR_line keyValueLine_line)
qed

lemma parse_symbols_step:
  assumes "symbol_ok s"
  shows "fold symbolLine (split_on NL (formatSymbol s @ rest)) (acc, 0) = fold symbolLine (split_on NL rest) (acc @ [s], 0)"
proof -
  let ?line = "ts_key s @ CHR ''='' # ts_text s"
  from assms have nl: "NL \<notin> set ?line" and m: "0 \<le> ts_max s" "ts_max s < 2 ^ 63"
    by (auto simp: symbol_ok_def key_ok_def text_ok_def one_line_def)
  have entry: "split_on NL (?line @ NL # rest) = ?line # split_on NL rest"
    by (rule split_on_append_sep [OF nl])
  show ?thesis
  proof (cases "ts_max s > 0")
    case False
    with m have "s\<lparr>ts_max := 0\<rparr> = s" by simp
    with False entry show ?thesis by (simp add: formatSymbol_def symbolLine_entry [OF assms])
  next
    case True
    let ?tag = "maxLengthTag @ itoa (ts_max s)"
    have ds: "NL \<notin> set (itoa (ts_max s))" "CR \<notin> set (itoa (ts_max s))"
      using m digits_all_digit [of "nat (ts_max s)"] by (auto simp: itoa_def list_all_iff is_digit_def)
    then have tag: "NL \<notin> set ?tag" "CR \<notin> set ?tag" by (auto simp: maxLengthTag_def)
    have "?tag \<noteq> []" by (simp add: maxLengthTag_def)
    then have "symbolLine ?tag (acc, 0) = (acc, ts_max s)"
      using m by (simp only: symbolLine_def Let_def trimCR_no_cr [OF tag(2)] has_prefix_append scanMaxLength_tag) simp
    with True entry split_on_append_sep [OF tag(1), of "?line @ NL # rest"] show ?thesis
      by (simp add: formatSymbol_def symbolLine_entry [OF assms])
  qed
qed

lemma parse_symbols_all:
  "list_all symbol_ok ss \<Longrightarrow>
     fold symbolLine (split_on NL (formatTextSymbols ss @ rest)) (acc, 0) = fold symbolLine (split_on NL rest) (acc @ ss, 0)"
proof (induction ss arbitrary: acc)
  case Nil
  then show ?case by (simp add: formatTextSymbols_def)
next
  case (Cons s ss)
  have "formatTextSymbols (s # ss) @ rest = formatSymbol s @ formatTextSymbols ss @ rest"
    by (simp add: formatTextSymbols_def)
  with Cons show ?case using parse_symbols_step [of s "formatTextSymbols ss @ rest" acc] by simp
qed

text \<open>The blanks \<open>%-8s\<close> adds before the \<open>=\<close> are trimmed off again.\<close>

lemma trim_space_pad:
  assumes "k \<noteq> []" and "trim_space k = k"
  shows "trim_space (k @ replicate n (CHR '' '')) = k"
proof -
  have sp: "is_space (CHR '' '')" by (simp add: is_space_def)
  obtain c u where k: "k = c # u" using assms(1) by (cases k) auto
  have c: "\<not> is_space c"
  proof
    assume "is_space c"
    with k have "length (trim_space k) \<le> length u"
      using length_dropWhile_le [of is_space u] length_dropWhile_le [of is_space "rev (dropWhile is_space u)"]
      by (simp add: trim_space_def trim_left_def trim_right_def)
    with assms(2) k show False by simp
  qed
  have "trim_space (k @ replicate n (CHR '' '')) = trim_right is_space (k @ replicate n (CHR '' ''))"
    using k c by (simp add: trim_space_def trim_left_def)
  also have "\<dots> = trim_right is_space k"
  proof -
    have "dropWhile is_space (replicate n (CHR '' '') @ u) = dropWhile is_space u" for u
      using sp by (induction n) simp_all
    then show ?thesis by (simp add: trim_right_def)
  qed
  also have "\<dots> = k" using assms(2) k c by (simp add: trim_space_def trim_left_def)
  finally show ?thesis .
qed

lemma parse_selections_step:
  assumes "selection_ok s"
  shows "parseSelectionTexts (pad8 (st_name s) @ ''='' @ st_text s @ NL # rest) = s # parseSelectionTexts rest"
proof -
  let ?k = "pad8 (st_name s)"
  let ?line = "?k @ CHR ''='' # st_text s"
  from assms have k: "NL \<notin> set ?k" "CHR ''='' \<notin> set ?k" "?k \<noteq> []" "trim_space ?k = st_name s"
    and t: "NL \<notin> set (st_text s)" "trimCR (st_text s) = st_text s"
    by (auto simp: selection_ok_def key_ok_def text_ok_def one_line_def pad8_def trim_space_pad)
  have "selectionLine ?line = [s]"
    using k t by (simp add: selectionLine_def Let_def trimCR_line keyValueLine_line)
  with split_on_append_sep [of NL ?line rest] k t show ?thesis by (simp add: parseSelectionTexts_def)
qed

lemma parse_selections_all:
  "list_all selection_ok ss \<Longrightarrow> parseSelectionTexts (formatSelectionTexts ss @ rest) = ss @ parseSelectionTexts rest"
proof (induction ss)
  case Nil
  then show ?case by (simp add: formatSelectionTexts_def)
next
  case (Cons s ss)
  then show ?case using parse_selections_step [of s "formatSelectionTexts ss @ rest"]
    by (simp add: formatSelectionTexts_def)
qed



end
