(* ===== verification/Patch.thy ===== *)
theory Patch
  imports Prelude "HOL-Library.Multiset"
begin

text \<open>
  Source patches (\<open>adt/patch.go\<close>): line operations applied bottom-up after an overlap check,
  then search-and-replace operations. The main result is that the bottom-up application equals
  one pass from top to bottom over the original lines, so every operation's line numbers mean
  lines of the source the caller saw.
\<close>

section \<open>Operations\<close>

record patch_op =
  OpType :: string
  AfterLine :: int
  Content :: string
  FromLine :: int
  ToLine :: int
  Search :: string
  Replace :: string
  All :: bool

definition countLines :: "string \<Rightarrow> int" where
  "countLines s = (if s = [] then 0 else int (count_list s NL) + 1)"

definition LineDelta :: "string \<Rightarrow> string \<Rightarrow> int" where
  "LineDelta oldSource newSource = countLines newSource - countLines oldSource"

definition primaryKey :: "patch_op \<Rightarrow> int" where
  "primaryKey op =
     (if OpType op = ''insert'' then AfterLine op
      else if OpType op = ''replace'' \<or> OpType op = ''delete'' then FromLine op
      else 0)"

definition opStartLine :: "patch_op \<Rightarrow> int" where
  "opStartLine op = (if OpType op = ''insert'' then AfterLine op else FromLine op)"

definition opEndLine :: "patch_op \<Rightarrow> int" where
  "opEndLine op =
     (if OpType op = ''insert'' then AfterLine op
      else if OpType op = ''replace'' \<or> OpType op = ''delete'' then ToLine op
      else 0)"

definition splitLines :: "string \<Rightarrow> string list" where
  "splitLines source = (if source = [] then [] else split_on NL source)"

definition joinLines :: "string list \<Rightarrow> string" where
  "joinLines lines = join [NL] lines"

definition applyLineOp :: "string list \<Rightarrow> patch_op \<Rightarrow> string + string list" where
  "applyLineOp lines op =
     (let n = int (length lines); from = FromLine op; to = ToLine op in
      if OpType op = ''insert'' then
        (if AfterLine op < 0 \<or> AfterLine op > n then
           Inl (''insert: after_line '' @ itoa (AfterLine op) @ '' out of range (0..'' @ itoa n @ '')'')
         else Inr (take (nat (AfterLine op)) lines @ [Content op] @ drop (nat (AfterLine op)) lines))
      else if OpType op = ''replace'' then
        (if from < 1 \<or> to < from \<or> to > n then
           Inl (''replace: from_line='' @ itoa from @ '' to_line='' @ itoa to
                @ '' out of range (1..'' @ itoa n @ '')'')
         else Inr (take (nat (from - 1)) lines @ [Content op] @ drop (nat to) lines))
      else if OpType op = ''delete'' then
        (if from < 1 \<or> to < from \<or> to > n then
           Inl (''delete: from_line='' @ itoa from @ '' to_line='' @ itoa to
                @ '' out of range (1..'' @ itoa n @ '')'')
         else Inr (take (nat (from - 1)) lines @ drop (nat to) lines))
      else Inl (''unknown op: '' @ quoted (OpType op)))"

fun applyLineOps :: "string list \<Rightarrow> patch_op list \<Rightarrow> string + string list" where
  "applyLineOps lines [] = Inr lines"
| "applyLineOps lines (op # ops) =
     (case applyLineOp lines op of Inl e \<Rightarrow> Inl e | Inr ls \<Rightarrow> applyLineOps ls ops)"

text \<open>The overlap loop over neighbours of the sorted list: the text of the first overlap.\<close>

fun findOverlap :: "patch_op list \<Rightarrow> string option" where
  "findOverlap (a # b # ops) =
     (if primaryKey a \<le> opEndLine b \<and> opStartLine b \<le> opEndLine a then
        Some (''overlap between ops at lines '' @ itoa (opStartLine b) @ ''-'' @ itoa (opEndLine b)
              @ '' and '' @ itoa (primaryKey a) @ ''-'' @ itoa (opEndLine a))
      else findOverlap (b # ops))"
| "findOverlap ops = None"

section \<open>Search and replace\<close>

definition toCRLF :: "string \<Rightarrow> string" where
  "toCRLF s = replace_all (replace_all s CRLF [NL]) [NL] CRLF"

definition applySearchReplace :: "string \<Rightarrow> patch_op \<Rightarrow> string + string" where
  "applySearchReplace src op =
     (if Search op = [] then Inl ''search_replace: empty search string''
      else
        (let crlf = toCRLF (Search op);
             found = contains_str src (Search op) in
         if \<not> found \<and> (crlf = Search op \<or> \<not> contains_str src crlf) then
           Inl ''search_replace: search string not found in source (check that the text, whitespace and line endings match exactly)''
         else
           (let (search, repl) = (if found then (Search op, Replace op) else (crlf, toCRLF (Replace op))) in
            if All op then Inr (replace_all src search repl)
            else Inr (replace_first src search repl))))"

fun applySearchReplaces :: "string \<Rightarrow> patch_op list \<Rightarrow> string + string" where
  "applySearchReplaces src [] = Inr src"
| "applySearchReplaces src (op # ops) =
     (case applySearchReplace src op of Inl e \<Rightarrow> Inl e | Inr s \<Rightarrow> applySearchReplaces s ops)"

section \<open>The whole patch\<close>

text \<open>
  \<open>sort.Slice\<close> puts the line operations in descending order of their key and is not stable; the
  patch is first defined over any such order, and then with a stable sort.
  \<open>ApplyPatchOps_any_order\<close> shows that the order among equal keys never changes a patch that is
  applied.
\<close>

definition applySorted :: "string \<Rightarrow> patch_op list \<Rightarrow> patch_op list \<Rightarrow> string + string" where
  "applySorted source ls sr =
     (case findOverlap ls of
        Some e \<Rightarrow> Inl e
      | None \<Rightarrow>
          (case applyLineOps (splitLines source) ls of
             Inl e \<Rightarrow> Inl e
           | Inr lines \<Rightarrow> applySearchReplaces (joinLines lines) sr))"

definition lineOps :: "patch_op list \<Rightarrow> patch_op list" where
  "lineOps ops = filter (\<lambda>op. OpType op \<noteq> ''search_replace'') ops"

definition srOps :: "patch_op list \<Rightarrow> patch_op list" where
  "srOps ops = filter (\<lambda>op. OpType op = ''search_replace'') ops"

definition sortDescending :: "patch_op list \<Rightarrow> patch_op list" where
  "sortDescending ops = sort_key (\<lambda>op. - primaryKey op) ops"

definition ApplyPatchOps :: "string \<Rightarrow> patch_op list \<Rightarrow> string + string" where
  "ApplyPatchOps source ops = applySorted source (sortDescending (lineOps ops)) (srOps ops)"

section \<open>The one-pass specification\<close>

text \<open>
  The lines an operation puts in place of the original lines \<open>lo + 1 .. hi\<close>: an insertion
  replaces none.
\<close>

definition op_lo :: "patch_op \<Rightarrow> nat" where
  "op_lo op = (if OpType op = ''insert'' then nat (AfterLine op) else nat (FromLine op - 1))"

definition op_hi :: "patch_op \<Rightarrow> nat" where
  "op_hi op = (if OpType op = ''insert'' then nat (AfterLine op) else nat (ToLine op))"

definition op_new :: "patch_op \<Rightarrow> string list" where
  "op_new op = (if OpType op = ''delete'' then [] else [Content op])"

definition op_valid :: "nat \<Rightarrow> patch_op \<Rightarrow> bool" where
  "op_valid n op \<longleftrightarrow>
     (if OpType op = ''insert'' then 0 \<le> AfterLine op \<and> AfterLine op \<le> int n
      else (OpType op = ''replace'' \<or> OpType op = ''delete'')
           \<and> 1 \<le> FromLine op \<and> FromLine op \<le> ToLine op \<and> ToLine op \<le> int n)"

text \<open>One pass over the original lines, \<open>pos\<close> of them already copied, operations ascending.\<close>

fun one_pass :: "string list \<Rightarrow> nat \<Rightarrow> patch_op list \<Rightarrow> string list" where
  "one_pass lines pos [] = drop pos lines"
| "one_pass lines pos (op # ops) =
     take (op_lo op - pos) (drop pos lines) @ op_new op @ one_pass lines (op_hi op) ops"

section \<open>Correctness of the line operations\<close>

lemma applyLineOp_valid:
  "applyLineOp lines op =
     (if op_valid (length lines) op
      then Inr (take (op_lo op) lines @ op_new op @ drop (op_hi op) lines)
      else applyLineOp lines op)"
  by (auto simp: applyLineOp_def op_valid_def op_lo_def op_hi_def op_new_def Let_def)

lemma applyLineOp_Inr:
  "applyLineOp lines op = Inr ls \<longleftrightarrow>
     op_valid (length lines) op \<and> ls = take (op_lo op) lines @ op_new op @ drop (op_hi op) lines"
  by (auto simp: applyLineOp_def op_valid_def op_lo_def op_hi_def op_new_def Let_def split: if_splits)

lemma op_valid_bounds: "op_valid n op \<Longrightarrow> op_lo op \<le> op_hi op \<and> op_hi op \<le> n"
  by (auto simp: op_valid_def op_lo_def op_hi_def split: if_splits)

lemma op_valid_keys:
  "op_valid n op \<Longrightarrow> primaryKey op = opStartLine op \<and> opStartLine op \<le> opEndLine op
     \<and> opEndLine op = int (op_hi op) \<and> int (op_lo op) \<le> opStartLine op
     \<and> opStartLine op \<le> int (op_lo op) + 1"
  by (auto simp: op_valid_def op_lo_def op_hi_def primaryKey_def opStartLine_def opEndLine_def
      split: if_splits)

definition desc :: "patch_op list \<Rightarrow> bool" where
  "desc ops \<longleftrightarrow> sorted_wrt (\<lambda>a b. primaryKey b \<le> primaryKey a) ops"

lemma neighbours_disjoint:
  assumes "findOverlap (a # b # ops) = None" and "primaryKey b \<le> primaryKey a"
    and "op_valid n a" and "op_valid m b"
  shows "op_hi b \<le> op_lo a \<and> primaryKey b < primaryKey a"
  using assms(1,2) op_valid_keys [OF assms(3)] op_valid_keys [OF assms(4)]
  by (auto split: if_splits)

lemma all_disjoint:
  "findOverlap (a # ops) = None \<Longrightarrow> desc (a # ops) \<Longrightarrow> list_all (op_valid n) (a # ops) \<Longrightarrow>
     list_all (\<lambda>b. op_hi b \<le> op_lo a \<and> primaryKey b < primaryKey a) ops"
proof (induction ops arbitrary: a)
  case Nil
  then show ?case by simp
next
  case (Cons b ops)
  have ab: "op_hi b \<le> op_lo a \<and> primaryKey b < primaryKey a"
    using Cons.prems by (intro neighbours_disjoint) (auto simp: desc_def)
  have "op_lo b \<le> op_hi b" using Cons.prems(3) op_valid_bounds by auto
  moreover have "list_all (\<lambda>c. op_hi c \<le> op_lo b \<and> primaryKey c < primaryKey b) ops"
    using Cons.prems by (intro Cons.IH) (auto simp: desc_def split: if_splits)
  ultimately show ?case using ab by (auto simp: list_all_iff)
qed

lemma take_drop_take: "lo \<le> b \<Longrightarrow> take (lo - p) (drop p (take b xs)) = drop p (take lo xs)"
  by (cases "p \<le> lo") (simp_all add: take_drop min_def)

lemma one_pass_append:
  assumes "list_all (\<lambda>a. op_lo a \<le> op_hi a \<and> op_hi a \<le> op_lo op) asc" and "op_lo op \<le> b"
  shows "one_pass (take b lines) p (asc @ [op])
       = one_pass (take (op_lo op) lines) p asc @ op_new op @ drop (op_hi op) (take b lines)"
  using assms
proof (induction asc arbitrary: p)
  case Nil
  then show ?case by (simp add: take_drop_take)
next
  case (Cons a asc)
  then have "op_lo a \<le> op_lo op" by simp
  with Cons show ?case
    by (simp add: take_drop_take)
qed

text \<open>Below the operations already applied, the lines are still the original ones.\<close>

lemma applyLineOps_one_pass:
  assumes "applyLineOps (take b lines @ post) ops = Inr ls" and "b \<le> length lines"
    and "desc ops" and "findOverlap ops = None"
    and "\<And>n. ops \<noteq> [] \<Longrightarrow> op_valid n (hd ops) \<Longrightarrow> n = length (take b lines @ post) \<Longrightarrow> op_hi (hd ops) \<le> b"
  shows "list_all (op_valid (length lines)) ops
       \<and> ls = one_pass (take b lines) 0 (rev ops) @ post"
  using assms
proof (induction ops arbitrary: b post)
  case Nil
  then show ?case by simp
next
  case (Cons op ops)
  let ?cur = "take b lines @ post"
  from Cons.prems(1) obtain ls1 where ls1: "applyLineOp ?cur op = Inr ls1"
      and rest: "applyLineOps ls1 ops = Inr ls"
    by (auto split: sum.splits)
  then have v: "op_valid (length ?cur) op"
      and ls1': "ls1 = take (op_lo op) ?cur @ op_new op @ drop (op_hi op) ?cur"
    by (simp_all add: applyLineOp_Inr)
  from Cons.prems(5) v have hi: "op_hi op \<le> b" by simp
  from op_valid_bounds [OF v] have lo: "op_lo op \<le> op_hi op" by simp
  have valid: "op_valid (length lines) op"
    using v hi Cons.prems(2) op_valid_keys [OF v]
    by (auto simp: op_valid_def op_hi_def split: if_splits)
  have ls1'': "ls1 = take (op_lo op) lines @ (op_new op @ drop (op_hi op) (take b lines) @ post)"
    using ls1' hi lo Cons.prems(2) by simp
  have next_hi: "op_hi (hd ops) \<le> op_lo op"
    if ne: "ops \<noteq> []" and vn: "op_valid n (hd ops)" for n
  proof -
    obtain o2 os where os: "ops = o2 # os" using ne by (cases ops) auto
    then show ?thesis
      using neighbours_disjoint [of op o2 os] Cons.prems(3,4) v vn by (auto simp: desc_def)
  qed
  have "list_all (op_valid (length lines)) ops
      \<and> ls = one_pass (take (op_lo op) lines) 0 (rev ops)
          @ (op_new op @ drop (op_hi op) (take b lines) @ post)"
  proof (rule Cons.IH)
    show "applyLineOps (take (op_lo op) lines @ op_new op @ drop (op_hi op) (take b lines) @ post) ops = Inr ls"
      using rest ls1'' by simp
    show "op_lo op \<le> length lines" using lo hi Cons.prems(2) by simp
    show "desc ops" using Cons.prems(3) by (simp add: desc_def)
    show "findOverlap ops = None" using Cons.prems(4) by (cases ops) (auto split: if_splits)
  qed (use next_hi in blast)
  then have all: "list_all (op_valid (length lines)) (op # ops)"
    and ls: "ls = one_pass (take (op_lo op) lines) 0 (rev ops)
          @ op_new op @ drop (op_hi op) (take b lines) @ post"
    using valid by simp_all
  have "list_all (\<lambda>a. op_lo a \<le> op_hi a \<and> op_hi a \<le> op_lo op) (rev ops)"
    using all_disjoint [OF Cons.prems(4,3) all] all op_valid_bounds by (auto simp: list_all_iff)
  then have "one_pass (take b lines) 0 (rev ops @ [op])
      = one_pass (take (op_lo op) lines) 0 (rev ops) @ op_new op @ drop (op_hi op) (take b lines)"
    using lo hi by (intro one_pass_append) simp_all
  with all ls show ?case by simp
qed

lemma desc_sortDescending: "desc (sortDescending ops)"
proof -
  have "sorted (map (\<lambda>op. - primaryKey op) (sortDescending ops))"
    by (simp add: sortDescending_def)
  then show ?thesis by (simp add: desc_def sorted_map)
qed

lemma applySorted_Inr:
  assumes "applySorted source ls sr = Inr res" and "desc ls"
  shows "list_all (op_valid (length (splitLines source))) ls
       \<and> sorted_wrt (\<lambda>a b. op_hi b \<le> op_lo a \<and> primaryKey b < primaryKey a) ls
       \<and> applySearchReplaces (joinLines (one_pass (splitLines source) 0 (rev ls))) sr = Inr res"
proof -
  let ?L = "splitLines source"
  from assms(1) obtain lines where no: "findOverlap ls = None"
      and ap: "applyLineOps ?L ls = Inr lines" and sr: "applySearchReplaces (joinLines lines) sr = Inr res"
    by (auto simp: applySorted_def split: option.splits sum.splits)
  have "list_all (op_valid (length ?L)) ls \<and> lines = one_pass (take (length ?L) ?L) 0 (rev ls) @ []"
    using ap no assms(2) op_valid_bounds
    by (intro applyLineOps_one_pass) auto
  then have v: "list_all (op_valid (length ?L)) ls" and l: "lines = one_pass ?L 0 (rev ls)" by simp_all
  have "sorted_wrt (\<lambda>a b. op_hi b \<le> op_lo a \<and> primaryKey b < primaryKey a) ls"
    using no assms(2) v
  proof (induction ls)
    case (Cons a ls)
    have "findOverlap ls = None" using Cons.prems(1) by (cases ls) (auto split: if_splits)
    with Cons show ?case
      using all_disjoint [OF Cons.prems] by (auto simp: desc_def list_all_iff)
  qed simp
  with v l sr show ?thesis by simp
qed

text \<open>
  C8. A patch that is applied equals one pass over the original lines: every line number of an
  operation means a line of the source it was given, the operations touch disjoint ranges, and
  only then the search-and-replace operations run, in their order.
\<close>

theorem ApplyPatchOps_one_pass:
  assumes "ApplyPatchOps source ops = Inr res"
  shows "list_all (op_valid (length (splitLines source))) (lineOps ops)
       \<and> sorted_wrt (\<lambda>a b. op_hi a \<le> op_lo b) (rev (sortDescending (lineOps ops)))
       \<and> applySearchReplaces
           (joinLines (one_pass (splitLines source) 0 (rev (sortDescending (lineOps ops))))) (srOps ops)
         = Inr res"
proof -
  from applySorted_Inr [OF assms [unfolded ApplyPatchOps_def] desc_sortDescending]
  have "list_all (op_valid (length (splitLines source))) (sortDescending (lineOps ops))"
    and "sorted_wrt (\<lambda>a b. op_hi b \<le> op_lo a) (sortDescending (lineOps ops))"
    and "applySearchReplaces
           (joinLines (one_pass (splitLines source) 0 (rev (sortDescending (lineOps ops))))) (srOps ops)
         = Inr res"
    by (auto elim: sorted_wrt_mono_rel [rotated])
  then show ?thesis by (simp add: list_all_iff sortDescending_def sorted_wrt_rev)
qed

definition demo_ops :: "patch_op list" where
  "demo_ops =
     [\<lparr>OpType = ''replace'', AfterLine = 0, Content = ''X'', FromLine = 1, ToLine = 1,
       Search = [], Replace = [], All = False\<rparr>,
      \<lparr>OpType = ''insert'', AfterLine = 2, Content = ''Y'', FromLine = 0, ToLine = 0,
       Search = [], Replace = [], All = False\<rparr>]"

lemma demo_ops_applied:
  "ApplyPatchOps [CHR ''a'', NL, CHR ''b'', NL, CHR ''c''] demo_ops
   = Inr [CHR ''X'', NL, CHR ''b'', NL, CHR ''Y'', NL, CHR ''c'']"
  by (simp add: ApplyPatchOps_def demo_ops_def lineOps_def srOps_def sortDescending_def applySorted_def
      primaryKey_def opStartLine_def opEndLine_def applyLineOp_def splitLines_def joinLines_def)

theorem ApplyPatchOps_one_pass_witness:
  "let source = [CHR ''a'', NL, CHR ''b'', NL, CHR ''c''] in
   list_all (op_valid (length (splitLines source))) (lineOps demo_ops)
   \<and> sorted_wrt (\<lambda>a b. op_hi a \<le> op_lo b) (rev (sortDescending (lineOps demo_ops)))
   \<and> applySearchReplaces
       (joinLines (one_pass (splitLines source) 0 (rev (sortDescending (lineOps demo_ops))))) (srOps demo_ops)
     = Inr [CHR ''X'', NL, CHR ''b'', NL, CHR ''Y'', NL, CHR ''c'']"
  unfolding Let_def by (rule ApplyPatchOps_one_pass [OF demo_ops_applied])

text \<open>
  C33. The order \<open>sort.Slice\<close> happens to give operations with equal keys does not matter: any
  descending arrangement of the line operations that is applied gives the result of the patch.
\<close>

theorem ApplyPatchOps_any_order:
  assumes "mset ls = mset (lineOps ops)" and "desc ls"
    and "applySorted source ls (srOps ops) = Inr res"
  shows "ApplyPatchOps source ops = Inr res"
proof -
  have "sorted_wrt (\<lambda>a b. primaryKey b < primaryKey a) ls"
    using applySorted_Inr [OF assms(3,2)] by (auto elim: sorted_wrt_mono_rel [rotated])
  then have "sorted_wrt (<) (map (\<lambda>op. - primaryKey op) ls)"
    by (simp add: sorted_wrt_map)
  then have "inj_on (\<lambda>op. - primaryKey op) (set ls)"
    by (simp add: strict_sorted_iff distinct_map)
  then have "inj_on (\<lambda>op. - primaryKey op) (set (lineOps ops))"
    using mset_eq_setD [OF assms(1)] by simp
  moreover have "sorted (map (\<lambda>op. - primaryKey op) ls)"
    using assms(2) by (simp add: desc_def sorted_map)
  ultimately have "sortDescending (lineOps ops) = ls"
    unfolding sortDescending_def using assms(1) by (intro sort_key_inj_key_eq) simp_all
  with assms(3) show ?thesis by (simp add: ApplyPatchOps_def)
qed

theorem ApplyPatchOps_any_order_witness:
  "ApplyPatchOps [CHR ''a'', NL, CHR ''b'', NL, CHR ''c''] demo_ops
   = Inr [CHR ''X'', NL, CHR ''b'', NL, CHR ''Y'', NL, CHR ''c'']"
proof (rule ApplyPatchOps_any_order [where ls = "rev demo_ops"])
  show "mset (rev demo_ops) = mset (lineOps demo_ops)"
    by (simp add: demo_ops_def lineOps_def)
  show "desc (rev demo_ops)"
    by (simp add: demo_ops_def desc_def primaryKey_def)
  show "applySorted [CHR ''a'', NL, CHR ''b'', NL, CHR ''c''] (rev demo_ops) (srOps demo_ops)
      = Inr [CHR ''X'', NL, CHR ''b'', NL, CHR ''Y'', NL, CHR ''c'']"
    by (simp add: demo_ops_def srOps_def applySorted_def primaryKey_def opStartLine_def
        opEndLine_def applyLineOp_def splitLines_def joinLines_def)
qed

section \<open>Correctness of search and replace\<close>

lemma toCRLF_expand:
  "toCRLF s = concat (map (\<lambda>x. if x = NL then CRLF else [x]) (replace_all s CRLF [NL]))"
  by (simp add: toCRLF_def replace_all_byte)

lemma unexpand:
  "replace_all (concat (map (\<lambda>x. if x = NL then CRLF else [x]) u)) CRLF [NL] = u"
proof (induction u)
  case Nil
  then show ?case by simp
next
  case (Cons c u)
  show ?case
  proof (cases "c = NL")
    case True
    with Cons show ?thesis by (simp add: replace_all.simps(2) has_prefix_def)
  next
    case False
    then have "\<not> has_prefix (c # concat (map (\<lambda>x. if x = NL then CRLF else [x]) u)) CRLF"
      by (cases u) (auto simp: has_prefix_def)
    with False Cons show ?thesis by (simp add: replace_all.simps(2))
  qed
qed

lemma toCRLF_idempotent: "toCRLF (toCRLF s) = toCRLF s"
  unfolding toCRLF_expand by (simp only: unexpand)

text \<open>
  A search-and-replace is never a silent no-op: if it succeeds, the search text, as given or
  with its line ends realigned to CRLF, occurs in the source; without \<open>All\<close> the first such
  occurrence alone is replaced, by the replacement with the same line ends. It fails exactly
  when the text is empty or occurs in neither form.
\<close>

theorem applySearchReplace_correct:
  "(case applySearchReplace src op of
      Inl _ \<Rightarrow> Search op = []
        \<or> (\<not> contains_str src (Search op) \<and> \<not> contains_str src (toCRLF (Search op)))
    | Inr res \<Rightarrow> \<exists>s t p r.
        (s = Search op \<and> t = Replace op \<or> s = toCRLF (Search op) \<and> t = toCRLF (Replace op)
           \<and> \<not> contains_str src (Search op))
        \<and> src = p @ s @ r \<and> index_of src s = Some (length p)
        \<and> res = (if All op then replace_all src s t else p @ t @ r))"
proof (cases "applySearchReplace src op")
  case (Inl e)
  then show ?thesis
    by (auto simp: applySearchReplace_def Let_def split: if_splits prod.splits)
next
  case (Inr res)
  then obtain s t where st: "s = Search op \<and> t = Replace op
        \<or> s = toCRLF (Search op) \<and> t = toCRLF (Replace op) \<and> \<not> contains_str src (Search op)"
      "contains_str src s" "res = (if All op then replace_all src s t else replace_first src s t)"
    by (auto simp: applySearchReplace_def Let_def split: if_splits prod.splits)
  from st(2) obtain i where i: "index_of src s = Some i" by (auto simp: contains_str_def)
  from index_of_Some [OF i] have "i \<le> length src" "src = take i src @ s @ drop (i + length s) src"
    by simp_all
  then have "index_of src s = Some (length (take i src))" using i by simp
  moreover have "res = (if All op then replace_all src s t else take i src @ t @ drop (i + length s) src)"
    using st(3) i by (simp add: replace_first_def)
  ultimately show ?thesis
    unfolding Inr sum.case
    using st(1) \<open>src = take i src @ s @ drop (i + length s) src\<close> by (intro exI conjI)
qed

end
