(* ===== verification/Transports.thy ===== *)
theory Transports
  imports TransportDocs Answers
begin

text \<open>
  Acting on transport requests (\<open>adt/transport.go\<close>, \<open>adt/transport_copies.go\<close>, the bodies of
  \<open>adt/adtxml/transport.go\<close> and \<open>models.go\<close>): check, create, delete, release, and the entries of a
  request. A release may poll a background run for as long as the caller's context lives, so it is a
  function of a number of polls; \<open>None\<close> means that it is still polling after that many. The parameter
  \<open>pause\<close> is what waiting for \<open>pollInterval\<close> does to the outside world.
\<close>

section \<open>Bodies\<close>

text \<open>\<open>MarshalASXData\<close> for a struct of texts.\<close>

definition asx_body :: "(string \<times> string) list \<Rightarrow> string" where
  "asx_body fs = xml_header
     @ xml_elem ''asx:abap'' [(''xmlns:asx'', ''http://www.sap.com/abapxml''), (''version'', ''1.0'')]
         (xml_elem ''asx:values'' [] (xml_elem ''DATA'' []
           (concat (map (\<lambda>(k, v). xml_elem k [] (xml_escape v)) fs))))"

record tm_object =
  to_pgmid :: string
  to_type :: string
  to_name :: string
  to_wbtype :: string
  to_position :: string

record tm_request =
  tq_number :: string
  tq_desc :: string
  tq_type :: string
  tq_target :: string
  tq_task_owners :: "string list"
  tq_objects :: "tm_object list"

definition nsTM :: string where "nsTM = ''http://www.sap.com/cts/adt/tm''"

definition no_request :: tm_request where
  "no_request = \<lparr>tq_number = [], tq_desc = [], tq_type = [], tq_target = [], tq_task_owners = [], tq_objects = []\<rparr>"

definition tmObjectXML :: "tm_object \<Rightarrow> string" where
  "tmObjectXML ob = xml_elem ''tm:abap_object''
     ([(''tm:pgmid'', to_pgmid ob), (''tm:type'', to_type ob), (''tm:name'', to_name ob)]
      @ opt_attr ''tm:wbtype'' (to_wbtype ob) @ opt_attr ''tm:position'' (to_position ob)) []"

definition tmRequestXML :: "tm_request \<Rightarrow> string" where
  "tmRequestXML r = xml_elem ''tm:request''
     (opt_attr ''tm:number'' (tq_number r) @ opt_attr ''tm:desc'' (tq_desc r)
      @ opt_attr ''tm:type'' (tq_type r) @ opt_attr ''tm:target'' (tq_target r))
     (concat (map (\<lambda>ow. xml_elem ''tm:task'' [(''tm:owner'', ow)] []) (tq_task_owners r))
      @ concat (map tmObjectXML (tq_objects r)))"

definition tmRootXML :: "string \<Rightarrow> string \<Rightarrow> tm_request option \<Rightarrow> string" where
  "tmRootXML userAction number req = xml_elem ''tm:root''
     ((''xmlns:tm'', nsTM) # opt_attr ''tm:useraction'' userAction @ opt_attr ''tm:number'' number)
     (case req of None \<Rightarrow> [] | Some r \<Rightarrow> tmRequestXML r)"

definition local_adt_error :: "string \<Rightarrow> string \<Rightarrow> err" where
  "local_adt_error typ msg = Adt ((plain_adt_error 0 msg)\<lparr>ExcType := typ\<rparr>)"

section \<open>CheckTransport\<close>

record transport_check_result =
  tc_pgmid :: string
  tc_object :: string
  tc_name :: string
  tc_devclass :: string
  tc_result :: string
  tc_recording :: bool
  tc_requests :: "transport_request list"

definition checkRequest :: "xml \<Rightarrow> transport_request" where
  "checkRequest r = (let hs = kids_named ''REQ_HEADER'' r;
       t = (\<lambda>n. let ks = concat (map (kids_named n) hs) in if ks = [] then [] else xml_text (last ks)) in
     \<lparr>tr_number = t ''TRKORR'', tr_owner = [], tr_description = t ''AS4TEXT'',
      tr_state = TransportStateOf (t ''TRSTATUS''), tr_raw = t ''TRSTATUS''\<rparr>)"

definition checkResult :: "xml \<Rightarrow> transport_check_result" where
  "checkResult x = \<lparr>tc_pgmid = kid_text ''PGMID'' x, tc_object = kid_text ''OBJECT'' x,
     tc_name = kid_text ''OBJECTNAME'' x, tc_devclass = kid_text ''DEVCLASS'' x,
     tc_result = kid_text ''RESULT'' x, tc_recording = (kid_text ''RECORDING'' x = ''X''),
     tc_requests = map checkRequest (kids_path [''REQUESTS'', ''CTS_REQUEST''] x)\<rparr>"

definition CheckTransport :: "'w env \<Rightarrow> string \<Rightarrow> string \<Rightarrow> string \<Rightarrow> ('w, transport_check_result) go" where
  "CheckTransport E pgmID objType nm =
     tryE (checked E (wrapf ''CheckTransport: '') (\<lambda>e. e) (doMutate E ''POST'' ''/sap/bc/adt/cts/transportchecks''
        (Some (asx_body [(''PGMID'', to_upper pgmID), (''OBJECT'', to_upper objType),
          (''OBJECTNAME'', to_upper nm), (''OPERATION'', ''I'')]))
        [(''Content-Type'', ''application/vnd.sap.as+xml; charset=utf-8; dataname=com.sap.adt.transport.CheckObjects''),
         (''Accept'', ''application/vnd.sap.as+xml'')])) (\<lambda>resp.
     tryw (wrapf ''CheckTransport reading body: '') (of_sum (read_all resp)) (\<lambda>data.
     tryw (wrapf ''CheckTransport parsing: '') (of_sum (unmarshal_asx E data)) (\<lambda>x. ok (checkResult x))))"

section \<open>Creating\<close>

record create_options =
  co_type :: string
  co_description :: string
  co_package :: string
  co_target :: string

definition workbenchBody :: "string \<Rightarrow> string \<Rightarrow> string" where
  "workbenchBody description pkg = asx_body [(''DEVCLASS'', pkg), (''REQUEST_TEXT'', description)]"

definition createWorkbenchRequest :: "'w env \<Rightarrow> string \<Rightarrow> string \<Rightarrow> ('w, string) go" where
  "createWorkbenchRequest E description pkg =
     tryE (checked E (wrapf ''CreateTransport: '') (\<lambda>e. e) (doMutate E ''POST'' ''/sap/bc/adt/cts/transports''
        (Some (workbenchBody description pkg))
        [(''Content-Type'', ''application/vnd.sap.as+xml; charset=UTF-8; dataname=com.sap.adt.CreateCorrectionRequest.v1''),
         (''Accept'', ''application/vnd.sap.as+xml'')])) (\<lambda>resp.
     (let number = (case unmarshal_asx E (rs_body resp) of Inl _ \<Rightarrow> [] | Inr x \<Rightarrow> kid_text ''TRKORR'' x) in
      if rs_body resp \<noteq> [] \<and> number \<noteq> [] then ok number
      else fail (Msg (''CreateTransport: transport created but number not returned'' @ em_dash
        @ ''check GetTransportRequests to find it''))))"

definition typedRequest :: "'w env \<Rightarrow> string \<Rightarrow> string \<Rightarrow> string \<Rightarrow> tm_request" where
  "typedRequest E typ description target =
     (let ow = to_upper (trim_space (cfg_user E)) in
      no_request\<lparr>tq_desc := description, tq_type := typ, tq_target := target,
        tq_task_owners := (if typ = ''W'' \<and> ow \<noteq> [] then [ow] else [])\<rparr>)"

definition createdNumber :: "'w env \<Rightarrow> string \<Rightarrow> string" where
  "createdNumber E data = (case unmarshal_any E data of
      Inl _ \<Rightarrow> [] | Inr x \<Rightarrow> merged_attr_ns nsTM (kids_named_ns nsTM ''request'' x) ''number'')"

definition postTypedRequest :: "'w env \<Rightarrow> string \<Rightarrow> string \<Rightarrow> string \<Rightarrow> ('w, string) go" where
  "postTypedRequest E typ description target =
     tryE (checked E (wrapf ''CreateTransport: '') (\<lambda>e. e) (doMutate E ''POST'' transportRequestsPath
        (Some (xml_header @ tmRootXML [] [] (Some (typedRequest E typ description target))))
        [(''Content-Type'', transportOrganizerType), (''Accept'', transportOrganizerType)])) (\<lambda>resp.
     (let number = createdNumber E (rs_body resp) in
      if number \<noteq> [] then ok number
      else fail (Msg (''CreateTransport: request created but number not returned'' @ em_dash
        @ ''check GetTransportRequests to find it''))))"

definition createTypedRequest :: "'w env \<Rightarrow> string \<Rightarrow> string \<Rightarrow> string \<Rightarrow> ('w, string) go" where
  "createTypedRequest E typ description target =
     tryw (wrapf ''CreateTransport: '') (ensureCSRF E) (\<lambda>_.
     State_Monad.bind (gets (\<lambda>s. (discovery s \<noteq> [], accepted_types s transportRequestsPath))) (\<lambda>(haveDiscovery, accepts).
       if \<not> haveDiscovery then
         fail (Msg (''CreateTransport: no discovery data, so whether this system can create a request of type ''
           @ typ @ '' is unknown''))
       else if transportOrganizerType \<notin> set accepts then
         fail (local_adt_error ''ADT_TM_CREATEREQUEST_UNSUPPORTED''
           (''CreateTransport: this system cannot create a request of type '' @ typ
            @ '' over ADT (discovery offers no media type for '' @ transportRequestsPath @ ''); create it in SE09 instead''))
       else postTypedRequest E typ description target))"

definition CreateTransport :: "'w env \<Rightarrow> create_options \<Rightarrow> ('w, string) go" where
  "CreateTransport E opts =
     (let typ = to_upper (trim_space (co_type opts));
          pkg = to_upper (trim_space (co_package opts));
          target = to_upper (trim_space (co_target opts)) in
      if typ = [] \<or> typ = ''K'' then
        (if pkg = [] then
           fail (Msg ''CreateTransport: a workbench request needs a package; SAP takes its target from the package's transport layer'')
         else if target \<noteq> [] then
           fail (Msg ''CreateTransport: a workbench request takes its target from the package's transport layer; leave Target empty'')
         else createWorkbenchRequest E (co_description opts) pkg)
      else if typ = ''W'' \<or> typ = ''T'' then
        (if pkg \<noteq> [] then
           fail (Msg (''CreateTransport: request type '' @ typ @ '' does not belong to a package; leave Package empty''))
         else createTypedRequest E typ (co_description opts) target)
      else fail (Msg (''CreateTransport: unsupported request type '' @ quoted (co_type opts) @ '' (want K, W or T)'')))"

text \<open>The owner goes into the body as it is, the description escaped.\<close>

definition newTaskBody :: "string \<Rightarrow> string \<Rightarrow> string" where
  "newTaskBody ow description =
     ''<?xml version='' @ [QUOT] @ ''1.0'' @ [QUOT] @ '' encoding='' @ [QUOT] @ ''utf-8'' @ [QUOT] @ ''?>''
     @ ''<tm:root xmlns:tm='' @ [QUOT] @ nsTM @ [QUOT]
     @ '' tm:useraction='' @ [QUOT] @ ''newtask'' @ [QUOT] @ '' tm:targetuser='' @ [QUOT] @ ow @ [QUOT] @ ''>''
     @ ''<tm:task tm:owner='' @ [QUOT] @ ow @ [QUOT] @ '' tm:desc='' @ [QUOT] @ xml_escape description @ [QUOT] @ ''/>''
     @ ''</tm:root>''"

definition CreateTransportTask :: "'w env \<Rightarrow> string \<Rightarrow> string \<Rightarrow> string \<Rightarrow> ('w, string) go" where
  "CreateTransportTask E parentTransport ow description =
     (let ow' = to_upper (if ow = [] then cfg_user E else ow) in
      tryE (checked E (wrapf ''CreateTransportTask: '') (\<lambda>e. e) (doMutate E ''POST''
        (transportRequestsPath @ ''/'' @ parentTransport @ ''/tasks'') (Some (newTaskBody ow' description))
        [(''Content-Type'', transportOrganizerType), (''Accept'', transportOrganizerType)])) (\<lambda>resp.
      (let number = (case unmarshal_any E (rs_body resp) of Inl _ \<Rightarrow> [] | Inr x \<Rightarrow> xml_attr x ''number'') in
       if rs_body resp \<noteq> [] \<and> number \<noteq> [] then ok number
       else fail (Msg ''CreateTransportTask: task created but number not returned''))))"

definition DeleteTransport :: "'w env \<Rightarrow> string \<Rightarrow> ('w, unit) go" where
  "DeleteTransport E n =
     tryE (checked E (wrapf ''DeleteTransport: '') (\<lambda>e. e)
       (doMutate E ''DELETE'' (transportRequestsPath @ ''/'' @ n) None [])) (\<lambda>_. ok ())"

section \<open>Releasing\<close>

record release_result =
  rl_transport :: string
  rl_state :: transport_state
  rl_raw :: string

text \<open>A released run of a release: \<open>None\<close>, it is still polling; otherwise Go's \<open>error\<close> or what it returns.\<close>

type_synonym ('w, 'a) polling = "('w cl, (err + 'a) option) state"

definition ended :: "('s, err + 'a) state \<Rightarrow> ('s, (err + 'a) option) state" where
  "ended m = State_Monad.bind m (\<lambda>r. State_Monad.return (Some r))"

definition ended_with :: "err + 'a \<Rightarrow> ('s, (err + 'a) option) state" where
  "ended_with r = State_Monad.return (Some r)"

definition backgroundLink :: "string \<Rightarrow> xml list \<Rightarrow> string option" where
  "backgroundLink rel links =
     map_option (\<lambda>l. xml_attr l ''href'') (find (\<lambda>l. contains_str (xml_attr l ''rel'') rel \<and> xml_attr l ''href'' \<noteq> []) links)"

definition ParseBackgroundRunPollURI :: "'w env \<Rightarrow> string \<Rightarrow> string" where
  "ParseBackgroundRunPollURI E data =
     (if data = [] then []
      else case unmarshal_root E ''run'' data of
          Inl _ \<Rightarrow> []
        | Inr x \<Rightarrow>
            if kid_text ''status'' x = [] then []
            else (case backgroundLink ''self'' (kids_named ''link'' x) of None \<Rightarrow> [] | Some href \<Rightarrow> href))"

text \<open>
  SAP answers 200 even when a release failed; the report says so. A body that does not parse counts as
  no report. The text of the error is the report's status text and the texts of its messages of type E.
\<close>

definition checkReleaseResponse :: "'w env \<Rightarrow> string \<Rightarrow> string \<Rightarrow> err + unit" where
  "checkReleaseResponse E n data =
     (if data = [] then Inr ()
      else case unmarshal_any E data of
          Inl _ \<Rightarrow> Inr ()
        | Inr x \<Rightarrow>
            (let reports = kids_path [''releasereports'', ''checkReport''] x;
                 status = merged_attr reports ''status'';
                 items = concat (map (kids_path [''checkMessageList'', ''checkMessage'']) reports) in
             if status = [] \<or> status = ''released'' then Inr ()
             else Inl (Msg (''ReleaseTransport '' @ n @ '' failed: '' @ merged_attr reports ''statusText''
               @ concat (map (\<lambda>m. '': '' @ xml_attr m ''shortText'') (filter (\<lambda>m. xml_attr m ''type'' = ''E'') items))))))"

definition fetchReleaseResult :: "'w env \<Rightarrow> string \<Rightarrow> string \<Rightarrow> ('w, unit) go" where
  "fetchReleaseResult E n resultURI =
     tryw (wrapf (''ReleaseTransport '' @ n @ '' result: '')) (doRead E resultURI [(''Accept'', transportOrganizerType)]) (\<lambda>resp.
       if rs_status resp = 401 then
         fail (wrapf (''ReleaseTransport '' @ n @ '' result: '') (Adt (parseADTError E (rs_status resp) (rs_body resp))))
       else of_sum (checkReleaseResponse E n (rs_body resp)))"

text \<open>One turn of the polling loop after the pause: \<open>None\<close> goes on.\<close>

definition pollAnswer :: "'w env \<Rightarrow> string \<Rightarrow> response \<Rightarrow> ('w, unit) polling" where
  "pollAnswer E n resp =
     (if rs_status resp \<ge> 500 then State_Monad.return None
      else case checkResponse E resp of
          Some e \<Rightarrow> ended_with (Inl (wrapf (''ReleaseTransport '' @ n @ '' poll: '') e))
        | None \<Rightarrow>
        (case unmarshal_any E (rs_body resp) of
          Inl e \<Rightarrow> ended_with (Inl (wrapf (''ReleaseTransport '' @ n @ '': parsing poll response: '') e))
        | Inr x \<Rightarrow>
            (let status = kid_text ''status'' x in
             if to_lower status = ''finished'' then
               (case backgroundLink ''result'' (kids_named ''link'' x) of
                  Some href \<Rightarrow> ended (fetchReleaseResult E n href)
                | None \<Rightarrow> ended_with (Inr ()))
             else if to_lower status \<in> {''failed'', ''processnotstarted''} then
               ended_with (Inl (Msg (''ReleaseTransport '' @ n @ '': background run status: '' @ status)))
             else State_Monad.return None)))"

definition pollOnce :: "'w env \<Rightarrow> string \<Rightarrow> string \<Rightarrow> ('w, unit) polling" where
  "pollOnce E n pollURI = State_Monad.bind (doRead E pollURI [(''Accept'', ''application/vnd.sap.adt.bgrun.v1+xml'')])
     (\<lambda>r. case r of
        Inl e \<Rightarrow> ended_with (Inl (wrapf (''ReleaseTransport '' @ n @ '' poll: '') e))
      | Inr resp \<Rightarrow> pollAnswer E n resp)"

fun pollBackgroundRelease ::
    "'w env \<Rightarrow> ('w \<Rightarrow> 'w) \<Rightarrow> nat \<Rightarrow> string \<Rightarrow> string \<Rightarrow> ('w, unit) polling" where
  "pollBackgroundRelease E pause 0 n pollURI = State_Monad.return None"
| "pollBackgroundRelease E pause (Suc polls) n pollURI =
     State_Monad.bind (modify (\<lambda>s. s\<lparr>world := pause (world s)\<rparr>)) (\<lambda>_.
     State_Monad.bind (gets (\<lambda>s. ctx_err E (world s))) (\<lambda>over. case over of
        Some e \<Rightarrow> ended_with (Inl (wrapf (''ReleaseTransport '' @ n @ '': '') e))
      | None \<Rightarrow> State_Monad.bind (pollOnce E n pollURI) (\<lambda>r. case r of
            Some x \<Rightarrow> ended_with x
          | None \<Rightarrow> pollBackgroundRelease E pause polls n pollURI)))"

definition releaseHeaders :: "(string \<times> string) list" where
  "releaseHeaders = [(''Accept'', transportOrganizerType), (''X-sap-adt-sessiontype'', ''stateful'')]"

text \<open>
  What \<open>releaseTransportDirect\<close> makes of the answer of \<open>/releasejobs\<close>. It has read and closed the body
  before it calls \<open>checkResponse\<close>, which therefore finds an empty one.
\<close>

definition releaseJobsAnswer :: "'w env \<Rightarrow> string \<Rightarrow> response \<Rightarrow> err + unit" where
  "releaseJobsAnswer E n resp =
     (case checkResponse E (resp\<lparr>rs_body := []\<rparr>) of
        Some e \<Rightarrow> Inl e
      | None \<Rightarrow> checkReleaseResponse E n (rs_body resp))"

definition releaseJobs :: "'w env \<Rightarrow> string \<Rightarrow> ('w, unit) go" where
  "releaseJobs E n =
     tryw (wrapf (''ReleaseTransport '' @ n @ '': ''))
       (doMutate E ''POST'' (transportRequestsPath @ ''/'' @ n @ ''/releasejobs'') None releaseHeaders) (\<lambda>resp.
       of_sum (releaseJobsAnswer E n resp))"

definition newReleaseAnswer :: "'w env \<Rightarrow> ('w \<Rightarrow> 'w) \<Rightarrow> nat \<Rightarrow> string \<Rightarrow> response \<Rightarrow> ('w, unit) polling" where
  "newReleaseAnswer E pause polls n resp =
     (if rs_status resp < 400 then
        (let pollURI = ParseBackgroundRunPollURI E (rs_body resp) in
         if pollURI \<noteq> [] then pollBackgroundRelease E pause polls n pollURI
         else ended_with (checkReleaseResponse E n (rs_body resp)))
      else if rs_status resp = 401 then
        ended_with (Inl (wrapf (''ReleaseTransport '' @ n @ '': '') (Adt (parseADTError E (rs_status resp) (rs_body resp)))))
      else ended (releaseJobs E n))"

definition releaseTransportDirect :: "'w env \<Rightarrow> ('w \<Rightarrow> 'w) \<Rightarrow> nat \<Rightarrow> string \<Rightarrow> ('w, unit) polling" where
  "releaseTransportDirect E pause polls n =
     State_Monad.bind (doMutate E ''POST'' (transportRequestsPath @ ''/'' @ n @ ''/newreleasejobs'') None releaseHeaders)
     (\<lambda>r. case r of
        Inl e \<Rightarrow> ended_with (Inl (wrapf (''ReleaseTransport '' @ n @ '': '') e))
      | Inr resp \<Rightarrow> newReleaseAnswer E pause polls n resp)"

text \<open>The tasks first, then the request itself.\<close>

fun releaseTasks :: "'w env \<Rightarrow> ('w \<Rightarrow> 'w) \<Rightarrow> nat \<Rightarrow> string \<Rightarrow> string list \<Rightarrow> ('w, unit) polling" where
  "releaseTasks E pause polls n [] = releaseTransportDirect E pause polls n"
| "releaseTasks E pause polls n (task # tasks) =
     State_Monad.bind (releaseTransportDirect E pause polls task) (\<lambda>r. case r of
        None \<Rightarrow> State_Monad.return None
      | Some (Inl e) \<Rightarrow> ended_with (Inl (wrapf (''ReleaseTransport: releasing task '' @ task @ '' failed: '') e))
      | Some (Inr _) \<Rightarrow> releaseTasks E pause polls n tasks)"

definition unreleasedTasksError :: "string \<Rightarrow> string list \<Rightarrow> err" where
  "unreleasedTasksError n tasks = Msg (''transport '' @ n @ '' has '' @ itoa (int (length tasks))
     @ '' unreleased task(s): '' @ join '', '' tasks @ em_dash @ ''release them first or use ReleaseTransportWithTasks'')"

text \<open>After a release that failed with \<open>e\<close>: the request's tasks may be the reason.\<close>

definition releaseAfterError ::
    "'w env \<Rightarrow> ('w \<Rightarrow> 'w) \<Rightarrow> nat \<Rightarrow> string \<Rightarrow> bool \<Rightarrow> err \<Rightarrow> ('w, unit) polling" where
  "releaseAfterError E pause polls n withTasks e =
     (if is_unauthorized e then ended_with (Inl e)
      else State_Monad.bind (GetTransportTasks E n) (\<lambda>t. case t of
          Inl _ \<Rightarrow> ended_with (Inl e)
        | Inr tasks \<Rightarrow>
            if tasks = [] then ended_with (Inl e)
            else if \<not> withTasks then ended_with (Inl (unreleasedTasksError n tasks))
            else releaseTasks E pause polls n tasks))"

definition releaseTransport :: "'w env \<Rightarrow> ('w \<Rightarrow> 'w) \<Rightarrow> nat \<Rightarrow> string \<Rightarrow> bool \<Rightarrow> ('w, unit) polling" where
  "releaseTransport E pause polls n withTasks =
     State_Monad.bind (releaseTransportDirect E pause polls n) (\<lambda>r. case r of
        Some (Inl e) \<Rightarrow> releaseAfterError E pause polls n withTasks e
      | _ \<Rightarrow> State_Monad.return r)"

definition releaseState :: "string \<Rightarrow> err + transport_request \<Rightarrow> release_result" where
  "releaseState n info = (case info of
      Inl _ \<Rightarrow> \<lparr>rl_transport = n, rl_state = TransportStateUnknown, rl_raw = []\<rparr>
    | Inr i \<Rightarrow> \<lparr>rl_transport = n, rl_state = tr_state i, rl_raw = tr_raw i\<rparr>)"

definition releaseTransportVerified ::
    "'w env \<Rightarrow> ('w \<Rightarrow> 'w) \<Rightarrow> nat \<Rightarrow> string \<Rightarrow> bool \<Rightarrow> ('w, release_result) polling" where
  "releaseTransportVerified E pause polls n withTasks =
     State_Monad.bind (releaseTransport E pause polls n withTasks) (\<lambda>r. case r of
        None \<Rightarrow> State_Monad.return None
      | Some (Inl e) \<Rightarrow> ended_with (Inl e)
      | Some (Inr _) \<Rightarrow> State_Monad.bind (GetTransportInfo E n) (\<lambda>info. ended_with (Inr (releaseState n info))))"

definition ReleaseTransport :: "'w env \<Rightarrow> ('w \<Rightarrow> 'w) \<Rightarrow> nat \<Rightarrow> string \<Rightarrow> ('w, release_result) polling" where
  "ReleaseTransport E pause polls n = releaseTransportVerified E pause polls n False"

definition ReleaseTransportWithTasks :: "'w env \<Rightarrow> ('w \<Rightarrow> 'w) \<Rightarrow> nat \<Rightarrow> string \<Rightarrow> ('w, release_result) polling" where
  "ReleaseTransportWithTasks E pause polls n = releaseTransportVerified E pause polls n True"

section \<open>Entries of a request\<close>

definition addObjectsFromPackageRelation :: string where
  "addObjectsFromPackageRelation = ''http://www.sap.com/cts/relations/addobjectsfrompackage''"

definition invalid_number_char :: "char \<Rightarrow> bool" where
  "invalid_number_char c \<longleftrightarrow> c \<in> {CHR ''/'', CHR ''?'', CHR ''#'', CHR ''%'', CHR '' ''}"

fun validateTransportNumbers :: "string list \<Rightarrow> err option" where
  "validateTransportNumbers [] = None"
| "validateTransportNumbers (n # ns) =
     (if n = [] then Some (Msg ''transport number is empty'')
      else if list_ex invalid_number_char n then Some (Msg (''invalid transport number '' @ quoted n))
      else validateTransportNumbers ns)"

definition advertisesRelation :: "'w env \<Rightarrow> string \<Rightarrow> string \<Rightarrow> ('w, bool) go" where
  "advertisesRelation E number rel =
     tryE (readTransportXML E number transportOrganizerType) (\<lambda>data. ok (rel \<in> set (relationsOf E data)))"

definition ensureAddObjectsSupported :: "'w env \<Rightarrow> string \<Rightarrow> ('w, unit) go" where
  "ensureAddObjectsSupported E targetRequest =
     tryw (wrapf (''read target '' @ targetRequest @ '': ''))
       (advertisesRelation E targetRequest addObjectsFromPackageRelation) (\<lambda>yes.
       if yes then ok ()
       else fail (local_adt_error ''ADT_TM_ADDOBJECTS_UNSUPPORTED''
         (''transport request '' @ targetRequest @ '' does not advertise adding objects from a request or package ''
          @ ''(added in ABAP Platform 2105; never offered for a released request); include the objects in SE09 instead'')))"

definition ensureAddObjectSupported :: "'w env \<Rightarrow> string \<Rightarrow> ('w, unit) go" where
  "ensureAddObjectSupported E transport =
     tryw (wrapf (''read '' @ transport @ '': '')) (advertisesRelation E transport addObjectRelation) (\<lambda>yes.
       if yes then ok ()
       else fail (local_adt_error ''ADT_TM_ADDOBJECT_UNSUPPORTED''
         (''transport request '' @ transport @ '' does not advertise adding an object ''
          @ ''(not offered by SAP_BASIS 750, nor for a released request); add the entry in SE09 instead'')))"

definition putTransportUserAction :: "'w env \<Rightarrow> string \<Rightarrow> string \<Rightarrow> string \<Rightarrow> ('w, unit) go" where
  "putTransportUserAction E targetRequest query body =
     tryE (checked E (\<lambda>e. e) (\<lambda>e. e) (doMutate E ''PUT''
       (transportRequestsPath @ ''/'' @ path_escape targetRequest @ (if query \<noteq> [] then ''?'' @ query else []))
       (Some (xml_header @ body))
       [(''Content-Type'', transportOrganizerType), (''Accept'', transportOrganizerType)])) (\<lambda>_. ok ())"

definition addObjectBody :: "string \<Rightarrow> string \<Rightarrow> string \<Rightarrow> string \<Rightarrow> string" where
  "addObjectBody transport pgmID objectType objectName = tmRootXML ''addobject'' transport
     (Some (no_request\<lparr>tq_number := transport,
        tq_objects := [\<lparr>to_pgmid = pgmID, to_type = objectType, to_name = objectName, to_wbtype = [], to_position = []\<rparr>]\<rparr>))"

definition AddToTransport :: "'w env \<Rightarrow> string \<Rightarrow> string \<Rightarrow> string \<Rightarrow> string \<Rightarrow> ('w, unit) go" where
  "AddToTransport E pgmID0 objectType0 objectName0 transport0 =
     (let pgmID = to_upper (trim_space pgmID0); objectType = to_upper (trim_space objectType0);
          objectName = trim_space objectName0; transport = to_upper (trim_space transport0) in
      if pgmID = [] \<or> objectType = [] \<or> objectName = [] then
        fail (Msg (''AddToTransport: pgmid, object type and object name are required (got '' @ quoted pgmID
          @ '' '' @ quoted objectType @ '' '' @ quoted objectName @ '')''))
      else case validateTransportNumbers [transport] of
          Some e \<Rightarrow> fail (wrapf ''AddToTransport: '' e)
        | None \<Rightarrow>
            tryw (wrapf ''AddToTransport: '') (ensureAddObjectSupported E transport) (\<lambda>_.
            tryw (wrapf ''AddToTransport: '')
              (putTransportUserAction E transport [] (addObjectBody transport pgmID objectType objectName)) (\<lambda>_. ok ())))"

definition removeObjectUnsupported :: err where
  "removeObjectUnsupported = wrapf ''RemoveFromTransport: '' (local_adt_error ''ADT_TM_REMOVEOBJECT_UNSUPPORTED''
     (''this system's ADT does not advertise a remove-object operation for transport entries ''
      @ ''(added in AS ABAP 7.53 SP00 / ABAP Platform 1809); remove the entry in SE09 instead''))"

definition removeObjectAllowed :: "('w, unit) go" where
  "removeObjectAllowed = State_Monad.bind (gets removeObjectSupport) (\<lambda>st.
     if st = RemoveObjectUnsupported then fail removeObjectUnsupported else ok ())"

definition ensureRemoveObjectSupported :: "'w env \<Rightarrow> string \<Rightarrow> ('w, unit) go" where
  "ensureRemoveObjectSupported E parentTransport =
     State_Monad.bind (gets removeObjectSupport) (\<lambda>st.
       if st = RemoveObjectUnknown then
         State_Monad.bind (readTransportXML E parentTransport organizerOrXML) (\<lambda>r. case r of
             Inl e \<Rightarrow> if is_unauthorized e then fail (wrapf ''RemoveFromTransport: '' e) else removeObjectAllowed
           | Inr _ \<Rightarrow> removeObjectAllowed)
       else removeObjectAllowed)"

definition removeObjectBody :: "string \<Rightarrow> string \<Rightarrow> tm_object \<Rightarrow> string" where
  "removeObjectBody taskNumber parentTransport ob = tmRootXML ''removeobject'' taskNumber
     (Some (no_request\<lparr>tq_number := parentTransport, tq_objects := [ob]\<rparr>))"

definition RemoveFromTransport :: "'w env \<Rightarrow> string \<Rightarrow> string \<Rightarrow> tm_object \<Rightarrow> ('w, unit) go" where
  "RemoveFromTransport E taskNumber parentTransport ob =
     tryE (ensureRemoveObjectSupported E parentTransport) (\<lambda>_.
     tryE (checked E (wrapf ''RemoveFromTransport: '') (\<lambda>e. e) (doMutate E ''PUT''
       (transportRequestsPath @ ''/'' @ taskNumber) (Some (xml_header @ removeObjectBody taskNumber parentTransport ob))
       [(''Content-Type'', transportOrganizerType), (''Accept'', transportOrganizerType)])) (\<lambda>_. ok ()))"

definition sourceNumbers :: "'w env \<Rightarrow> string \<Rightarrow> string \<Rightarrow> err + string list" where
  "sourceNumbers E sourceRequest data =
     (case parseTransportInfo E data sourceRequest of
        Inl e \<Rightarrow> Inl (wrapf (''read source '' @ sourceRequest @ '': '') e)
      | Inr info \<Rightarrow>
          if tr_state info = TransportStateReleased then Inr [sourceRequest]
          else (case parseTransportTaskNumbers E data sourceRequest of
              Inl e \<Rightarrow> Inl (wrapf (''read tasks of '' @ sourceRequest @ '': '') e)
            | Inr tasks \<Rightarrow> Inr (sourceRequest # tasks)))"

definition copySources :: "'w env \<Rightarrow> string \<Rightarrow> ('w, string list) go" where
  "copySources E sourceRequest =
     tryw (wrapf (''read source '' @ sourceRequest @ '': '')) (readTransportXML E sourceRequest transportOrganizerType) (\<lambda>data.
       of_sum (sourceNumbers E sourceRequest data))"

fun copyEach :: "'w env \<Rightarrow> string \<Rightarrow> string \<Rightarrow> string list \<Rightarrow> ('w, unit) go" where
  "copyEach E targetRequest query [] = ok ()"
| "copyEach E targetRequest query (from # sources) =
     tryw (wrapf (''CopyTransportObjects: copy '' @ from @ '' into '' @ targetRequest @ '': ''))
       (putTransportUserAction E targetRequest query (tmRootXML ''addobjectfromrequest'' from None)) (\<lambda>_.
       copyEach E targetRequest query sources)"

definition CopyTransportObjects :: "'w env \<Rightarrow> string \<Rightarrow> string \<Rightarrow> bool \<Rightarrow> ('w, unit) go" where
  "CopyTransportObjects E source0 target0 withDocumentation =
     (let sourceRequest = to_upper (trim_space source0); targetRequest = to_upper (trim_space target0) in
      case validateTransportNumbers [sourceRequest, targetRequest] of
        Some e \<Rightarrow> fail (wrapf ''CopyTransportObjects: '' e)
      | None \<Rightarrow>
          if sourceRequest = targetRequest then
            fail (Msg (''CopyTransportObjects: source and target are the same request '' @ targetRequest))
          else
            tryw (wrapf ''CopyTransportObjects: '') (ensureAddObjectsSupported E targetRequest) (\<lambda>_.
            tryw (wrapf ''CopyTransportObjects: '') (copySources E sourceRequest) (\<lambda>sources.
              copyEach E targetRequest (if withDocumentation then [] else ''withdocumentation=X'') sources)))"

definition packageObjectsBody :: "string \<Rightarrow> string" where
  "packageObjectsBody packageName = tmRootXML ''addobjectsfrompackage'' []
     (Some (no_request\<lparr>tq_objects := [\<lparr>to_pgmid = ''R3TR'', to_type = ''DEVC'', to_name = packageName,
        to_wbtype = [], to_position = []\<rparr>]\<rparr>))"

definition AddPackageToTransport :: "'w env \<Rightarrow> string \<Rightarrow> string \<Rightarrow> bool \<Rightarrow> ('w, unit) go" where
  "AddPackageToTransport E package0 target0 includeSubpackages =
     (let packageName = to_upper (trim_space package0); targetRequest = to_upper (trim_space target0) in
      if packageName = [] then fail (Msg ''AddPackageToTransport: package name is empty'')
      else case validateTransportNumbers [targetRequest] of
          Some e \<Rightarrow> fail (wrapf ''AddPackageToTransport: '' e)
        | None \<Rightarrow>
            tryw (wrapf ''AddPackageToTransport: '') (ensureAddObjectsSupported E targetRequest) (\<lambda>_.
            tryw (wrapf ''AddPackageToTransport: '') (putTransportUserAction E targetRequest
              (if includeSubpackages then ''includesubpackageobjects=X'' else []) (packageObjectsBody packageName)) (\<lambda>_. ok ())))"

section \<open>After a rejected credential\<close>

lemma CheckTransport_stops [stops]: "stops401 unauth (CheckTransport E pgmID objType nm)"
  unfolding CheckTransport_def by (auto intro!: stops doMutate_stops)

lemma createWorkbenchRequest_stops [stops]: "stops401 unauth (createWorkbenchRequest E description pkg)"
  unfolding createWorkbenchRequest_def Let_def by (auto intro!: stops doMutate_stops)

lemma postTypedRequest_stops [stops]: "stops401 unauth (postTypedRequest E typ description target)"
  unfolding postTypedRequest_def Let_def by (auto intro!: stops doMutate_stops)

lemma createTypedRequest_stops [stops]: "stops401 unauth (createTypedRequest E typ description target)"
  unfolding createTypedRequest_def by (auto intro!: stops ensureCSRF_stops split: prod.splits)

lemma CreateTransport_stops [stops]: "stops401 unauth (CreateTransport E opts)"
  unfolding CreateTransport_def Let_def by (auto intro!: stops)

lemma CreateTransportTask_stops [stops]: "stops401 unauth (CreateTransportTask E parent ow description)"
  unfolding CreateTransportTask_def Let_def by (auto intro!: stops doMutate_stops)

lemma DeleteTransport_stops [stops]: "stops401 unauth (DeleteTransport E n)"
  unfolding DeleteTransport_def by (auto intro!: stops doMutate_stops)

lemma advertisesRelation_stops [stops]: "stops401 unauth (advertisesRelation E n rel)"
  unfolding advertisesRelation_def by (auto intro!: stops)

lemma ensureAdd_stops [stops]:
  "stops401 unauth (ensureAddObjectsSupported E n)" "stops401 unauth (ensureAddObjectSupported E n)"
  unfolding ensureAddObjectsSupported_def ensureAddObjectSupported_def by (auto intro!: stops)

lemma putTransportUserAction_stops [stops]: "stops401 unauth (putTransportUserAction E n query body)"
  unfolding putTransportUserAction_def by (auto intro!: stops doMutate_stops)

lemma AddToTransport_stops [stops]: "stops401 unauth (AddToTransport E pgmID objectType nm transport)"
  unfolding AddToTransport_def Let_def by (auto intro!: stops split: option.splits)

lemma removeObjectAllowed_silent: "silent (\<lambda>_. True) removeObjectAllowed"
  unfolding removeObjectAllowed_def by (rule silent_bind_gets) auto

lemma ensureRemoveObjectSupported_stops [stops]: "stops401 unauth (ensureRemoveObjectSupported E n)"
  unfolding ensureRemoveObjectSupported_def
  by (intro stops stops401_bind [OF readTransportXML_stops])
    (auto split: sum.splits intro!: stops intro: silent_stops removeObjectAllowed_silent)

lemma RemoveFromTransport_stops [stops]: "stops401 unauth (RemoveFromTransport E task parent ob)"
  unfolding RemoveFromTransport_def by (auto intro!: stops doMutate_stops)

lemma copySources_stops [stops]: "stops401 unauth (copySources E n)"
  unfolding copySources_def by (auto intro!: stops)

lemma copyEach_stops [stops]: "stops401 unauth (copyEach E target query sources)"
  by (induction sources) (auto intro!: stops)

lemma CopyTransportObjects_stops [stops]: "stops401 unauth (CopyTransportObjects E source target doc)"
  unfolding CopyTransportObjects_def Let_def by (auto intro!: stops split: option.splits)

lemma AddPackageToTransport_stops [stops]: "stops401 unauth (AddPackageToTransport E package target sub)"
  unfolding AddPackageToTransport_def Let_def by (auto intro!: stops split: option.splits)

definition unauthF :: "(err + 'a) option \<Rightarrow> bool" where
  "unauthF r = (case r of None \<Rightarrow> False | Some x \<Rightarrow> unauth x)"

lemma unauthF_simps [simp]: "\<not> unauthF None" "unauthF (Some x) = unauth x"
  by (simp_all add: unauthF_def)

lemma ended_with_stops [stops]: "stops401 P (ended_with r)"
  unfolding ended_with_def by (rule stops)

lemma silent_ended_with [intro!]: "P (Some r) \<Longrightarrow> silent P (ended_with r)"
  unfolding ended_with_def by (rule silent_return)

lemma ended_stops: "stops401 unauth m \<Longrightarrow> stops401 unauthF (ended m)"
  unfolding ended_def by (rule stops401_bind, assumption) (auto intro: stops)

lemma fetchReleaseResult_stops: "stops401 unauth (fetchReleaseResult E n uri)"
  unfolding fetchReleaseResult_def
  by (rule stops401_tryw_resp [OF doRead_stops(1)])
    (auto intro!: stops)

lemma pollAnswer_stops: "stops401 unauthF (pollAnswer E n resp)"
  unfolding pollAnswer_def Let_def
  by (auto split: option.splits sum.splits intro!: stops ended_stops fetchReleaseResult_stops)

lemma pollAnswer_401: "rs_status resp = 401 \<Longrightarrow> silent unauthF (pollAnswer E n resp)"
  unfolding pollAnswer_def
  by (auto simp: checkResponse_def split: option.splits)

lemma pollOnce_stops: "stops401 unauthF (pollOnce E n uri)"
  unfolding pollOnce_def
  by (rule stops401_bind [OF doRead_stops(1)])
    (auto split: sum.splits intro!: stops pollAnswer_stops pollAnswer_401)

lemma pollBackgroundRelease_stops: "stops401 unauthF (pollBackgroundRelease E pause polls n uri)"
proof (induction polls)
  case 0
  then show ?case by (auto intro: stops)
next
  case (Suc polls)
  show ?case
    unfolding pollBackgroundRelease.simps
    by (rule stops401_bind_modify; (rule stops)?)
      (auto split: option.splits intro!: stops stops401_bind [OF pollOnce_stops] Suc)
qed

lemma releaseJobsAnswer_401: "rs_status resp = 401 \<Longrightarrow> unauth (releaseJobsAnswer E n resp)"
  by (simp add: releaseJobsAnswer_def checkResponse_def)

lemma releaseJobs_stops: "stops401 unauth (releaseJobs E n)"
  unfolding releaseJobs_def
  by (rule stops401_tryw_resp [OF doMutate_stops(1)]) (auto intro!: stops releaseJobsAnswer_401)

lemma releaseTransportDirect_stops: "stops401 unauthF (releaseTransportDirect E pause polls n)"
  unfolding releaseTransportDirect_def
  by (rule stops401_bind [OF doMutate_stops(1)])
    (auto split: sum.splits intro!: stops pollBackgroundRelease_stops ended_stops releaseJobs_stops
      simp: newReleaseAnswer_def Let_def)

lemma releaseTasks_stops: "stops401 unauthF (releaseTasks E pause polls n tasks)"
  by (induction tasks)
    (auto split: option.splits sum.splits simp: releaseTransportDirect_stops
      intro!: stops stops401_bind [OF releaseTransportDirect_stops])

definition failedF :: "(err + 'a) option \<Rightarrow> bool" where
  "failedF r = (case r of Some (Inl _) \<Rightarrow> True | _ \<Rightarrow> False)"

lemma failedF_simps [simp]: "\<not> failedF None" "failedF (Some (Inl e))" "\<not> failedF (Some (Inr x))"
  by (simp_all add: failedF_def)

lemma unauthF_failed: "unauthF r \<Longrightarrow> failedF r"
  by (auto simp: unauthF_def failedF_def unauth_def split: option.splits sum.splits)

lemma releaseAfterError_stops: "stops401 failedF (releaseAfterError E pause polls n withTasks e)"
proof -
  note tasks = stops401_weaken [OF releaseTasks_stops unauthF_failed]
  show ?thesis
    unfolding releaseAfterError_def
    by (intro stops stops401_bind [OF GetTransportTasks_stops])
      (auto split: sum.splits intro!: stops tasks)
qed

lemma releaseAfterError_401: "is_unauthorized e \<Longrightarrow> silent failedF (releaseAfterError E pause polls n withTasks e)"
  by (auto simp: releaseAfterError_def)

lemma releaseTransport_stops: "stops401 failedF (releaseTransport E pause polls n withTasks)"
  unfolding releaseTransport_def
  by (rule stops401_bind [OF releaseTransportDirect_stops])
    (auto split: option.splits sum.splits intro!: stops releaseAfterError_stops releaseAfterError_401)

text \<open>The read that confirms a release is the last request, so a rejection there ends the run as well.\<close>

lemma releaseTransportVerified_stops: "stops401 (\<lambda>_. True) (releaseTransportVerified E pause polls n withTasks)"
  unfolding releaseTransportVerified_def
  by (rule stops401_bind [OF releaseTransport_stops])
    (auto split: option.splits sum.splits intro!: stops stops401_bind [OF GetTransportInfo_stops])

end
