(* ===== verification/TransportProps.thy ===== *)
theory TransportProps
  imports Transports
begin

text \<open>
  What acting on transports guarantees: a release is reported only as read back from SAP, waiting for a
  background run ends with the caller's context, and objects are added only to a request that
  advertises the addition.
\<close>

section \<open>A release is reported as read back\<close>

definition request_path :: "string \<Rightarrow> string" where
  "request_path n = encoded_path (transportRequestsPath @ ''/'' @ path_escape n)"

definition read_of :: "string \<Rightarrow> string \<Rightarrow> request \<times> (err + response) \<Rightarrow> bool" where
  "read_of n data ev \<longleftrightarrow> is_request ''GET'' (request_path n) None (fst ev)
     \<and> (\<exists>resp. snd ev = Inr resp \<and> rs_status resp < 400 \<and> rs_body resp = data)"

lemma readTransportXML_traces:
  "traces (\<lambda>r es. \<forall>data. r = Inr data \<longrightarrow> (\<exists>ev rest. es = ev # rest \<and> read_of n data ev)) (readTransportXML E n accept)"
  unfolding readTransportXML_def
  apply (rule traces_tryw [OF traces_read])
   apply (rule traces_tryw [where P = "\<lambda>z fs. fs = [] \<and> z = read_all x" for x, OF traces_pure(4)])
     apply simp
    apply (rule traces_modify)
     apply simp
    apply (rule traces_pure(2))
    apply (auto simp: answered_def read_of_def request_path_def read_all_def split: option.splits)
  done

lemma GetTransportInfo_traces:
  "traces (\<lambda>r es. \<forall>i. r = Inr i \<longrightarrow> (\<exists>ev rest data. es = ev # rest \<and> read_of n data ev
      \<and> parseTransportInfo E data n = Inr i)) (GetTransportInfo E n)"
  unfolding GetTransportInfo_def
  by (rule traces_tryw [OF readTransportXML_traces]) (auto intro!: traces_pure)

lemma parseTransportInfo_raw: "parseTransportInfo E data n = Inr i \<Longrightarrow> tr_state i = TransportStateOf (tr_raw i)"
  by (auto simp: parseTransportInfo_def toTransportRequest_def map_sum_def split: sum.splits)

lemma state_released: "TransportStateOf raw = TransportStateReleased \<longleftrightarrow> raw = ''R'' \<or> raw = ''N''"
  by (simp add: TransportStateOf_def)

text \<open>
  C10. A release is never reported unseen: when \<open>ReleaseTransport\<close> (with or without tasks) reports a
  request as released, the last thing it did was to read that request, and SAP's answer said R or N.
\<close>

theorem release_reported_as_read:
  assumes "run_state (releaseTransportVerified E pause polls n withTasks) s = (Some (Inr res), s')"
    and "rl_state res = TransportStateReleased"
  shows "\<exists>rq resp rest i. wire s' = (rq, Inr resp) # rest
     \<and> rq_method rq = ''GET'' \<and> rq_path rq = request_path n \<and> rs_status resp < 400
     \<and> parseTransportInfo E (rs_body resp) n = Inr i \<and> tr_raw i = rl_raw res
     \<and> (rl_raw res = ''R'' \<or> rl_raw res = ''N'')"
proof -
  obtain r1 s1 where 1: "run_state (releaseTransport E pause polls n withTasks) s = (r1, s1)" by fastforce
  with assms(1) obtain i where i: "r1 = Some (Inr ())"
    "run_state (GetTransportInfo E n) s1 = (i, s')" "res = releaseState n i"
    by (auto simp: releaseTransportVerified_def ended_with_def split: option.splits sum.splits prod.splits)
  then obtain info where info: "i = Inr info" "tr_state info = TransportStateReleased" "rl_raw res = tr_raw info"
    using assms(2) by (auto simp: releaseState_def split: sum.splits)
  from GetTransportInfo_traces i(2) obtain es where es: "wire s' = es @ wire s1"
    "\<forall>j. i = Inr j \<longrightarrow> (\<exists>ev rest data. es = ev # rest \<and> read_of n data ev \<and> parseTransportInfo E data n = Inr j)"
    by (rule tracesE)
  from es(2) info(1) obtain ev rest data where ev: "es = ev # rest" "read_of n data ev"
    "parseTransportInfo E data n = Inr info" by auto
  have "tr_raw info = ''R'' \<or> tr_raw info = ''N''"
    using parseTransportInfo_raw [OF ev(3)] info(2) state_released [of "tr_raw info"] by metis
  with ev es(1) info(3) show ?thesis
    by (cases ev) (auto simp: read_of_def is_request_def)
qed

definition released_doc :: xml where
  "released_doc = Elem ''root'' [] [] [Elem ''request'' [] [(''number'', [], ''A''), (''status'', [], ''R'')] []]"

definition release_world :: "response list cl" where
  "release_world = new_client [answer 200 [], answer 200 [], answer 200 []]"

definition release_run :: "(err + release_result) option \<times> response list cl" where
  "release_run = run_state (releaseTransportVerified (scripted\<lparr>unmarshal_xml := \<lambda>_. Inr released_doc\<rparr>)
     (\<lambda>w. w) 1 ''A'' False) release_world"

lemma release_run_result:
  "fst release_run = Some (Inr \<lparr>rl_transport = ''A'', rl_state = TransportStateReleased, rl_raw = ''R''\<rparr>)"
  by code_simp

theorem release_reported_as_read_witness:
  "\<exists>rq resp rest. wire (snd release_run) = (rq, Inr resp) # rest \<and> rq_method rq = ''GET'' \<and> rq_path rq = request_path ''A''"
  using release_reported_as_read [of "scripted\<lparr>unmarshal_xml := \<lambda>_. Inr released_doc\<rparr>" "\<lambda>w. w" 1 "''A''" False
      release_world "\<lparr>rl_transport = ''A'', rl_state = TransportStateReleased, rl_raw = ''R''\<rparr>" "snd release_run"]
    release_run_result
  by (auto simp: release_run_def prod_eq_iff)

section \<open>Waiting ends with the context\<close>

text \<open>
  A clock of the outside world that requests and refreshes never turn back and every pause advances, and
  a deadline after which the caller's context is over.
\<close>

definition timed :: "'w env \<Rightarrow> ('w \<Rightarrow> 'w) \<Rightarrow> ('w \<Rightarrow> nat) \<Rightarrow> nat \<Rightarrow> bool" where
  "timed E pause clock deadline \<longleftrightarrow>
     (\<forall>w. clock w < clock (pause w))
     \<and> (\<forall>rq w. clock w \<le> clock (snd (send E rq w)))
     \<and> (\<forall>cb t w. refresh_cb E = Some cb \<longrightarrow> clock w \<le> clock (snd (cb t w)))
     \<and> (\<forall>w. deadline \<le> clock w \<longrightarrow> ctx_err E w \<noteq> None)"

definition forward :: "('w \<Rightarrow> nat) \<Rightarrow> ('w cl, 'r) state \<Rightarrow> bool" where
  "forward clock m \<longleftrightarrow> (\<forall>s. clock (world s) \<le> clock (world (snd (run_state m s))))"

named_theorems forwards "operations that do not turn the clock back"

lemma forward_pure [forwards]:
  "forward clock (State_Monad.return r)" "forward clock (ok x)" "forward clock (fail e)"
  "forward clock (of_sum z)" "forward clock (gets f)"
  by (simp_all add: forward_def)

lemma forward_bind [forwards]:
  assumes "forward clock m" and "\<And>r. forward clock (k r)"
  shows "forward clock (State_Monad.bind m k)"
  unfolding forward_def
proof
  fix s
  obtain r1 s1 where 1: "run_state m s = (r1, s1)" by fastforce
  have "clock (world s) \<le> clock (world s1)" using assms(1) 1 by (metis forward_def snd_conv)
  also have "\<dots> \<le> clock (world (snd (run_state (k r1) s1)))" using assms(2) by (simp add: forward_def)
  finally show "clock (world s) \<le> clock (world (snd (run_state (State_Monad.bind m k) s)))" using 1 by simp
qed

lemma forward_tryw [forwards]:
  "forward clock m \<Longrightarrow> (\<And>x. forward clock (k x)) \<Longrightarrow> forward clock (tryw w m k)"
  unfolding tryw_def by (intro forwards) (auto split: sum.splits intro: forwards)

lemma forward_modify [forwards]: "(\<And>s. world (f s) = world s) \<Longrightarrow> forward clock (modify f)"
  by (simp add: forward_def)

lemma forward_send [forwards]: "timed E pause clock deadline \<Longrightarrow> forward clock (http_send E rq)"
  by (simp add: forward_def run_http_send timed_def)

lemma forward_refresh [forwards]: "timed E pause clock deadline \<Longrightarrow> forward clock (refreshAfter401 E sent)"
proof -
  assume t: "timed E pause clock deadline"
  have "forward clock (call_refresh cb sent)" if "refresh_cb E = Some cb" for cb
    using t that by (auto simp: forward_def call_refresh_def timed_def)
  then show ?thesis
    unfolding refreshAfter401_def
    by (auto split: option.splits sum.splits intro!: forwards)
qed

lemma forward_fetch [forwards]: "timed E pause clock deadline \<Longrightarrow> forward clock (fetchCSRFToken E)"
  unfolding fetchCSRFToken_def
  by (auto split: option.splits sum.splits prod.splits intro!: forwards simp: store_preflight_def Let_def)

lemma forward_ensure [forwards]: "timed E pause clock deadline \<Longrightarrow> forward clock (ensureCSRF E)"
  unfolding ensureCSRF_def
  by (auto split: option.splits prod.splits intro!: forwards)

lemma forward_read [forwards]: "timed E pause clock deadline \<Longrightarrow> forward clock (doRead E path headers)"
  unfolding doRead_def doReadWith_def sendGet_def Let_def
  by (auto split: option.splits sum.splits prod.splits intro!: forwards)

lemma forward_ended [forwards]:
  "forward clock m \<Longrightarrow> forward clock (ended m)" "forward clock (ended_with r)"
  unfolding ended_def ended_with_def by (auto intro!: forwards)

lemma forward_pollOnce: "timed E pause clock deadline \<Longrightarrow> forward clock (pollOnce E n uri)"
  unfolding pollOnce_def pollAnswer_def fetchReleaseResult_def Let_def
  by (auto split: option.splits sum.splits intro!: forwards)

lemma poll_ends:
  assumes t: "timed E pause clock deadline"
  shows "1 \<le> polls \<Longrightarrow> deadline \<le> polls + clock (world s) \<Longrightarrow>
    fst (run_state (pollBackgroundRelease E pause polls n uri) s) \<noteq> None"
proof (induction polls arbitrary: s)
  case 0
  then show ?case by simp
next
  case (Suc polls)
  define s1 where "s1 = s\<lparr>world := pause (world s)\<rparr>"
  have later: "clock (world s) < clock (world s1)" using t by (simp add: timed_def s1_def)
  show ?case
  proof (cases "ctx_err E (world s1)")
    case (Some e)
    then show ?thesis by (simp add: s1_def ended_with_def)
  next
    case None
    then have "clock (world s1) < deadline" using t by (auto simp: timed_def not_le [symmetric])
    with later Suc.prems have "1 \<le> polls" by simp
    obtain r s2 where 2: "run_state (pollOnce E n uri) s1 = (r, s2)" by fastforce
    from forward_pollOnce [OF t] 2 have "clock (world s1) \<le> clock (world s2)"
      by (metis forward_def snd_conv)
    with later Suc.prems have "deadline \<le> polls + clock (world s2)" by simp
    with Suc.IH [OF \<open>1 \<le> polls\<close>] None 2 show ?thesis
      by (cases r) (simp_all add: s1_def ended_with_def)
  qed
qed

definition returned :: "'a option \<Rightarrow> bool" where
  "returned r \<longleftrightarrow> r \<noteq> None"

lemma returned_simps [simp]: "\<not> returned None" "returned (Some x)"
  by (simp_all add: returned_def)

lemma polling_ends [yields_intro]:
  assumes "timed E pause clock deadline" and "1 \<le> polls" and "deadline \<le> polls"
  shows "yields returned (pollBackgroundRelease E pause polls n uri)"
  using poll_ends [OF assms(1,2)] assms(3) by (simp add: yields_def returned_def)

lemma yields_ended [yields_intro]:
  "yields returned (ended m)" "yields returned (ended_with z)"
  by (simp_all add: yields_def ended_def ended_with_def split: prod.splits)

lemma direct_ends [yields_intro]:
  assumes "timed E pause clock deadline" and "1 \<le> polls" and "deadline \<le> polls"
  shows "yields returned (releaseTransportDirect E pause polls n)"
  unfolding releaseTransportDirect_def newReleaseAnswer_def Let_def
  by (rule yields_bind_any)
    (auto split: sum.splits intro!: yields_intro polling_ends [OF assms])

lemma tasks_end:
  assumes "timed E pause clock deadline" and "1 \<le> polls" and "deadline \<le> polls"
  shows "yields returned (releaseTasks E pause polls n tasks)"
proof (induction tasks)
  case Nil
  then show ?case using direct_ends [OF assms] by simp
next
  case (Cons task tasks)
  then show ?case
    by (auto split: option.splits sum.splits intro!: yields_bind [OF direct_ends [OF assms]] yields_intro)
qed

text \<open>
  C34. A release returns: when the caller's context has a deadline and every pause takes time, a release
  that polls up to that many times always ends with an error or a result, whatever SAP answers.
\<close>

theorem release_returns:
  assumes "timed E pause clock deadline" and "1 \<le> polls" and "deadline \<le> polls"
  shows "fst (run_state (releaseTransportVerified E pause polls n withTasks) s) \<noteq> None"
proof -
  have "yields returned (releaseAfterError E pause polls n withTasks e)" for e
    unfolding releaseAfterError_def
    by (auto split: sum.splits intro!: yields_intro yields_bind_any tasks_end [OF assms])
  then have "yields returned (releaseTransport E pause polls n withTasks)"
    unfolding releaseTransport_def
    by (auto split: option.splits sum.splits intro!: yields_bind [OF direct_ends [OF assms]] yields_intro)
  then have "yields returned (releaseTransportVerified E pause polls n withTasks)"
    unfolding releaseTransportVerified_def
    by (rule yields_bind) (auto split: option.splits sum.splits intro!: yields_intro yields_bind_any)
  then show ?thesis by (simp add: yields_def returned_def)
qed

text \<open>A world with a clock; its background run never finishes.\<close>

definition running_doc :: xml where
  "running_doc = Elem ''run'' [] [] [Elem ''status'' [] [] [Text ''running''],
     Elem ''link'' [] [(''rel'', [], ''self''), (''href'', [], ''/run/1'')] []]"

definition ticking :: "(nat \<times> response) env" where
  "ticking = \<lparr>cfg_host = ''http://sap'', cfg_client = ''100'', cfg_user = ''DEVELOPER'',
     cfg_password = ''secret'', cfg_language = ''EN'', send = (\<lambda>rq w. (Inr (snd w), w)),
     url_err = (\<lambda>_. None), refresh_cb = None, unmarshal_xml = (\<lambda>_. Inr running_doc),
     ctx_err = (\<lambda>w. if 2 \<le> fst w then Some (Sentinel ErrDeadlineExceeded) else None)\<rparr>"

definition tick :: "nat \<times> response \<Rightarrow> nat \<times> response" where
  "tick w = (Suc (fst w), snd w)"

lemma ticking_timed: "timed ticking tick fst 2"
  by (simp add: timed_def ticking_def tick_def)

theorem release_returns_witness:
  "fst (run_state (releaseTransportVerified ticking tick 2 ''A'' False) (new_client (0, answer 200 ''x'')))
     = Some (Inl (Wrap ''ReleaseTransport A: '' (Sentinel ErrDeadlineExceeded) []))"
proof -
  have "case fst (run_state (releaseTransportVerified ticking tick 2 ''A'' False) (new_client (0, answer 200 ''x''))) of
      None \<Rightarrow> True | Some z \<Rightarrow> z = Inl (Wrap ''ReleaseTransport A: '' (Sentinel ErrDeadlineExceeded) [])"
    by code_simp
  moreover have "fst (run_state (releaseTransportVerified ticking tick 2 ''A'' False) (new_client (0, answer 200 ''x''))) \<noteq> None"
    by (rule release_returns [OF ticking_timed]) simp_all
  ultimately show ?thesis by (auto split: option.splits)
qed

section \<open>Entries are added only where the request advertises it\<close>

definition advertised :: "'w env \<Rightarrow> string \<Rightarrow> string \<Rightarrow> (request \<times> (err + response)) list \<Rightarrow> bool" where
  "advertised E rel n es \<longleftrightarrow> list_ex (\<lambda>ev. \<exists>data. read_of n data ev \<and> rel \<in> set (relationsOf E data)) es"

text \<open>Every PUT on the wire (newest first) comes after a read of the request that advertises the relation.\<close>

fun gated :: "'w env \<Rightarrow> string \<Rightarrow> string \<Rightarrow> (request \<times> (err + response)) list \<Rightarrow> bool" where
  "gated E rel n [] \<longleftrightarrow> True"
| "gated E rel n (ev # es) \<longleftrightarrow> (rq_method (fst ev) \<noteq> ''PUT'' \<or> advertised E rel n es) \<and> gated E rel n es"

definition no_put :: "request \<Rightarrow> bool" where
  "no_put rq \<longleftrightarrow> rq_method rq \<noteq> ''PUT''"

lemma no_put_preflight: "accepts_preflight E no_put"
  by (simp add: accepts_preflight_def is_preflight_def no_put_def)

lemma gated_no_put: "list_all (\<lambda>ev. no_put (fst ev)) es \<Longrightarrow> gated E rel n es"
  by (induction es) (auto simp: no_put_def)

lemma gated_after: "advertised E rel n es \<Longrightarrow> gated E rel n es \<Longrightarrow> gated E rel n (fs @ es)"
  by (induction fs) (auto simp: advertised_def)

lemma readTransportXML_no_put [sends]: "emits no_put (readTransportXML E n accept)"
  unfolding readTransportXML_def
  by (intro sends no_put_preflight) (simp_all add: accepts_def no_put_def)

lemma advertises_traces:
  "traces (\<lambda>r es. list_all (\<lambda>ev. no_put (fst ev)) es \<and> (r = Inr True \<longrightarrow> advertised E rel n es))
    (advertisesRelation E n rel)"
  unfolding advertisesRelation_def
  by (rule traces_tryw [OF traces_both [OF readTransportXML_traces traces_emits [OF readTransportXML_no_put]]])
    (auto intro!: traces_pure simp: advertised_def)

lemma gate_traces:
  "traces (\<lambda>r es. gated E addObjectsFromPackageRelation n es
      \<and> (isInr r \<longrightarrow> advertised E addObjectsFromPackageRelation n es)) (ensureAddObjectsSupported E n)"
  "traces (\<lambda>r es. gated E addObjectRelation n es
      \<and> (isInr r \<longrightarrow> advertised E addObjectRelation n es)) (ensureAddObjectSupported E n)"
  unfolding ensureAddObjectsSupported_def ensureAddObjectSupported_def
  by (rule traces_tryw [OF advertises_traces]; auto intro!: traces_pure gated_no_put)+

lemma gated_rest:
  assumes "traces (\<lambda>r es. gated E rel n es \<and> (isInr r \<longrightarrow> advertised E rel n es)) gate"
    and "\<And>x. emits (\<lambda>_. True) (k x)"
  shows "traces (\<lambda>_ es. gated E rel n es) (tryw w gate k)"
  by (rule traces_tryw [OF assms(1)])
    (auto intro!: traces_weaken [OF traces_emits [OF assms(2)]] gated_after)

lemma gated_nothing: "traces (\<lambda>_ es. gated E rel n es) (fail e)"
  by (rule traces_pure) simp

lemma preflight_anywhere: "accepts_preflight E (\<lambda>_. True)"
  by (simp add: accepts_preflight_def)

lemma put_emits [sends]: "emits (\<lambda>_. True) (putTransportUserAction E n query body)"
  unfolding putTransportUserAction_def by (intro sends preflight_anywhere) (simp add: accepts_def)

lemma copy_emits [sends]:
  "emits (\<lambda>_. True) (copySources E n)" "emits (\<lambda>_. True) (copyEach E target query sources)"
proof -
  have "emits (\<lambda>_. True) (readTransportXML E n accept)" for accept
    by (rule emits_weaken [OF readTransportXML_no_put]) simp
  then show "emits (\<lambda>_. True) (copySources E n)"
    unfolding copySources_def by (intro sends)
  show "emits (\<lambda>_. True) (copyEach E target query sources)"
    by (induction sources) (auto intro!: sends)
qed


section \<open>The error of a failed release\<close>

text \<open>
  When \<open>/releasejobs\<close> refuses a release, SAP's explanation is lost: the error is the same whatever
  body SAP sent, because the body has been read and closed before the error is made of it.
\<close>

theorem release_error_ignores_body:
  "releaseJobsAnswer E n (resp\<lparr>rs_status := 400, rs_body := body\<rparr>)
     = releaseJobsAnswer E n (resp\<lparr>rs_status := 400, rs_body := body'\<rparr>)"
  by (simp add: releaseJobsAnswer_def checkResponse_def)

section \<open>The contract of an operation\<close>

interpretation check_transport: operation "CheckTransport E pgmID objType nm" for E pgmID objType nm
  by unfold_locales (rule CheckTransport_stops)
interpretation create_transport: operation "CreateTransport E opts" for E opts
  by unfold_locales (rule CreateTransport_stops)
interpretation delete_transport: operation "DeleteTransport E n" for E n
  by unfold_locales (rule DeleteTransport_stops)
interpretation transport_info: operation "GetTransportInfo E n" for E n
  by unfold_locales (rule GetTransportInfo_stops)
interpretation transport_tasks: operation "GetTransportTasks E n" for E n
  by unfold_locales (rule GetTransportTasks_stops)
interpretation add_to_transport: operation "AddToTransport E pgmID objectType nm transport" for E pgmID objectType nm transport
  by unfold_locales (rule AddToTransport_stops)
interpretation copy_objects: operation "CopyTransportObjects E source target doc" for E source target doc
  by unfold_locales (rule CopyTransportObjects_stops)

text \<open>
  A release stops at the first rejected credential: \<open>ReleaseTransport\<close>, with or without tasks and
  however long it polls, sends nothing after the first request SAP answers with 401; no task is released
  and no fallback tried with a credential SAP has refused.
\<close>

theorem release_stops_at_401:
  assumes "oauth s = None"
  shows "\<exists>es. wire (snd (run_state (releaseTransportVerified E pause polls n withTasks) s)) = es @ wire s
     \<and> (\<forall>ev \<in> set (tl es). \<not> is401 ev)"
  using stops401_shape [OF releaseTransportVerified_stops assms] by blast

theorem release_stops_at_401_witness:
  "\<exists>es. wire (snd (run_state (releaseTransportVerified scripted (\<lambda>w. w) 3 ''A'' True) (new_client [answer 401 []])))
       = es @ wire (new_client [answer 401 []])"
  using release_stops_at_401 [of "new_client [answer 401 []]" scripted "\<lambda>w. w" 3 "''A''" True] by auto

end
