(* ===== verification/TransportList.thy ===== *)
theory TransportList
  imports TransportDocs Answers
begin

text \<open>
  Listing transport requests page by page (\<open>adt/transport.go\<close>, \<open>GetTransportRequests\<close>): the options, the
  cursor, the E070 query, and the organizer tree that adds the descriptions or stands in for the query.
\<close>

section \<open>The cursor\<close>

record transport_cursor =
  cu_date :: string
  cu_time :: string
  cu_number :: string

definition cursor_char :: "char \<Rightarrow> bool" where
  "cursor_char c \<longleftrightarrow> is_upper c \<or> is_digit c \<or> c \<in> {CHR ''_'', CHR ''/'', CHR ''-''}"

text \<open>\<open>transportCursorRe\<close>: eight digits, six digits and a number, between them dots.\<close>

definition cursor_ok :: "transport_cursor \<Rightarrow> bool" where
  "cursor_ok cur \<longleftrightarrow> length (cu_date cur) = 8 \<and> list_all is_digit (cu_date cur)
     \<and> length (cu_time cur) = 6 \<and> list_all is_digit (cu_time cur)
     \<and> 1 \<le> length (cu_number cur) \<and> length (cu_number cur) \<le> 20 \<and> list_all cursor_char (cu_number cur)"

definition cursor_text :: "transport_cursor \<Rightarrow> string" where
  "cursor_text cur = cu_date cur @ ''.'' @ cu_time cur @ ''.'' @ cu_number cur"

definition parseTransportCursor :: "string \<Rightarrow> err + transport_cursor" where
  "parseTransportCursor s =
     (let cur = \<lparr>cu_date = take 8 s, cu_time = take 6 (drop 9 s), cu_number = drop 16 s\<rparr> in
      if cursor_ok cur \<and> s ! 8 = CHR ''.'' \<and> s ! 15 = CHR ''.'' then Inr cur
      else Inl (Msg (''GetTransportRequests: invalid cursor '' @ quoted s @ ''; pass the Next of a previous page'')))"

definition cursor_condition :: "transport_cursor \<Rightarrow> string" where
  "cursor_condition cur =
     (let d = quote_literal (cu_date cur); t = quote_literal (cu_time cur); n = quote_literal (cu_number cur);
          timeText = ''CAST( AS4TIME AS CHAR( 6 ) )'' in
      ''( AS4DATE < '' @ d
      @ '' OR ( AS4DATE = '' @ d @ '' AND '' @ timeText @ '' < '' @ t @ '' )''
      @ '' OR ( AS4DATE = '' @ d @ '' AND '' @ timeText @ '' = '' @ t @ '' AND TRKORR < '' @ n @ '' ) )'')"

section \<open>Options\<close>

record transport_list_options =
  lo_user :: string
  lo_filter :: transport_filter
  lo_limit :: int
  lo_after :: string

record transport_page =
  pg_requests :: "transport_request list"
  pg_next :: string

definition TransportAllUsers :: string where "TransportAllUsers = ''*''"
definition DefaultTransportPageSize :: int where "DefaultTransportPageSize = 50"
definition MaxTransportPageSize :: int where "MaxTransportPageSize = 1000"

definition transport_user_char :: "char \<Rightarrow> bool" where
  "transport_user_char c \<longleftrightarrow> is_upper c \<or> is_lower c \<or> is_digit c \<or> c \<in> {CHR ''_'', CHR ''.'', CHR ''-''}"

definition transportUserOK :: "string \<Rightarrow> bool" where
  "transportUserOK u \<longleftrightarrow> 1 \<le> length u \<and> length u \<le> 40 \<and> list_all transport_user_char u"

definition resolvedUser :: "'w env \<Rightarrow> string \<Rightarrow> err + string" where
  "resolvedUser E user =
     (if user = TransportAllUsers then Inr []
      else if user = [] then
        (if cfg_user E = [] then
           Inl (Msg ''GetTransportRequests: no user given and the client has no logon user; pass a user or TransportAllUsers'')
         else Inr (cfg_user E))
      else Inr user)"

text \<open>The resolved user (\<open>""\<close> for every user), page size and cursor.\<close>

definition checkTransportListOptions ::
    "'w env \<Rightarrow> transport_list_options \<Rightarrow> err + string \<times> nat \<times> transport_cursor option" where
  "checkTransportListOptions E opts =
     (if lo_filter opts < TransportFilterAll \<or> lo_filter opts > TransportFilterReleased then
        Inl (Msg (''GetTransportRequests: invalid filter '' @ filter_text (lo_filter opts)))
      else
     (let limit = (if lo_limit opts = 0 then DefaultTransportPageSize else lo_limit opts) in
      if limit < 0 \<or> limit > MaxTransportPageSize then
        Inl (Msg (''GetTransportRequests: limit '' @ itoa (lo_limit opts) @ '' outside 1..'' @ itoa MaxTransportPageSize))
      else case resolvedUser E (lo_user opts) of
        Inl e \<Rightarrow> Inl e
      | Inr user0 \<Rightarrow>
     (let user = to_upper user0 in
      if user \<noteq> [] \<and> \<not> transportUserOK user then
        Inl (Msg (''GetTransportRequests: user '' @ quoted user @ '' contains characters not allowed in a transport query''))
      else if lo_after opts = [] then Inr (user, nat limit, None)
      else (case parseTransportCursor (lo_after opts) of
          Inl e \<Rightarrow> Inl e
        | Inr cur \<Rightarrow> Inr (user, nat limit, Some cur)))))"

section \<open>The E070 query\<close>

definition transportStatusCondition :: "transport_filter \<Rightarrow> string" where
  "transportStatusCondition f =
     (if f = TransportFilterAll then []
      else ''( '' @ join '' OR '' (map (\<lambda>letter. ''TRSTATUS = '' @ quote_literal letter)
        (filter (\<lambda>letter. filter_matches f (TransportStateOf letter)) transportStatusLetters)) @ '' )'')"

definition listConditions :: "string \<Rightarrow> transport_filter \<Rightarrow> transport_cursor option \<Rightarrow> string list" where
  "listConditions user f after =
     [''STRKORR = '' @ quote_literal []]
     @ (if user \<noteq> [] then [''AS4USER = '' @ quote_literal user] else [])
     @ (let cond = transportStatusCondition f in if cond \<noteq> [] then [cond] else [])
     @ (case after of None \<Rightarrow> [] | Some cur \<Rightarrow> [cursor_condition cur])"

definition listSQL :: "string \<Rightarrow> transport_filter \<Rightarrow> transport_cursor option \<Rightarrow> string" where
  "listSQL user f after = ''SELECT TRKORR, AS4USER, TRSTATUS, AS4DATE, AS4TIME FROM E070 WHERE ''
     @ join '' AND '' (listConditions user f after)
     @ '' ORDER BY AS4DATE DESCENDING, AS4TIME DESCENDING, TRKORR DESCENDING''"

definition listColumns :: "string list" where
  "listColumns = [''TRKORR'', ''AS4USER'', ''TRSTATUS'', ''AS4DATE'', ''AS4TIME'']"

definition rowRequest :: "query_result \<Rightarrow> string list \<Rightarrow> transport_request" where
  "rowRequest qr row = (let raw = queryCell qr ''TRSTATUS'' row in
     \<lparr>tr_number = queryCell qr ''TRKORR'' row, tr_owner = queryCell qr ''AS4USER'' row, tr_description = [],
      tr_state = TransportStateOf raw, tr_raw = raw\<rparr>)"

definition rowCursor :: "query_result \<Rightarrow> string list \<Rightarrow> transport_cursor" where
  "rowCursor qr row = \<lparr>cu_date = queryCell qr ''AS4DATE'' row, cu_time = queryCell qr ''AS4TIME'' row,
     cu_number = queryCell qr ''TRKORR'' row\<rparr>"

definition rowRequests :: "query_result \<Rightarrow> transport_filter \<Rightarrow> string list list \<Rightarrow> transport_request list" where
  "rowRequests qr f rows =
     filter (\<lambda>r. tr_number r \<noteq> [] \<and> filter_matches f (tr_state r)) (map (rowRequest qr) rows)"

text \<open>One row more than the page tells that another page follows; its cursor is the page's last row.\<close>

definition queryPage :: "query_result \<Rightarrow> transport_filter \<Rightarrow> nat \<Rightarrow> err + transport_page" where
  "queryPage qr f limit =
     (if length (qr_rows qr) > limit then
        (let nxt = cursor_text (rowCursor qr (qr_rows qr ! (limit - 1))) in
         case parseTransportCursor nxt of
           Inl e \<Rightarrow> Inl (wrapf ''GetTransportRequests: E070 query returned a sort key in an unexpected format: '' e)
         | Inr _ \<Rightarrow> Inr \<lparr>pg_requests = rowRequests qr f (take limit (qr_rows qr)), pg_next = nxt\<rparr>)
      else Inr \<lparr>pg_requests = rowRequests qr f (qr_rows qr), pg_next = []\<rparr>)"

definition getTransportRequestsViaQuery ::
    "'w env \<Rightarrow> string \<Rightarrow> transport_filter \<Rightarrow> nat \<Rightarrow> transport_cursor option \<Rightarrow> ('w, transport_page) go" where
  "getTransportRequestsViaQuery E user f limit after =
     tryw (wrapf ''GetTransportRequests: E070 query: '') (RunQuery E (listSQL user f after) (int limit + 1)) (\<lambda>qr.
       case requireQueryColumns ''GetTransportRequests: E070 query'' qr listColumns of
         Some e \<Rightarrow> fail e
       | None \<Rightarrow> of_sum (queryPage qr f limit))"

section \<open>The organizer tree\<close>

definition treeRequest :: "xml \<Rightarrow> transport_request" where
  "treeRequest x = \<lparr>tr_number = xml_attr x ''number'', tr_owner = xml_attr x ''owner'',
     tr_description = xml_attr x ''desc'', tr_state = TransportStateOf (xml_attr x ''status''),
     tr_raw = xml_attr x ''status''\<rparr>"

definition treeRequests :: "xml \<Rightarrow> transport_request list" where
  "treeRequests x = map treeRequest (concat (map (\<lambda>grp.
     kids_path [grp, ''modifiable'', ''request''] x @ kids_path [grp, ''released'', ''request''] x)
     [''workbench'', ''customizing'']))"

definition getTransportRequestsTree :: "'w env \<Rightarrow> string \<Rightarrow> ('w, transport_request list) go" where
  "getTransportRequestsTree E user =
     tryE (checked E (wrapf ''GetTransportRequests: '') (\<lambda>e. e) (doRead E
       (transportRequestsPath @ (if user \<noteq> [] then ''?'' @ values_encode [(''user'', user)] else []))
       [(''Accept'', ''application/vnd.sap.adt.transportorganizertree.v1+xml'')])) (\<lambda>resp.
     tryw (wrapf ''GetTransportRequests parsing: '') (of_sum (unmarshal_root E ''root'' (rs_body resp))) (\<lambda>x.
       ok (treeRequests x)))"

text \<open>\<open>sort.Slice\<close> leaves the order of equal numbers open; here it is that of the tree reversed.\<close>

definition treeOnlyPage :: "transport_request list \<Rightarrow> string \<Rightarrow> transport_filter \<Rightarrow> nat \<Rightarrow> transport_page" where
  "treeOnlyPage requests user f limit =
     \<lparr>pg_requests = take limit (rev (sort_key tr_number
        (filter (\<lambda>tr. filter_matches f (tr_state tr) \<and> (user = [] \<or> equal_fold (tr_owner tr) user)) requests))),
      pg_next = []\<rparr>"

section \<open>GetTransportRequests\<close>

definition describe :: "transport_request list \<Rightarrow> transport_page \<Rightarrow> transport_page" where
  "describe tree page = page\<lparr>pg_requests := map (\<lambda>r. r\<lparr>tr_description :=
     (case map_of (rev (map (\<lambda>t. (tr_number t, tr_description t)) tree)) (tr_number r) of None \<Rightarrow> [] | Some d \<Rightarrow> d)\<rparr>)
     (pg_requests page)\<rparr>"

definition partialError :: "string \<Rightarrow> err \<Rightarrow> err" where
  "partialError what e = Wrap2 [] (Sentinel ErrTransportListPartial) what e"

text \<open>What the two sources make of the answer: no page and an error, or a page and perhaps an error.\<close>

definition combinePages :: "string \<Rightarrow> transport_filter \<Rightarrow> nat \<Rightarrow> err + transport_page
    \<Rightarrow> err + transport_request list \<Rightarrow> err + transport_page \<times> err option" where
  "combinePages user f limit q t =
     (case (q, t) of
        (Inl qe, Inl te) \<Rightarrow> Inl (Wrap2 ''GetTransportRequests: E070: '' qe ''; tree: '' te)
      | (Inl qe, Inr tree) \<Rightarrow> Inr (treeOnlyPage tree user f limit, Some (partialError
          '': E070 could not be read, the page holds only what the transport organizer tree shows: '' qe))
      | (Inr page, Inl te) \<Rightarrow> Inr (page, Some (partialError
          '': the transport organizer tree could not be read, descriptions are missing: '' te))
      | (Inr page, Inr tree) \<Rightarrow> Inr (describe tree page, None))"

definition rejected :: "err + 'a \<Rightarrow> err option" where
  "rejected r = (case r of Inl e \<Rightarrow> if is_unauthorized e then Some e else None | Inr _ \<Rightarrow> None)"

definition GetTransportRequests :: "'w env \<Rightarrow> transport_list_options \<Rightarrow> ('w, transport_page \<times> err option) go" where
  "GetTransportRequests E opts =
     (case checkTransportListOptions E opts of
        Inl e \<Rightarrow> fail e
      | Inr (user, limit, after) \<Rightarrow>
          State_Monad.bind (getTransportRequestsViaQuery E user (lo_filter opts) limit after) (\<lambda>q. case rejected q of
            Some e \<Rightarrow> fail e
          | None \<Rightarrow> State_Monad.bind (getTransportRequestsTree E user) (\<lambda>t. case rejected t of
              Some e \<Rightarrow> fail e
            | None \<Rightarrow> of_sum (combinePages user (lo_filter opts) limit q t))))"

section \<open>After a rejected credential\<close>

lemma viaQuery_stops [stops]: "stops401 unauth (getTransportRequestsViaQuery E user f limit after)"
  unfolding getTransportRequestsViaQuery_def by (auto intro!: stops split: option.splits)

lemma tree_stops [stops]: "stops401 unauth (getTransportRequestsTree E user)"
  unfolding getTransportRequestsTree_def by (auto intro!: stops doRead_stops)

lemma rejected_unauth: "unauth r \<Longrightarrow> \<exists>e. rejected r = Some e \<and> is_unauthorized e"
  by (cases r) (auto simp: rejected_def)

lemma GetTransportRequests_stops [stops]: "stops401 unauth (GetTransportRequests E opts)"
  unfolding GetTransportRequests_def
  by (auto split: sum.splits prod.splits option.splits intro!: stops stops401_bind [OF viaQuery_stops]
      stops401_bind [OF tree_stops] dest!: rejected_unauth)

interpretation list_transports: operation "GetTransportRequests E opts" for E opts
  by unfold_locales (rule GetTransportRequests_stops)

section \<open>The cursor round trip\<close>

lemma parse_cursor_text:
  assumes "cursor_ok cur"
  shows "parseTransportCursor (cursor_text cur) = Inr cur"
proof -
  have l: "length (cu_date cur) = 8" "length (cu_time cur) = 6" using assms by (simp_all add: cursor_ok_def)
  have parts: "take 8 (cursor_text cur) = cu_date cur" "take 6 (drop 9 (cursor_text cur)) = cu_time cur"
    "drop 16 (cursor_text cur) = cu_number cur" "cursor_text cur ! 8 = CHR ''.''" "cursor_text cur ! 15 = CHR ''.''"
    using l by (simp_all add: cursor_text_def nth_append)
  have whole: "\<lparr>cu_date = cu_date cur, cu_time = cu_time cur, cu_number = cu_number cur\<rparr> = cur" by simp
  show ?thesis unfolding parseTransportCursor_def parts whole Let_def using assms by simp
qed

lemma cursor_text_parse:
  assumes "parseTransportCursor s = Inr cur"
  shows "cursor_ok cur \<and> cursor_text cur = s"
proof -
  from assms have cur: "cur = \<lparr>cu_date = take 8 s, cu_time = take 6 (drop 9 s), cu_number = drop 16 s\<rparr>"
    "cursor_ok cur" "s ! 8 = CHR ''.''" "s ! 15 = CHR ''.''"
    by (auto simp: parseTransportCursor_def Let_def split: if_splits)
  then have len: "16 < length s" by (auto simp: cursor_ok_def)
  have "s = take 8 s @ s ! 8 # drop 9 s" using len id_take_nth_drop [of 8 s] by simp
  moreover have "drop 9 s = take 6 (drop 9 s) @ s ! 15 # drop 16 s"
    using len id_take_nth_drop [of 6 "drop 9 s"] by simp
  ultimately have "s = take 8 s @ ''.'' @ take 6 (drop 9 s) @ ''.'' @ drop 16 s" using cur(3,4) by simp
  then show ?thesis using cur(1,2) by (simp add: cursor_text_def)
qed

section \<open>Paging\<close>

text \<open>
  The reference for paging: a table of requests, newest first, and a data preview that answers the query
  for a cursor with the table's rows after it, as many as asked for. \<open>all_pages\<close> is the loop the
  documentation gives callers: start without a cursor, pass \<open>Next\<close> on until it is empty.
\<close>

record e070_row =
  er_number :: string
  er_user :: string
  er_status :: string
  er_date :: string
  er_time :: string

definition row_cells :: "e070_row \<Rightarrow> string list" where
  "row_cells row = [er_number row, er_user row, er_status row, er_date row, er_time row]"

definition row_key :: "e070_row \<Rightarrow> transport_cursor" where
  "row_key row = \<lparr>cu_date = er_date row, cu_time = er_time row, cu_number = er_number row\<rparr>"

definition older :: "transport_cursor \<Rightarrow> transport_cursor \<Rightarrow> bool" where
  "older a b \<longleftrightarrow> cu_date a < cu_date b
     \<or> (cu_date a = cu_date b \<and> (cu_time a < cu_time b \<or> (cu_time a = cu_time b \<and> cu_number a < cu_number b)))"

definition e070_table :: "e070_row list \<Rightarrow> bool" where
  "e070_table T \<longleftrightarrow> sorted_wrt (\<lambda>a b. older (row_key b) (row_key a)) T \<and> list_all (\<lambda>row. cursor_ok (row_key row)) T"

definition rows_after :: "transport_cursor option \<Rightarrow> e070_row list \<Rightarrow> e070_row list" where
  "rows_after after T = (case after of None \<Rightarrow> T | Some c \<Rightarrow> filter (\<lambda>row. older (row_key row) c) T)"

definition preview_rows :: "e070_row list \<Rightarrow> err + query_result \<Rightarrow> bool" where
  "preview_rows T r = (case r of Inl _ \<Rightarrow> False
     | Inr qr \<Rightarrow> map qc_name (qr_columns qr) = listColumns \<and> qr_rows qr = map row_cells T)"

text \<open>The cursors of the pages: none for the first, then the key of every \<open>limit\<close>-th row.\<close>

definition page_cursor :: "nat \<Rightarrow> e070_row list \<Rightarrow> nat \<Rightarrow> transport_cursor option" where
  "page_cursor limit T k = (if k = 0 then None else Some (row_key (T ! (k * limit - 1))))"

definition serves :: "'w env \<Rightarrow> string \<Rightarrow> transport_filter \<Rightarrow> nat \<Rightarrow> e070_row list \<Rightarrow> bool" where
  "serves E user f limit T \<longleftrightarrow> list_all (\<lambda>k. let after = page_cursor limit T k in
     yields (preview_rows (take (limit + 1) (rows_after after T))) (RunQuery E (listSQL user f after) (int limit + 1)))
     (filter (\<lambda>k. k = 0 \<or> k * limit < length T) [0..<Suc (length T)])"

definition listed :: "transport_filter \<Rightarrow> e070_row list \<Rightarrow> transport_request list" where
  "listed f T = filter (\<lambda>r. filter_matches f (tr_state r)) (map (\<lambda>row.
     \<lparr>tr_number = er_number row, tr_owner = trim_space (er_user row), tr_description = [],
      tr_state = TransportStateOf (trim_space (er_status row)), tr_raw = trim_space (er_status row)\<rparr>) T)"

fun all_pages :: "nat \<Rightarrow> 'w env \<Rightarrow> string \<Rightarrow> transport_filter \<Rightarrow> nat \<Rightarrow> transport_cursor option
    \<Rightarrow> ('w, transport_request list) go" where
  "all_pages 0 E user f limit after = fail (Msg ''more pages'')"
| "all_pages (Suc n) E user f limit after =
     tryE (getTransportRequestsViaQuery E user f limit after) (\<lambda>page.
       if pg_next page = [] then ok (pg_requests page)
       else tryE (of_sum (parseTransportCursor (pg_next page))) (\<lambda>cur.
         tryE (all_pages n E user f limit (Some cur)) (\<lambda>rest. ok (pg_requests page @ rest))))"

lemma trim_space_no_space:
  assumes "list_all (\<lambda>c. \<not> is_space c) s"
  shows "trim_space s = s"
proof -
  have "dropWhile is_space t = t" if "list_all (\<lambda>c. \<not> is_space c) t" for t
    using that by (cases t) simp_all
  with assms show ?thesis by (simp add: trim_space_def trim_left_def trim_right_def list_all_rev)
qed

lemma digit_no_space: "is_digit c \<Longrightarrow> \<not> is_space c"
  by (auto simp: is_digit_def is_space_def)

lemma cursor_char_no_space: "cursor_char c \<Longrightarrow> \<not> is_space c"
  by (auto simp: cursor_char_def is_digit_def is_upper_def is_space_def)

lemma cursor_trims:
  assumes "cursor_ok cur"
  shows "trim_space (cu_date cur) = cu_date cur" "trim_space (cu_time cur) = cu_time cur"
    "trim_space (cu_number cur) = cu_number cur"
  using assms unfolding cursor_ok_def
  by (auto intro!: trim_space_no_space simp: list_all_iff digit_no_space cursor_char_no_space)

lemma list_columns:
  assumes "map qc_name (qr_columns qr) = listColumns"
  shows "column_index qr ''TRKORR'' = Some 0" "column_index qr ''AS4USER'' = Some 1"
    "column_index qr ''TRSTATUS'' = Some 2" "column_index qr ''AS4DATE'' = Some 3" "column_index qr ''AS4TIME'' = Some 4"
proof -
  obtain a b c d e where cols: "qr_columns qr = [a, b, c, d, e]" "qc_name a = ''TRKORR''" "qc_name b = ''AS4USER''"
    "qc_name c = ''TRSTATUS''" "qc_name d = ''AS4DATE''" "qc_name e = ''AS4TIME''"
    using assms by (auto simp: listColumns_def map_eq_Cons_conv)
  have five: "[0..<5] = [0, 1, 2, 3, 4 :: nat]" by (simp add: upt_rec)
  show "column_index qr ''TRKORR'' = Some 0" "column_index qr ''AS4USER'' = Some 1"
    "column_index qr ''TRSTATUS'' = Some 2" "column_index qr ''AS4DATE'' = Some 3" "column_index qr ''AS4TIME'' = Some 4"
    using cols(2-6) by (simp_all add: column_index_def cols(1) five)
qed

lemma list_cells:
  assumes "map qc_name (qr_columns qr) = listColumns" and "cursor_ok (row_key row)"
  shows "rowCursor qr (row_cells row) = row_key row"
    "rowRequest qr (row_cells row) = \<lparr>tr_number = er_number row, tr_owner = trim_space (er_user row),
       tr_description = [], tr_state = TransportStateOf (trim_space (er_status row)), tr_raw = trim_space (er_status row)\<rparr>"
  using cursor_trims [OF assms(2)]
  by (simp_all add: rowCursor_def rowRequest_def queryCell_def list_columns [OF assms(1)] row_cells_def row_key_def Let_def)

lemma list_requests:
  assumes "map qc_name (qr_columns qr) = listColumns" and "list_all (\<lambda>row. cursor_ok (row_key row)) T"
  shows "rowRequests qr f (map row_cells T) = listed f T"
  using assms(2)
proof (induction T)
  case (Cons row T)
  then have "er_number row \<noteq> []" by (auto simp: cursor_ok_def row_key_def)
  with Cons show ?case by (simp add: rowRequests_def listed_def list_cells(2) [OF assms(1)])
qed (simp add: rowRequests_def listed_def)

lemma page_of_rows:
  assumes "map qc_name (qr_columns qr) = listColumns" and "list_all (\<lambda>row. cursor_ok (row_key row)) T"
    and "qr_rows qr = map row_cells (take (limit + 1) T)" and "1 \<le> limit"
  shows "queryPage qr f limit = Inr \<lparr>pg_requests = listed f (take limit T),
    pg_next = (if limit < length T then cursor_text (row_key (T ! (limit - 1))) else [])\<rparr>"
proof (cases "limit < length T")
  case True
  then have rows: "take limit (qr_rows qr) = map row_cells (take limit T)" "limit < length (qr_rows qr)"
    "qr_rows qr ! (limit - 1) = row_cells (T ! (limit - 1))"
    using assms(3,4) by (simp_all add: take_map)
  have oks: "list_all (\<lambda>row. cursor_ok (row_key row)) (take limit T)" "cursor_ok (row_key (T ! (limit - 1)))"
    using assms(2) True by (auto simp: list_all_iff dest: in_set_takeD)
  show ?thesis
    using True rows by (simp add: queryPage_def Let_def list_cells(1) [OF assms(1) oks(2)]
      parse_cursor_text [OF oks(2)] list_requests [OF assms(1) oks(1)] del: One_nat_def)
next
  case False
  then have "qr_rows qr = map row_cells T" "\<not> limit < length (qr_rows qr)" using assms(3) by simp_all
  then show ?thesis using False by (simp add: queryPage_def list_requests [OF assms(1,2)])
qed

lemma page_yields:
  assumes T: "e070_table T" and srv: "serves E user f limit T" and l: "1 \<le> limit"
    and k: "k = 0 \<or> k * limit < length T" and after: "after = page_cursor limit T k"
  shows "yields (\<lambda>r. r = Inr \<lparr>pg_requests = listed f (take limit (rows_after after T)),
    pg_next = (if limit < length (rows_after after T) then cursor_text (row_key (rows_after after T ! (limit - 1))) else [])\<rparr>)
    (getTransportRequestsViaQuery E user f limit after)"
proof -
  have oks: "list_all (\<lambda>row. cursor_ok (row_key row)) (rows_after after T)"
    using T by (auto simp: e070_table_def rows_after_def list_all_iff split: option.splits)
  have run: "yields (preview_rows (take (limit + 1) (rows_after after T))) (RunQuery E (listSQL user f after) (int limit + 1))"
  proof -
    have "k \<le> k * limit" using l by (cases limit) simp_all
    with k have "k \<le> length T" by linarith
    with k have "k \<in> set (filter (\<lambda>k. k = 0 \<or> k * limit < length T) [0..<Suc (length T)])"
      by (simp del: upt_Suc)
    with srv show ?thesis unfolding serves_def list_all_iff after Let_def by blast
  qed
  show ?thesis
    unfolding getTransportRequestsViaQuery_def tryw_def
  proof (rule yields_bind [OF run], goal_cases)
    case (1 r)
    then obtain qr where qr: "r = Inr qr" "map qc_name (qr_columns qr) = listColumns"
      "qr_rows qr = map row_cells (take (limit + 1) (rows_after after T))"
      by (auto simp: preview_rows_def split: sum.splits)
    have "requireQueryColumns ''GetTransportRequests: E070 query'' qr listColumns = None"
      using list_columns [OF qr(2)] by (simp add: requireQueryColumns_def listColumns_def)
    then show ?case
      using qr(1) page_of_rows [OF qr(2) oks qr(3) l] by (simp add: yields_pure_sum)
  qed
qed

lemma older_irrefl: "\<not> older a a"
  by (simp add: older_def)

lemma rows_after_last:
  assumes "e070_table (seen @ row # rest)"
  shows "rows_after (Some (row_key row)) (seen @ row # rest) = rest"
proof -
  have "older (row_key row) (row_key a)" if "a \<in> set seen" for a
    using assms that by (auto simp: e070_table_def sorted_wrt_append)
  then have "\<not> older (row_key a) (row_key row)" if "a \<in> set seen" for a
    using that by (metis older_def order_less_asym)
  moreover have "older (row_key a) (row_key row)" if "a \<in> set rest" for a
    using assms that by (auto simp: e070_table_def sorted_wrt_append)
  ultimately show ?thesis
    by (simp add: rows_after_def older_irrefl filter_empty_conv filter_id_conv)
qed

lemma rows_after_page:
  assumes "e070_table T" and "1 \<le> limit" and "k = 0 \<or> k * limit < length T"
  shows "rows_after (page_cursor limit T k) T = drop (k * limit) T"
proof (cases "k = 0")
  case True
  then show ?thesis by (simp add: page_cursor_def rows_after_def)
next
  case False
  let ?i = "k * limit - 1"
  have i: "Suc ?i = k * limit" "?i < length T" using False assms(2,3) by simp_all
  have "T = take ?i T @ T ! ?i # drop (k * limit) T" using id_take_nth_drop [OF i(2)] i(1) by simp
  with rows_after_last [of "take ?i T" "T ! ?i" "drop (k * limit) T"] assms(1) False show ?thesis
    by (simp add: page_cursor_def del: One_nat_def)
qed

lemma all_pages_rest:
  assumes T: "e070_table T" and srv: "serves E user f limit T" and l: "1 \<le> limit"
  shows "k = 0 \<or> k * limit < length T \<Longrightarrow> after = page_cursor limit T k \<Longrightarrow> rest = drop (k * limit) T \<Longrightarrow>
    length rest < n \<Longrightarrow> yields (\<lambda>r. r = Inr (listed f rest)) (all_pages n E user f limit after)"
proof (induction n arbitrary: k rest after)
  case 0
  then show ?case by simp
next
  case (Suc n)
  have rest: "rows_after after T = rest" using rows_after_page [OF T l Suc.prems(1)] Suc.prems(2,3) by simp
  note page = page_yields [OF T srv l Suc.prems(1,2), unfolded rest]
  show ?case
    unfolding all_pages.simps tryw_def
  proof (rule yields_bind [OF page], goal_cases)
    case (1 r)
    show ?case
    proof (cases "limit < length rest")
      case False
      with 1 show ?thesis by (simp add: yields_pure_sum)
    next
      case True
      let ?row = "rest ! (limit - 1)"
      have following: "Suc k * limit < length T" using True Suc.prems(3) by simp
      have "T ! (Suc k * limit - 1) = ?row" using True l Suc.prems(3) by (simp add: add.commute)
      then have cur: "Some (row_key ?row) = page_cursor limit T (Suc k)" by (simp add: page_cursor_def)
      have ok: "cursor_ok (row_key ?row)" using T Suc.prems(3) True l
        by (auto simp: e070_table_def list_all_iff dest!: bspec)
      have dots: "cursor_text (row_key ?row) \<noteq> []" by (simp add: cursor_text_def)
      have "yields (\<lambda>r. r = Inr (listed f (drop limit rest))) (all_pages n E user f limit (Some (row_key ?row)))"
        by (rule Suc.IH [where k = "Suc k"]) (use Suc.prems cur following l True in \<open>simp_all add: add.commute\<close>)
      then have go: "yields (\<lambda>r. r = Inr (listed f (take limit rest) @ listed f (drop limit rest)))
          (tryE (all_pages n E user f limit (Some (row_key ?row))) (\<lambda>more. ok (listed f (take limit rest) @ more)))"
        unfolding tryw_def by (rule yields_bind) (simp add: yields_pure_sum)
      have "listed f (take limit rest) @ listed f (drop limit rest) = listed f rest"
        by (simp add: listed_def flip: filter_append map_append)
      with go [unfolded tryw_def] 1 True dots parse_cursor_text [OF ok] show ?thesis
        by (simp add: yields_def del: One_nat_def)
    qed
  qed
qed



text \<open>A data preview over a table of three requests, for pages of two: a long statement is the second page's.\<close>

definition preview_doc :: "e070_row list \<Rightarrow> xml" where
  "preview_doc rows = Elem ''tableData'' [] [] (map (\<lambda>i. Elem ''columns'' [] []
     [Elem ''metadata'' [] [(''name'', [], listColumns ! i)] [],
      Elem ''dataSet'' [] [] (map (\<lambda>row. Elem ''data'' [] [] [Text (row_cells row ! i)]) rows)]) [0, 1, 2, 3, 4])"

definition example_table :: "e070_row list" where
  "example_table =
     [\<lparr>er_number = ''A4HK900003'', er_user = ''DEV'', er_status = ''D'', er_date = ''20260102'', er_time = ''120000''\<rparr>,
      \<lparr>er_number = ''A4HK900002'', er_user = ''DEV'', er_status = ''R'', er_date = ''20260102'', er_time = ''120000''\<rparr>,
      \<lparr>er_number = ''SAPK-74015INSTPI'', er_user = ''SAP'', er_status = ''N'', er_date = ''20250102'', er_time = ''230000''\<rparr>]"

definition preview_parser :: "string \<Rightarrow> err + xml" where
  "preview_parser d = Inr (preview_doc (if length d < 250 then example_table else drop 2 example_table))"

definition echo_body :: "request \<Rightarrow> string" where
  "echo_body rq = (case rq_body rq of None \<Rightarrow> [] | Some b \<Rightarrow> b)"

definition preview_env :: "unit env" where
  "preview_env = answering echo_body preview_parser"

lemma preview_runs:
  assumes "validateSelectOnly (trim_space sql) = None" "wrapLongSQLLines (trim_space sql) = Inr w"
    and "unmarshal_root preview_env ''tableData'' (sanitizeXML w) = Inr x"
    and "preview_rows rows (Inr (transposeDataPreview (decode_preview x)))"
  shows "yields (preview_rows rows) (RunQuery preview_env sql maxRows)"
proof -
  have "yields (answered_by echo_body ''POST'' (encoded_path (query_path maxRows)) (Some w))
     (checked preview_env (wrapf ''RunQuery: '') (\<lambda>e. e) (doMutateLong preview_env ''POST'' (query_path maxRows)
       (Some w) [(''Content-Type'', ''text/plain''),
               (''Accept'', ''application/vnd.sap.adt.datapreview.table.v1+xml'')]))"
    unfolding preview_env_def doMutateLong_def by (rule answering_checked [OF answering_mutate])
  moreover have "yields (preview_rows rows) (case r of Inl e \<Rightarrow> fail e
      | Inr resp \<Rightarrow> tryw (wrapf ''RunQuery: reading response: '') (of_sum (read_all resp)) (\<lambda>body.
          tryw (wrapf ''RunQuery: parsing XML: '') (of_sum (unmarshal_root preview_env ''tableData'' (sanitizeXML body)))
            (\<lambda>x. ok (transposeDataPreview (decode_preview x)))))"
    if "answered_by echo_body ''POST'' (encoded_path (query_path maxRows)) (Some w) r" for r
    using that assms(3,4) by (auto simp: answered_by_def is_request_def echo_body_def answer_def read_all_def
        yields_def run_tryw)
  ultimately show ?thesis
    unfolding RunQuery_def Let_def assms(1,2) option.case sum.case
    by (subst tryw_def) (rule yields_bind)
qed

definition first_page :: string where
  "first_page = listSQL [] 0 None"

definition second_page :: string where
  "second_page = listSQL [] 0 (page_cursor 2 example_table 1)"

lemma first_page_wraps: "wrapLongSQLLines (trim_space first_page) = Inr first_page"
  by code_simp


definition second_words :: "string list" where
  "second_words = split_on (CHR '' '') second_page"

definition second_lines :: "string list" where
  "second_lines = [join '' '' (take 37 second_words), '' '' @ join '' '' (drop 37 second_words)]"

lemma second_page_lines:
  "trim_space second_page = second_page" "split_on NL second_page = [second_page]" "trim_suffix second_page [CR] = second_page"
  by code_simp+

lemma second_page_decode: "decode second_page = bytes second_page"
  by code_simp

lemma second_page_count: "rune_count second_page = 345"
proof -
  have "length (bytes second_page) = 345" by code_simp
  then show ?thesis by (simp add: rune_count_def second_page_decode)
qed

lemma second_page_words: "sqlWords (bytes second_page) = (map bytes second_words, False)"
  by code_simp

lemma second_page_fill: "fill_lines [] 0 (merge_stars [] (map bytes second_words)) = map bytes second_lines"
  by code_simp

lemma second_page_start: "starts_star (bytes second_page) = False" "hd (bytes second_page) = ''S''"
  by code_simp+

lemma second_lines_short: "find (\<lambda>l. length l > 255) (map bytes second_lines) = None"
  by code_simp

lemma second_page_wraps: "wrapLongSQLLines (trim_space second_page) = Inr (join [NL] second_lines)"
proof -
  have "wrapSQLLine (bytes second_page) = Inr (map bytes second_lines)"
    using second_lines_short
    by (simp add: wrapSQLLine_def second_page_start second_page_words second_page_fill dataPreviewMaxLine_def)
  then have "wrap_lines 0 [second_page] = Inr (map concat (map bytes second_lines))"
    by (simp add: second_page_lines second_page_count second_page_decode dataPreviewMaxLine_def)
  then have "wrap_lines 0 [second_page] = Inr second_lines" by (simp add: comp_def)
  then show ?thesis
    by (simp add: wrapLongSQLLines_def second_page_lines second_page_count dataPreviewMaxLine_def)
qed

lemma preview_serves: "serves preview_env [] 0 2 example_table"
proof -
  have first: "validateSelectOnly (trim_space first_page) = None"
    "unmarshal_root preview_env ''tableData'' (sanitizeXML first_page) = Inr (preview_doc example_table)"
    by code_simp+
  have second: "validateSelectOnly second_page = None"
    "unmarshal_root preview_env ''tableData'' (sanitizeXML (join [NL] second_lines)) = Inr (preview_doc (drop 2 example_table))"
    by code_simp+
  have "preview_rows (take 3 (rows_after None example_table)) (Inr (transposeDataPreview (decode_preview (preview_doc example_table))))"
    by code_simp
  then have a: "yields (preview_rows (take 3 (rows_after None example_table))) (RunQuery preview_env first_page 3)"
    by (rule preview_runs [OF first(1) first_page_wraps first(2)])
  have "preview_rows (take 3 (rows_after (page_cursor 2 example_table 1) example_table))
      (Inr (transposeDataPreview (decode_preview (preview_doc (drop 2 example_table)))))"
    by code_simp
  then have b: "yields (preview_rows (take 3 (rows_after (page_cursor 2 example_table 1) example_table))) (RunQuery preview_env second_page 3)"
    using second(1) by (intro preview_runs [OF _ second_page_wraps second(2)]) (simp_all add: second_page_lines)
  have ks: "filter (\<lambda>k. k = 0 \<or> k * 2 < length example_table) [0..<Suc (length example_table)] = [0, 1]"
    by code_simp
  show ?thesis
    using a b unfolding serves_def ks by (simp add: Let_def first_page_def second_page_def page_cursor_def)
qed


end
