(* ===== verification/LockMap.thy ===== *)
theory LockMap
  imports Source
begin

text \<open>
  The cache of locks and ETags (\<open>adt/lockmap.go\<close>). The mutex makes each of \<open>Set\<close>, \<open>Get\<close>, \<open>UpdateETag\<close>
  and \<open>Delete\<close> one step on a map; \<open>ResolveLock\<close> and \<open>ResolveETag\<close> are the two lookups that fill it,
  written over the interfaces \<open>LockClient\<close> and \<open>SourceClient\<close> as the code has them. The map is
  returned updated, beside the effects on the client.
\<close>

record lock_state =
  LockHandle :: string
  ETag :: string

type_synonym lock_map = "string \<Rightarrow> lock_state option"

definition NewLockMap :: lock_map where
  "NewLockMap = (\<lambda>_. None)"

definition SetLock :: "string \<Rightarrow> string \<Rightarrow> string \<Rightarrow> lock_map \<Rightarrow> lock_map" where
  "SetLock key lockHandle etag m = m(key \<mapsto> \<lparr>LockHandle = lockHandle, ETag = etag\<rparr>)"

definition GetLock :: "string \<Rightarrow> lock_map \<Rightarrow> lock_state option" where
  "GetLock key m = m key"

definition UpdateETag :: "string \<Rightarrow> string \<Rightarrow> lock_map \<Rightarrow> lock_map" where
  "UpdateETag key etag m = (case m key of None \<Rightarrow> m | Some st \<Rightarrow> m(key \<mapsto> st\<lparr>ETag := etag\<rparr>))"

definition DeleteLock :: "string \<Rightarrow> lock_map \<Rightarrow> lock_map" where
  "DeleteLock key m = m(key := None)"

definition LockKey :: "string \<Rightarrow> string \<Rightarrow> string" where
  "LockKey systemName uri = systemName @ '':'' @ uri"

section \<open>The interface of the store\<close>

text \<open>What the resolving operations rely on, and what follows from it.\<close>

locale lock_store =
  fixes get :: "string \<Rightarrow> 'm \<Rightarrow> lock_state option"
    and set :: "string \<Rightarrow> string \<Rightarrow> string \<Rightarrow> 'm \<Rightarrow> 'm"
    and update :: "string \<Rightarrow> string \<Rightarrow> 'm \<Rightarrow> 'm"
    and delete :: "string \<Rightarrow> 'm \<Rightarrow> 'm"
  assumes get_set: "get k' (set k h e m) = (if k' = k then Some \<lparr>LockHandle = h, ETag = e\<rparr> else get k' m)"
    and get_update: "get k' (update k e m) =
      (if k' = k then map_option (\<lambda>st. st\<lparr>ETag := e\<rparr>) (get k m) else get k' m)"
    and get_delete: "get k' (delete k m) = (if k' = k then None else get k' m)"
begin

lemma handle_survives_update:
  "map_option LockHandle (get k' (update k e m)) = map_option LockHandle (get k' m)"
  by (cases "get k m") (auto simp: get_update)

lemma update_missing: "get k m = None \<Longrightarrow> get k' (update k e m) = get k' m"
  by (simp add: get_update)

lemma set_then_delete: "get k' (delete k (set k h e m)) = get k' (delete k m)"
  by (simp add: get_set get_delete)

lemma other_keys_untouched:
  assumes "k' \<noteq> k"
  shows "get k' (set k h e m) = get k' m" "get k' (update k e m) = get k' m" "get k' (delete k m) = get k' m"
  using assms by (simp_all add: get_set get_update get_delete)

end

interpretation locks: lock_store GetLock SetLock UpdateETag DeleteLock
  by unfold_locales (auto simp: GetLock_def SetLock_def UpdateETag_def DeleteLock_def split: option.splits)

section \<open>Resolving\<close>

definition ResolveLock :: "(string \<Rightarrow> ('w, string) go) \<Rightarrow> string \<Rightarrow> string \<Rightarrow> string \<Rightarrow> lock_map
    \<Rightarrow> ('w cl, (err + string) \<times> lock_map) state" where
  "ResolveLock locker key uri explicit m =
     (if explicit \<noteq> [] then State_Monad.return (Inr explicit, m)
      else
        (let cached = (case GetLock key m of None \<Rightarrow> [] | Some st \<Rightarrow> LockHandle st) in
         if cached \<noteq> [] then State_Monad.return (Inr cached, m)
         else State_Monad.bind (locker uri) (\<lambda>r. case r of
             Inl e \<Rightarrow> State_Monad.return (Inl (wrapf (''auto-lock '' @ uri @ '': '') e), m)
           | Inr handle \<Rightarrow> State_Monad.return (Inr handle, SetLock key handle [] m))))"

definition ResolveETag :: "(string \<Rightarrow> ('w, source_result) go) \<Rightarrow> (string \<Rightarrow> ('w, string) go) option
    \<Rightarrow> string \<Rightarrow> string \<Rightarrow> lock_map \<Rightarrow> ('w cl, (err + string) \<times> lock_map) state" where
  "ResolveETag reader fetcher key uri m =
     (let cached = (case GetLock key m of None \<Rightarrow> [] | Some st \<Rightarrow> ETag st);
          failed = (\<lambda>e. State_Monad.return (Inl (wrapf (''fetch ETag for '' @ uri @ '': '') e), m)) in
      if cached \<noteq> [] then State_Monad.return (Inr cached, m)
      else State_Monad.bind (reader uri) (\<lambda>r. case r of
          Inr src \<Rightarrow> State_Monad.return (Inr (sr_etag src), UpdateETag key (sr_etag src) m)
        | Inl e \<Rightarrow>
            (case fetcher of
               None \<Rightarrow> failed e
             | Some f \<Rightarrow>
                 if is_unauthorized e then failed e
                 else State_Monad.bind (f uri) (\<lambda>r2. case r2 of
                     Inr etag \<Rightarrow> if etag \<noteq> [] then State_Monad.return (Inr etag, UpdateETag key etag m) else failed e
                   | Inl _ \<Rightarrow> failed e))))"

section \<open>The interface of the readers\<close>

text \<open>
  A client of the cache reads through operations that stop at a rejected credential; then the
  lookups do, too. The last result of \<open>ResolveETag\<close> reports the error of the source read even when
  the fallback was rejected, so a rejection of the fallback itself is only kept quiet about.
\<close>

locale cached_reader =
  fixes locker :: "string \<Rightarrow> ('w cl, err + string) state"
    and reader :: "string \<Rightarrow> ('w cl, err + source_result) state"
    and fetcher :: "string \<Rightarrow> ('w cl, err + string) state"
  assumes locker_stops: "stops401 unauth (locker uri)"
    and reader_stops: "stops401 unauth (reader uri)"
    and fetcher_stops: "stops401 unauth (fetcher uri)"
    and locker_handle: "run_state (locker uri) s = (Inr h, s') \<Longrightarrow> h \<noteq> []"
begin

lemma ResolveLock_stops: "stops401 (\<lambda>p. unauth (fst p)) (ResolveLock locker key uri explicit m)"
  unfolding ResolveLock_def Let_def
  by (auto intro!: stops stops401_bind [OF locker_stops] split: sum.splits)

lemma ResolveETag_stops: "stops401 (\<lambda>_. True) (ResolveETag reader (Some fetcher) key uri m)"
  unfolding ResolveETag_def Let_def
  by (auto intro!: stops stops401_bind [OF reader_stops] stops401_bind [OF fetcher_stops]
      split: sum.splits)

lemma ResolveLock_cached:
  assumes "run_state (ResolveLock locker key uri [] m) s = ((Inr h, m'), s')"
  shows "run_state (ResolveLock locker key uri' [] m') t = ((Inr h, m'), t)"
proof (cases "case GetLock key m of None \<Rightarrow> [] | Some st \<Rightarrow> LockHandle st")
  case (Cons c cs)
  with assms show ?thesis by (auto simp: ResolveLock_def Let_def)
next
  case Nil
  with assms obtain s1 where 1: "run_state (locker uri) s = (Inr h, s1)" "m' = SetLock key h [] m"
    by (auto simp: ResolveLock_def Let_def split: prod.splits sum.splits)
  from locker_handle [OF 1(1)] 1(2) show ?thesis
    by (simp add: ResolveLock_def locks.get_set)
qed

end

lemma LockObject_handle:
  assumes "run_state (LockObject E uri) s = (Inr h, s')"
  shows "h \<noteq> []"
proof -
  have "yields (\<lambda>r. case r of Inl _ \<Rightarrow> True | Inr h \<Rightarrow> h \<noteq> []) (LockObject E uri)"
    unfolding LockObject_def Let_def tryw_def
    by (auto split: sum.splits intro!: yields_bind_any yields_intro)
  from yieldsD [OF this assms] show ?thesis by simp
qed

interpretation http: cached_reader "LockObject E" "GetSource E" "FetchETag E" for E
  by unfold_locales (auto intro: stops dest: LockObject_handle)

section \<open>Properties\<close>

text \<open>
  C40. An object is auto-locked once: after \<open>ResolveLock\<close> has returned a handle without being given
  one, every further call for the key returns the same handle, sends nothing and leaves the cache
  as it is.
\<close>

theorem ResolveLock_locks_once:
  assumes "run_state (ResolveLock (LockObject E) key uri [] m) s = ((Inr h, m'), s')"
  shows "run_state (ResolveLock (LockObject E) key uri' [] m') t = ((Inr h, m'), t)
    \<and> map_option LockHandle (GetLock key m') = Some h"
proof -
  note again = http.ResolveLock_cached [OF assms, of uri' t]
  from assms have "map_option LockHandle (GetLock key m') = Some h"
    by (auto simp: ResolveLock_def Let_def locks.get_set split: prod.splits sum.splits if_splits option.splits)
  with again show ?thesis by simp
qed

definition locked_once :: "response list cl" where
  "locked_once = snd (run_state (LockObject scripted ''/u'') (new_client [answer 200 [], answer 200 ''HANDLE'']))"

theorem ResolveLock_locks_once_witness:
  "run_state (ResolveLock (LockObject scripted) ''S:/u'' ''/other'' [] (SetLock ''S:/u'' ''HANDLE'' [] NewLockMap)) locked_once
     = ((Inr ''HANDLE'', SetLock ''S:/u'' ''HANDLE'' [] NewLockMap), locked_once)"
proof -
  have "fst (run_state (LockObject scripted ''/u'') (new_client [answer 200 [], answer 200 ''HANDLE''])) = Inr ''HANDLE''"
    by code_simp
  then obtain s1 where 1: "run_state (LockObject scripted ''/u'') (new_client [answer 200 [], answer 200 ''HANDLE''])
      = (Inr ''HANDLE'', s1)"
    by (cases "run_state (LockObject scripted ''/u'') (new_client [answer 200 [], answer 200 ''HANDLE''])") auto
  then have "locked_once = s1" by (simp add: locked_once_def)
  moreover from 1 have "run_state (ResolveLock (LockObject scripted) ''S:/u'' ''/u'' [] NewLockMap) (new_client [answer 200 [], answer 200 ''HANDLE''])
      = ((Inr ''HANDLE'', SetLock ''S:/u'' ''HANDLE'' [] NewLockMap), s1)"
    by (simp add: ResolveLock_def NewLockMap_def GetLock_def)
  ultimately show ?thesis using ResolveLock_locks_once by blast
qed

text \<open>
  The lookups of the cache stop at the first 401: \<open>ResolveLock\<close> hands it on, and \<open>ResolveETag\<close>
  does not fall back to the object document after the source read was rejected.
\<close>

theorem Resolve_stops_at_401:
  assumes "oauth s = None"
  shows "(\<exists>es. wire (snd (run_state (ResolveETag (GetSource E) (Some (FetchETag E)) key uri m) s)) = es @ wire s
       \<and> (\<forall>ev \<in> set (tl es). \<not> is401 ev))
    \<and> (\<exists>es. wire (snd (run_state (ResolveLock (LockObject E) key uri explicit m) s)) = es @ wire s
       \<and> (\<forall>ev \<in> set (tl es). \<not> is401 ev)
       \<and> (list_ex is401 es \<longrightarrow> unauth (fst (fst (run_state (ResolveLock (LockObject E) key uri explicit m) s)))))"
  using stops401_shape [OF http.ResolveETag_stops assms] stops401_shape [OF http.ResolveLock_stops assms]
  by blast

theorem Resolve_stops_at_401_witness:
  "\<exists>es. wire (snd (run_state (ResolveETag (GetSource scripted) (Some (FetchETag scripted)) ''k'' ''/u'' NewLockMap)
          (new_client [answer 401 []]))) = es @ wire (new_client [answer 401 []])
       \<and> (\<forall>ev \<in> set (tl es). \<not> is401 ev)"
  using Resolve_stops_at_401 [of "new_client [answer 401 []]" scripted "''k''" "''/u''" NewLockMap "[]"]
  by auto

end
