(* ===== verification/TokenSource.thy ===== *)
theory TokenSource
  imports Client
begin

text \<open>
  The shared token source (\<open>adt/tokensource.go\<close>) with many requests at once. A step of a request is
  one section under the mutex of \<open>refreshAfter401\<close>, the return of the refresh callback, or the closing
  of the call's channel; steps of different requests interleave freely. The source here has a refresh
  callback; without one \<open>refreshAfter401\<close> returns at once (\<open>Client.refreshAfter401\<close>).
\<close>

section \<open>The state machine\<close>

text \<open>Where a request is in \<open>refreshAfter401\<close>; \<open>Closing\<close> is between the unlock and \<open>close(call.done)\<close>.\<close>

datatype pc =
    Idle
  | Entered string
  | Waiting nat
  | Refreshing nat string
  | Closing nat "err option" bool
  | Returned "err option"
  | Panicked

text \<open>A \<open>refreshCall\<close>: \<open>done\<close> still open, or closed with its error.\<close>

datatype call = Running | Finished "err option"

record token_state =
  tok :: string
  inflight :: "nat option"
  calls :: "call list"
  pcs :: "pc list"

abbreviation at :: "token_state \<Rightarrow> nat \<Rightarrow> pc \<Rightarrow> bool" where
  "at s i p \<equiv> i < length (pcs s) \<and> pcs s ! i = p"

abbreviation goto :: "nat \<Rightarrow> pc \<Rightarrow> token_state \<Rightarrow> token_state" where
  "goto i p s \<equiv> s\<lparr>pcs := (pcs s)[i := p]\<rparr>"

text \<open>A request with token \<open>sent\<close> came back 401 and calls \<open>refreshAfter401\<close>.\<close>

inductive arrive :: "token_state \<Rightarrow> token_state \<Rightarrow> bool" where
  Arrive: "at s i Idle \<Longrightarrow> arrive s (goto i (Entered sent) s)"

inductive token_step :: "token_state \<Rightarrow> token_state \<Rightarrow> bool" where
  Changed: "at s i (Entered sent) \<Longrightarrow> tok s \<noteq> sent \<Longrightarrow> token_step s (goto i (Returned None) s)"
| Join: "at s i (Entered sent) \<Longrightarrow> tok s = sent \<Longrightarrow> inflight s = Some c \<Longrightarrow> token_step s (goto i (Waiting c) s)"
| Lead: "at s i (Entered sent) \<Longrightarrow> tok s = sent \<Longrightarrow> inflight s = None \<Longrightarrow>
    token_step s ((goto i (Refreshing (length (calls s)) sent) s)
      \<lparr>inflight := Some (length (calls s)), calls := calls s @ [Running]\<rparr>)"
| Succeed: "at s i (Refreshing c sent) \<Longrightarrow>
    token_step s ((goto i (Closing c None False) s)\<lparr>tok := t, inflight := None\<rparr>)"
| Fail: "at s i (Refreshing c sent) \<Longrightarrow>
    token_step s ((goto i (Closing c (Some (wrapf ''token refresh failed: '' e)) False) s)\<lparr>inflight := None\<rparr>)"
| Panic: "at s i (Refreshing c sent) \<Longrightarrow>
    token_step s ((goto i (Closing c (Some (Sentinel ErrRefreshAborted)) True) s)\<lparr>inflight := None\<rparr>)"
| Close: "at s i (Closing c r panicking) \<Longrightarrow>
    token_step s ((goto i (if panicking then Panicked else Returned r) s)\<lparr>calls := (calls s)[c := Finished r]\<rparr>)"
| Wake: "at s i (Waiting c) \<Longrightarrow> c < length (calls s) \<Longrightarrow> calls s ! c = Finished r \<Longrightarrow>
    token_step s (goto i (Returned r) s)"

text \<open>The context of a waiting request ends first.\<close>

inductive cancel :: "token_state \<Rightarrow> token_state \<Rightarrow> bool" where
  Cancel: "at s i (Waiting c) \<Longrightarrow> e \<in> {Sentinel ErrCanceled, Sentinel ErrDeadlineExceeded} \<Longrightarrow>
    cancel s (goto i (Returned (Some e)) s)"

inductive_cases arriveE: "arrive s s'"
inductive_cases token_stepE: "token_step s s'"

definition start :: "string \<Rightarrow> nat \<Rightarrow> token_state" where
  "start t n = \<lparr>tok = t, inflight = None, calls = [], pcs = replicate n Idle\<rparr>"

inductive reachable :: "token_state \<Rightarrow> bool" where
  Start: "reachable (start t n)"
| Arrival: "reachable s \<Longrightarrow> arrive s s' \<Longrightarrow> reachable s'"
| Step: "reachable s \<Longrightarrow> token_step s s' \<Longrightarrow> reachable s'"
| Cancelled: "reachable s \<Longrightarrow> cancel s s' \<Longrightarrow> reachable s'"

section \<open>The invariant\<close>

definition owns :: "pc \<Rightarrow> nat \<Rightarrow> bool" where
  "owns p c \<longleftrightarrow> (case p of Refreshing c' _ \<Rightarrow> c' = c | Closing c' _ _ \<Rightarrow> c' = c | _ \<Rightarrow> False)"

lemma owns_simps [simp]:
  "\<not> owns Idle c" "\<not> owns (Entered sent) c" "\<not> owns (Waiting c') c" "\<not> owns (Returned r) c" "\<not> owns Panicked c"
  "owns (Refreshing c' sent) c \<longleftrightarrow> c' = c" "owns (Closing c' r b) c \<longleftrightarrow> c' = c"
  by (simp_all add: owns_def)

text \<open>Only the request that runs the refresh in flight is refreshing, and it refreshes the current token.\<close>

definition leader_ok :: "pc list \<Rightarrow> nat option \<Rightarrow> string \<Rightarrow> bool" where
  "leader_ok ps infl t \<longleftrightarrow>
     (\<forall>i < length ps. \<forall>c sent. ps ! i = Refreshing c sent \<longrightarrow> infl = Some c \<and> sent = t)
     \<and> (\<forall>c. infl = Some c \<longrightarrow> (\<exists>i < length ps. \<exists>sent. ps ! i = Refreshing c sent))"

text \<open>A call is open exactly while one request owns it.\<close>

definition owner_ok :: "pc list \<Rightarrow> call list \<Rightarrow> bool" where
  "owner_ok ps cs \<longleftrightarrow>
     (\<forall>i < length ps. \<forall>c. owns (ps ! i) c \<longrightarrow> c < length cs \<and> cs ! c = Running)
     \<and> (\<forall>i < length ps. \<forall>j < length ps. \<forall>c. owns (ps ! i) c \<longrightarrow> owns (ps ! j) c \<longrightarrow> i = j)
     \<and> (\<forall>c < length cs. cs ! c = Running \<longrightarrow> (\<exists>i < length ps. owns (ps ! i) c))"

definition waiter_ok :: "pc list \<Rightarrow> call list \<Rightarrow> bool" where
  "waiter_ok ps cs \<longleftrightarrow> (\<forall>i < length ps. \<forall>c. ps ! i = Waiting c \<longrightarrow> c < length cs)"

definition token_inv :: "token_state \<Rightarrow> bool" where
  "token_inv s \<longleftrightarrow> leader_ok (pcs s) (inflight s) (tok s) \<and> owner_ok (pcs s) (calls s) \<and> waiter_ok (pcs s) (calls s)"

lemma start_inv: "token_inv (start t n)"
  by (simp add: token_inv_def leader_ok_def owner_ok_def waiter_ok_def start_def)

lemma leader_okD: "leader_ok ps infl t \<Longrightarrow> i < length ps \<Longrightarrow> ps ! i = Refreshing c sent \<Longrightarrow> infl = Some c \<and> sent = t"
  unfolding leader_ok_def by blast

lemma leader_okE:
  assumes "leader_ok ps (Some c) t"
  obtains i sent where "i < length ps" "ps ! i = Refreshing c sent"
  using assms unfolding leader_ok_def by blast

lemma owner_ok_running: "owner_ok ps cs \<Longrightarrow> i < length ps \<Longrightarrow> owns (ps ! i) c \<Longrightarrow> c < length cs \<and> cs ! c = Running"
  unfolding owner_ok_def by blast

lemma owner_ok_unique:
  "owner_ok ps cs \<Longrightarrow> i < length ps \<Longrightarrow> j < length ps \<Longrightarrow> owns (ps ! i) c \<Longrightarrow> owns (ps ! j) c \<Longrightarrow> i = j"
  unfolding owner_ok_def by blast

lemma owner_okE:
  assumes "owner_ok ps cs" "c < length cs" "cs ! c = Running"
  obtains i where "i < length ps" "owns (ps ! i) c"
  using assms unfolding owner_ok_def by blast

lemma owner_okI:
  assumes "\<And>i c. i < length ps \<Longrightarrow> owns (ps ! i) c \<Longrightarrow> c < length cs \<and> cs ! c = Running"
    and "\<And>i j c. i < length ps \<Longrightarrow> j < length ps \<Longrightarrow> owns (ps ! i) c \<Longrightarrow> owns (ps ! j) c \<Longrightarrow> i = j"
    and "\<And>c. c < length cs \<Longrightarrow> cs ! c = Running \<Longrightarrow> \<exists>i < length ps. owns (ps ! i) c"
  shows "owner_ok ps cs"
  using assms unfolding owner_ok_def by blast

subsection \<open>Preservation\<close>

lemma leader_keep:
  assumes "leader_ok ps infl t" and "i < length ps"
    and "\<And>c sent. ps ! i \<noteq> Refreshing c sent" and "\<And>c sent. p \<noteq> Refreshing c sent"
  shows "leader_ok (ps[i := p]) infl t"
proof -
  have "ps[i := p] ! j = Refreshing c sent \<longleftrightarrow> ps ! j = Refreshing c sent" if "j < length ps" for j c sent
    using assms(3,4) that by (cases "j = i") auto
  with assms(1) show ?thesis by (simp add: leader_ok_def cong: conj_cong)
qed

lemma leader_lead:
  assumes "leader_ok ps None t" and "i < length ps"
  shows "leader_ok (ps[i := Refreshing c t]) (Some c) t"
proof -
  have "ps ! j \<noteq> Refreshing c' sent" if "j < length ps" for j c' sent
    using leader_okD [OF assms(1) that] by auto
  with assms(2) show ?thesis
    unfolding leader_ok_def by (auto simp: nth_list_update split: if_splits)
qed

lemma leader_leave:
  assumes "leader_ok ps infl t" and "owner_ok ps cs" and "i < length ps" and "ps ! i = Refreshing c sent"
    and "\<And>c sent. p \<noteq> Refreshing c sent"
  shows "leader_ok (ps[i := p]) None t'"
proof -
  have "ps ! j \<noteq> Refreshing c' sent'" if "j < length ps" "j \<noteq> i" for j c' sent'
  proof
    assume j: "ps ! j = Refreshing c' sent'"
    have "c' = c" using leader_okD [OF assms(1) that(1) j] leader_okD [OF assms(1,3,4)] by simp
    with j have "j = i" using owner_ok_unique [OF assms(2) that(1) assms(3)] assms(4) by simp
    with that(2) show False by simp
  qed
  with assms(3,5) have "ps[i := p] ! j \<noteq> Refreshing c' sent'" if "j < length ps" for j c' sent'
    using that by (cases "j = i") simp_all
  then show ?thesis by (simp add: leader_ok_def)
qed

lemma owner_keep:
  assumes "owner_ok ps cs" and "i < length ps" and "\<And>c. owns p c = owns (ps ! i) c"
  shows "owner_ok (ps[i := p]) cs"
proof -
  have "owns (ps[i := p] ! j) c = owns (ps ! j) c" if "j < length ps" for j c
    using assms(2,3) that by (cases "j = i") auto
  with assms(1) show ?thesis by (simp add: owner_ok_def cong: conj_cong)
qed

lemma owner_lead:
  assumes "owner_ok ps cs" and "i < length ps" and "\<And>c. \<not> owns (ps ! i) c"
  shows "owner_ok (ps[i := Refreshing (length cs) t]) (cs @ [Running])"
proof -
  let ?ps = "ps[i := Refreshing (length cs) t]"
  have own: "owns (?ps ! j) c \<longleftrightarrow> (if j = i then c = length cs else owns (ps ! j) c)" if "j < length ps" for j c
    using that by auto
  have old: "c < length cs \<and> cs ! c = Running" if "j < length ps" "owns (ps ! j) c" for j c
    by (rule owner_ok_running [OF assms(1) that])
  show ?thesis
  proof (rule owner_okI)
    fix j c assume j: "j < length ?ps" "owns (?ps ! j) c"
    show "c < length (cs @ [Running]) \<and> (cs @ [Running]) ! c = Running"
    proof (cases "j = i")
      case True
      with j own have "c = length cs" by simp
      then show ?thesis by simp
    next
      case False
      with j own have "owns (ps ! j) c" by simp
      with j(1) old have "c < length cs \<and> cs ! c = Running" by simp
      then show ?thesis by (simp add: nth_append)
    qed
  next
    fix j k c assume "j < length ?ps" "k < length ?ps" "owns (?ps ! j) c" "owns (?ps ! k) c"
    then have *: "j < length ps" "k < length ps" "if j = i then c = length cs else owns (ps ! j) c"
      "if k = i then c = length cs else owns (ps ! k) c" using own by simp_all
    show "j = k"
    proof (cases "c = length cs")
      case True
      with * old show ?thesis by (metis less_irrefl)
    next
      case False
      with * owner_ok_unique [OF assms(1)] show ?thesis by (metis (full_types))
    qed
  next
    fix c assume c: "c < length (cs @ [Running])" "(cs @ [Running]) ! c = Running"
    show "\<exists>j < length ?ps. owns (?ps ! j) c"
    proof (cases "c = length cs")
      case True
      with assms(2) show ?thesis by (intro exI [of _ i]) simp
    next
      case False
      with c have "c < length cs" "cs ! c = Running" by (simp_all add: nth_append)
      then obtain j where j: "j < length ps" "owns (ps ! j) c" by (rule owner_okE [OF assms(1)])
      with assms(3) have "j \<noteq> i" by blast
      with j show ?thesis by (intro exI [of _ j]) simp
    qed
  qed
qed

lemma owner_close:
  assumes "owner_ok ps cs" and "i < length ps" and "ps ! i = Closing c r b" and "\<And>c. \<not> owns p c"
  shows "owner_ok (ps[i := p]) (cs[c := Finished r])"
proof -
  have own: "owns (ps[i := p] ! j) d \<longleftrightarrow> j \<noteq> i \<and> owns (ps ! j) d" if "j < length ps" for j d
    using that assms(4) by (cases "j = i") auto
  have other: "d \<noteq> c" if "j < length ps" "j \<noteq> i" "owns (ps ! j) d" for j d
    using owner_ok_unique [OF assms(1) that(1) assms(2) that(3)] that(2) assms(3) by auto
  show ?thesis
  proof (rule owner_okI)
    fix j d assume "j < length (ps[i := p])" "owns (ps[i := p] ! j) d"
    then have j: "j < length ps" "j \<noteq> i" "owns (ps ! j) d" using own by simp_all
    with other have "d \<noteq> c" by blast
    with owner_ok_running [OF assms(1) j(1,3)]
    show "d < length (cs[c := Finished r]) \<and> cs[c := Finished r] ! d = Running" by simp
  next
    fix j k d assume "j < length (ps[i := p])" "k < length (ps[i := p])" "owns (ps[i := p] ! j) d" "owns (ps[i := p] ! k) d"
    then have "j < length ps" "k < length ps" "owns (ps ! j) d" "owns (ps ! k) d" using own by simp_all
    then show "j = k" by (rule owner_ok_unique [OF assms(1)])
  next
    fix d assume d: "d < length (cs[c := Finished r])" "cs[c := Finished r] ! d = Running"
    then have "d \<noteq> c" by auto
    with d have "cs ! d = Running" by simp
    with d obtain j where j: "j < length ps" "owns (ps ! j) d" by (auto elim: owner_okE [OF assms(1)])
    with \<open>d \<noteq> c\<close> assms(3) have "j \<noteq> i" by auto
    with j own show "\<exists>j < length (ps[i := p]). owns (ps[i := p] ! j) d" by auto
  qed
qed

lemma waiter_keep:
  assumes "waiter_ok ps cs" and "length cs \<le> length cs'" and "\<And>c. p = Waiting c \<Longrightarrow> c < length cs"
  shows "waiter_ok (ps[i := p]) cs'"
proof -
  have "c < length cs" if "j < length ps" "ps[i := p] ! j = Waiting c" for j c
    using assms(1,3) that by (cases "j = i") (simp_all add: waiter_ok_def)
  with assms(2) show ?thesis by (fastforce simp: waiter_ok_def)
qed

lemma token_invI:
  "leader_ok (pcs s) (inflight s) (tok s) \<Longrightarrow> owner_ok (pcs s) (calls s) \<Longrightarrow> waiter_ok (pcs s) (calls s) \<Longrightarrow> token_inv s"
  by (simp add: token_inv_def)

lemma token_invD:
  assumes "token_inv s"
  shows "leader_ok (pcs s) (inflight s) (tok s)" "owner_ok (pcs s) (calls s)" "waiter_ok (pcs s) (calls s)"
  using assms by (simp_all add: token_inv_def)

text \<open>A step of a request that is neither before nor after the owner of a call.\<close>

lemma inv_goto:
  assumes "token_inv s" and "i < length (pcs s)"
    and "\<And>c. \<not> owns (pcs s ! i) c" and "\<And>c. \<not> owns p c" and "\<And>c. p = Waiting c \<Longrightarrow> c < length (calls s)"
  shows "token_inv (goto i p s)"
proof (rule token_invI)
  note inv = token_invD [OF assms(1)]
  have "pcs s ! i \<noteq> Refreshing c sent" "p \<noteq> Refreshing c sent" for c sent
    using assms(3) [of c] assms(4) [of c] by auto
  with inv(1) assms(2) show "leader_ok (pcs (goto i p s)) (inflight (goto i p s)) (tok (goto i p s))"
    by (simp add: leader_keep)
  show "owner_ok (pcs (goto i p s)) (calls (goto i p s))" using inv(2) assms(2-4) by (simp add: owner_keep)
  show "waiter_ok (pcs (goto i p s)) (calls (goto i p s))" using assms(5) by (simp add: waiter_keep [OF inv(3) order_refl])
qed

text \<open>The end of a refresh, whatever token it leaves.\<close>

lemma inv_leave:
  assumes "token_inv s" and "at s i (Refreshing c sent)"
  shows "token_inv ((goto i (Closing c r b) s)\<lparr>tok := t, inflight := None\<rparr>)"
proof (rule token_invI)
  note inv = token_invD [OF assms(1)]
  let ?s = "(goto i (Closing c r b) s)\<lparr>tok := t, inflight := None\<rparr>"
  show "leader_ok (pcs ?s) (inflight ?s) (tok ?s)" using leader_leave [OF inv(1,2)] assms(2) by simp
  show "owner_ok (pcs ?s) (calls ?s)" using owner_keep [OF inv(2)] assms(2) by simp
  show "waiter_ok (pcs ?s) (calls ?s)" by (simp, rule waiter_keep [OF inv(3)]) simp_all
qed

lemma inv_leave_same:
  assumes "token_inv s" and "at s i (Refreshing c sent)"
  shows "token_inv ((goto i (Closing c r b) s)\<lparr>inflight := None\<rparr>)"
proof -
  have "(goto i (Closing c r b) s)\<lparr>inflight := None\<rparr> = (goto i (Closing c r b) s)\<lparr>tok := tok s, inflight := None\<rparr>"
    by simp
  with inv_leave [OF assms] show ?thesis by metis
qed

lemma arrive_inv: "arrive s s' \<Longrightarrow> token_inv s \<Longrightarrow> token_inv s'"
  by (induction rule: arrive.induct) (rule inv_goto; simp)

lemma cancel_inv: "cancel s s' \<Longrightarrow> token_inv s \<Longrightarrow> token_inv s'"
  by (induction rule: cancel.induct) (rule inv_goto; simp)

lemma inflight_running:
  assumes "token_inv s" and "inflight s = Some c"
  shows "c < length (calls s) \<and> calls s ! c = Running"
proof -
  note inv = token_invD [OF assms(1)]
  obtain i sent where "i < length (pcs s)" "pcs s ! i = Refreshing c sent"
    using inv(1) unfolding assms(2) by (rule leader_okE)
  then show ?thesis using owner_ok_running [OF inv(2)] by simp
qed

lemma step_inv: "token_step s s' \<Longrightarrow> token_inv s \<Longrightarrow> token_inv s'"
proof (induction rule: token_step.induct)
  case (Join s i sent c)
  then show ?case using inflight_running [OF Join.prems] by (intro inv_goto) simp_all
next
  case (Lead s i sent)
  note inv = token_invD [OF Lead.prems]
  from Lead inv show ?case
    by (intro token_invI; simp add: leader_lead owner_lead) (rule waiter_keep [OF inv(3)]; simp)
next
  case (Succeed s i c sent t)
  then show ?case by (auto intro: inv_leave)
next
  case (Fail s i c sent e)
  from inv_leave_same [OF this(2,1)] show ?case .
next
  case (Panic s i c sent)
  from inv_leave_same [OF this(2,1)] show ?case .
next
  case (Close s i c r panicking)
  note inv = token_invD [OF Close.prems]
  from Close inv show ?case
    by (intro token_invI) (auto intro: leader_keep owner_close waiter_keep)
qed (rule inv_goto; simp)+

lemma reachable_inv: "reachable s \<Longrightarrow> token_inv s"
  by (induction rule: reachable.induct) (auto intro: start_inv arrive_inv step_inv cancel_inv)

section \<open>What the requests can rely on\<close>

text \<open>C4. The refresh callback runs at most once at a time, however many requests were rejected at once, and
  always with the token that is current.\<close>

theorem one_refresh_at_a_time:
  assumes "reachable s" and "at s i (Refreshing c sent)" and "at s j (Refreshing d sent')"
  shows "i = j \<and> sent = tok s"
proof -
  note inv = token_invD [OF reachable_inv [OF assms(1)]]
  have "inflight s = Some c \<and> sent = tok s" using leader_okD [OF inv(1), of i c sent] assms(2) by simp
  moreover have "inflight s = Some d" using leader_okD [OF inv(1), of j d sent'] assms(3) by simp
  ultimately show ?thesis using owner_ok_unique [OF inv(2), of i j c] assms(2,3) by simp
qed

text \<open>Two requests rejected with one token: the first refreshes, the second waits for it.\<close>

definition busy :: token_state where
  "busy = \<lparr>tok = ''t'', inflight = Some 0, calls = [Running], pcs = [Refreshing 0 ''t'', Waiting 0]\<rparr>"

lemma busy_reachable: "reachable busy"
proof -
  let ?s = "\<lambda>p q. \<lparr>tok = ''t'', inflight = None, calls = [], pcs = [p, q]\<rparr> :: token_state"
  have "reachable (?s Idle Idle)"
    using reachable.Start [of "''t''" 2] by (simp add: start_def numeral_2_eq_2)
  then have "reachable (?s (Entered ''t'') Idle)"
    by (rule reachable.Arrival) (use arrive.Arrive [of 0 "?s Idle Idle" "''t''"] in simp)
  then have "reachable (?s (Entered ''t'') (Entered ''t''))"
    by (rule reachable.Arrival) (use arrive.Arrive [of 1 "?s (Entered ''t'') Idle" "''t''"] in simp)
  then have "reachable \<lparr>tok = ''t'', inflight = Some 0, calls = [Running], pcs = [Refreshing 0 ''t'', Entered ''t'']\<rparr>"
    by (rule reachable.Step)
      (use token_step.Lead [where s = "?s (Entered ''t'') (Entered ''t'')" and i = 0 and sent = "''t''"] in simp)
  then show ?thesis
    unfolding busy_def
    by (rule reachable.Step)
      (use token_step.Join [where s = "\<lparr>tok = ''t'', inflight = Some 0, calls = [Running],
          pcs = [Refreshing 0 ''t'', Entered ''t'']\<rparr>" and i = 1 and sent = "''t''" and c = 0] in simp)
qed

lemma one_refresh_at_a_time_witness: "(0::nat) = 0 \<and> ''t'' = tok busy"
  by (rule one_refresh_at_a_time [OF busy_reachable, of 0 0 _ 0 0 "''t''"]) (simp_all add: busy_def)

text \<open>The steps that remain to each request.\<close>

fun weight :: "pc \<Rightarrow> nat" where
  "weight (Entered sent) = 3"
| "weight (Refreshing c sent) = 2"
| "weight (Closing c r b) = 1"
| "weight (Waiting c) = 1"
| "weight p = 0"

definition work :: "token_state \<Rightarrow> nat" where
  "work s = sum_list (map weight (pcs s))"

lemma sum_list_update_less:
  fixes ws :: "nat list"
  shows "i < length ws \<Longrightarrow> w < ws ! i \<Longrightarrow> sum_list (ws[i := w]) < sum_list ws"
proof (induction ws arbitrary: i)
  case (Cons v ws)
  then show ?case by (cases i) simp_all
qed simp

lemma work_goto: "i < length (pcs s) \<Longrightarrow> weight p < weight (pcs s ! i) \<Longrightarrow> work (goto i p s) < work s"
  by (simp add: work_def map_update sum_list_update_less)

lemma work_more [simp]:
  "work (s\<lparr>tok := t\<rparr>) = work s" "work (s\<lparr>inflight := f\<rparr>) = work s" "work (s\<lparr>calls := cs\<rparr>) = work s"
  by (simp_all add: work_def)

lemma step_works: "token_step s s' \<Longrightarrow> work s' < work s"
proof (induction rule: token_step.induct)
qed (auto intro: work_goto)

lemma open_call_runs:
  assumes "token_inv s" and "c < length (calls s)" and "calls s ! c = Running"
  shows "\<exists>s'. token_step s s'"
proof -
  obtain i where i: "i < length (pcs s)" "owns (pcs s ! i) c"
    using token_invD(2) [OF assms(1)] assms(2,3) by (rule owner_okE)
  then show ?thesis
    by (cases "pcs s ! i") (auto intro: token_step.Fail token_step.Close)
qed

lemma unfinished_moves:
  assumes "token_inv s" and "i < length (pcs s)" and "weight (pcs s ! i) \<noteq> 0"
  shows "\<exists>s'. token_step s s'"
proof (cases "pcs s ! i")
  case (Entered sent)
  then show ?thesis using assms(2)
    by (cases "tok s = sent"; cases "inflight s") (blast intro: token_step.Changed token_step.Join token_step.Lead)+
next
  case (Waiting c)
  then have c: "c < length (calls s)" using token_invD(3) [OF assms(1)] assms(2) by (simp add: waiter_ok_def)
  then show ?thesis using open_call_runs [OF assms(1) c] Waiting assms(2)
    by (cases "calls s ! c") (blast intro: token_step.Wake)+
next
  case (Refreshing c sent)
  then show ?thesis using assms(2) by (blast intro: token_step.Fail)
next
  case (Closing c r b)
  then show ?thesis using assms(2) by (blast intro: token_step.Close)
qed (use assms(3) in simp_all)

text \<open>C20. No request waits forever: in every reachable state, also after failed and panicking refreshes and
  without any context ending, each step uses up a bounded amount of work, and while a request is unfinished
  some step is possible; when none is, every request that arrived has returned or panicked.\<close>

theorem no_request_is_stuck:
  assumes "reachable s"
  shows "(\<forall>s'. token_step s s' \<longrightarrow> work s' < work s)
    \<and> ((\<nexists>s'. token_step s s') \<longrightarrow>
         (\<forall>p \<in> set (pcs s). p = Idle \<or> p = Panicked \<or> (\<exists>r. p = Returned r)))"
proof (intro conjI allI impI ballI)
  fix p assume stuck: "\<nexists>s'. token_step s s'" and "p \<in> set (pcs s)"
  then obtain i where i: "i < length (pcs s)" "p = pcs s ! i" by (auto simp: in_set_conv_nth)
  have "weight p = 0" using unfinished_moves [OF reachable_inv [OF assms] i(1)] stuck i(2) by blast
  then show "p = Idle \<or> p = Panicked \<or> (\<exists>r. p = Returned r)" by (cases p) simp_all
qed (rule step_works)

lemma no_request_is_stuck_witness: "\<exists>s'. token_step busy s' \<and> work s' < work busy"
proof -
  have "\<not> (\<forall>p \<in> set (pcs busy). p = Idle \<or> p = Panicked \<or> (\<exists>r. p = Returned r))"
    by (simp add: busy_def)
  with no_request_is_stuck [OF busy_reachable] show ?thesis by blast
qed

section \<open>One request alone\<close>

definition alone :: "string \<Rightarrow> call list \<Rightarrow> pc \<Rightarrow> token_state" where
  "alone t cs p = \<lparr>tok = t, inflight = None, calls = cs, pcs = [p]\<rparr>"

definition leading :: "string \<Rightarrow> call list \<Rightarrow> token_state" where
  "leading t cs = \<lparr>tok = t, inflight = Some (length cs), calls = cs @ [Running], pcs = [Refreshing (length cs) t]\<rparr>"

lemma alone_changed: "t \<noteq> sent \<Longrightarrow> token_step (alone t cs (Entered sent)) (alone t cs (Returned None))"
  using token_step.Changed [where s = "alone t cs (Entered sent)" and i = 0 and sent = sent] by (simp add: alone_def)

lemma alone_leads: "token_step (alone t cs (Entered t)) (leading t cs)"
  using token_step.Lead [where s = "alone t cs (Entered t)" and i = 0 and sent = t] by (simp add: alone_def leading_def)

lemma alone_succeeds:
  "token_step (leading t cs) (alone t' (cs @ [Running]) (Closing (length cs) None False))"
  using token_step.Succeed [where s = "leading t cs" and i = 0 and c = "length cs" and sent = t and t = t'] by (simp add: alone_def leading_def)

lemma alone_fails:
  "token_step (leading t cs)
     (alone t (cs @ [Running]) (Closing (length cs) (Some (wrapf ''token refresh failed: '' e)) False))"
  using token_step.Fail [where s = "leading t cs" and i = 0 and c = "length cs" and sent = t and e = e] by (simp add: alone_def leading_def)

lemma alone_closes:
  "token_step (alone t (cs @ [Running]) (Closing (length cs) r False)) (alone t (cs @ [Finished r]) (Returned r))"
  using token_step.Close [where s = "alone t (cs @ [Running]) (Closing (length cs) r False)" and i = 0 and c = "length cs"
    and r = r and panicking = False]
  by (simp add: alone_def)

lemma alone_runs:
  assumes "token_step (leading t cs) (alone t' (cs @ [Running]) (Closing (length cs) r False))"
  shows "token_step\<^sup>*\<^sup>* (alone t cs (Entered t)) (alone t' (cs @ [Finished r]) (Returned r))"
  using alone_leads assms alone_closes
  by (rule converse_rtranclp_into_rtranclp [OF _ converse_rtranclp_into_rtranclp [OF _ r_into_rtranclp]])


definition renewing :: "response list env" where
  "renewing = scripted\<lparr>refresh_cb := Some (\<lambda>t w. (Inr (''new-'' @ t), w))\<rparr>"


end
