(* ===== verification/Spec2Isabelle.thy ===== *)
theory Spec2Isabelle
  imports RollbackProps DependencyProps DebuggerProps CustExportProps TextElements Patch Query TransportProps TransportList LockMap TokenSource Versions Verify UnitTest
begin

text \<open>
  A model of \<^bold>\<open>adtler\<close>, a Go client for the ABAP Development Tools (ADT) interface of SAP systems, and
  proofs of what makes it correct. The code is the package \<open>src/adt\<close>; a Go function \<open>F\<close> is the definition
  \<open>F\<close> here wherever the name is free.

  \<^bold>\<open>How the client is modelled.\<close> A client (\<open>httpClient\<close>, record \<open>Effects.cl\<close>) keeps a CSRF token, the
  discovery document, a cookie jar, the OAuth token it shares with its sessions and what it knows of the
  system. An operation \<open>func (c *httpClient) F(...) (T, error)\<close> is a value of type
  \<open>('w, T) go = ('w cl, err + T) state\<close>: it may return an error (\<open>Inl\<close>) or a result (\<open>Inr\<close>) and updates
  the client. The SAP system together with Go's \<open>net/http\<close> is the field \<open>send\<close> of the environment \<open>'w env\<close>,
  a function on a world of any type \<open>'w\<close>; so are the parser below \<open>encoding/xml\<close>'s struct decoder, the
  URL parser, the caller's context and the OAuth refresh callback. Nothing is assumed of them except
  where a theorem says so (\<open>honest\<close>: an error that does not come from SAP's answer is no \<open>ADTError\<close>;
  \<open>silent_401\<close>: SAP's 401 page names no exception type). Every request is recorded in the ghost field
  \<open>wire\<close>, newest first, so that a statement about what reaches SAP is a statement about that list.
  Errors are values (\<open>Errors.err\<close>): \<open>ADTError\<close>, package sentinels and Go's \<open>%w\<close> chains, which
  \<open>errors.As\<close> and \<open>errors.Is\<close> search.

  \<^bold>\<open>The theories.\<close>
  \<^item> \<open>Prelude\<close>: the functions of \<open>strings\<close> and \<open>strconv\<close> the code uses, on byte strings. \<open>Utf8\<close>: runes as
    \<open>range\<close> over a Go string finds them. \<open>Wire\<close>: \<open>url.QueryEscape\<close>, \<open>PathEscape\<close>, \<open>url.Values\<close>,
    \<open>xml.EscapeText\<close>, \<open>xml.Marshal\<close> of attributes and elements, and readers for the round trips.
  \<^item> \<open>Errors\<close> (\<open>types.go\<close>, \<open>errorkind.go\<close>): error values and their classification.
  \<^item> \<open>Effects\<close>: the monad, the environment and four notions of what an operation does, each with
    rules that follow the structure of the code: \<open>stops401\<close> (under Basic authentication nothing is sent
    after a 401), \<open>emits\<close> (every request satisfies a predicate), \<open>yields\<close> (every result does) and
    \<open>counts\<close> (how often something succeeds). \<open>Answers\<close> adds \<open>last_from\<close> and \<open>does\<close> (the last request,
    a request that was certainly made) and \<open>Sessions\<close> adds \<open>in_session\<close> (one cookie jar).
  \<^item> \<open>Client\<close> (\<open>client.go\<close>, \<open>discovery.go\<close>, \<open>redirect.go\<close>, \<open>cookiejar.go\<close>, \<open>flavor.go\<close>): credentials, the CSRF
    preflight, reads and writes with their retries, error bodies, name-space paths, redirects, sessions.
    \<open>TokenSource\<close> (\<open>tokensource.go\<close>): the shared OAuth token with any number of concurrent requests, as a
    step relation; the sequential \<open>Client.refreshAfter401\<close> refines it.
  \<^item> \<open>Repo\<close> (\<open>repository.go\<close>), \<open>Source\<close> (\<open>source.go\<close>, \<open>lock.go\<close>), \<open>LockMap\<close> (\<open>lockmap.go\<close>), \<open>Objects\<close> (\<open>object.go\<close>,
    \<open>httpservice.go\<close>), \<open>Activate\<close> (\<open>activate.go\<close>), \<open>Versions\<close> (\<open>version.go\<close>), \<open>SyntaxCheck\<close>, \<open>Verify\<close>,
    \<open>UnitTest\<close>, \<open>Lookups\<close> (\<open>search.go\<close>, \<open>ddic.go\<close>, \<open>docu.go\<close>, \<open>classrun.go\<close>, \<open>navigation.go\<close>, \<open>completion.go\<close>,
    \<open>prettyprinter.go\<close>, \<open>messageclass.go\<close>, \<open>refactoring.go\<close>): one group of definitions per operation of
    the API, followed by its lemmas.
  \<^item> \<open>Patch\<close> (\<open>patch.go\<close>), \<open>SqlText\<close> (\<open>abapsql.go\<close>, \<open>query_wrap.go\<close>) and \<open>Query\<close> (\<open>query.go\<close>): text algorithms,
    the SQL the client makes and the data preview that runs it.
  \<^item> \<open>TransportDocs\<close>, \<open>Transports\<close>, \<open>TransportList\<close> (\<open>transport.go\<close>, \<open>transport_copies.go\<close>): the documents of
    transport requests, the operations on one request, the paged list; \<open>TransportProps\<close> has their theorems.
  \<^item> \<open>Rollback\<close> (\<open>rollback.go\<close>, \<open>rollback_targets.go\<close>), \<open>Dependencies\<close> (\<open>dependencies.go\<close>), \<open>Debugger\<close>
    (\<open>debugger.go\<close>, \<open>debugger_vars.go\<close>), \<open>CustExport\<close> (\<open>custexport/export.go\<close>, \<open>config.go\<close>), each with its theorems
    in a theory of its own (\<open>RollbackProps\<close>, \<open>DependencyProps\<close>, \<open>DebuggerProps\<close>, \<open>CustExportProps\<close>), and
    \<open>TextElements\<close> (\<open>textelements.go\<close>).

  \<^bold>\<open>What the groups of lemmas show.\<close>
  \<^item> Credentials: under Basic authentication nothing follows a 401 inside a request, nor in the operations
    with a \<open>stops401\<close> lemma (\<open>GetTextElements\<close> and one path of \<open>SyntaxCheck\<close> do go on); every request carries the configured
    credential and none a placeholder; redirects stay on the origin; one OAuth refresh runs at a time, no
    request waits for ever, and the sequential client refines that step relation.
  \<^item> Writes: a source is stored at most once and its lock is delivered once; deletions are guarded by an ETag;
    a creation, an activation, a release is reported as SAP answered it; a verification leaves no program.
  \<^item> Roll-backs: only objects that the transport created and that originate in this system are deleted, and
    only after every restore succeeded; every object of the transport is accounted for in the result.
  \<^item> Searches over the system: the dependencies are exactly the nodes reachable within the depth, each once;
    the pages of the transport list and of a table export are the whole, each row once, or an error.
  \<^item> Debugging: a step is reported as the end of the program only for cause; table pages stay in the table.
  \<^item> Text: patches, SQL wrapping, pagination conditions, positions, text elements against what they mean.

  \<^bold>\<open>Bounds and fuel.\<close> A read sends at most the requests of \<open>request_bound\<close>. The polling of a release and the
  repetitions of a debugger step have the counts of the code (a step: three attempts, thirty requests at
  most); the depth of a dependency search is the code's, ten at most. Two loops have no bound in the code: the
  pages of the transport list and of a table export. They carry fuel, one unit for a page; a theorem shows
  that more units than rows are enough.

  \<^bold>\<open>Where the model is coarser than the code.\<close> Strings are byte strings; the changing of case and white
  space are those of ASCII. \<open>read_some\<close> keeps the bytes that were read before an error, and XML that breaks off
  does not parse. Deadlines of a request are part of \<open>send\<close>; pauses only look at the context, after waiting.
  Floating-point fields stay text. Goroutines are run one after the other, in \<open>GetClassDefinition\<close> and in the
  export, where any order of the results is allowed; only \<open>TokenSource\<close> interleaves. Where Go iterates over a
  map or sorts equal elements, one order is taken.

  \<^bold>\<open>Not modelled.\<close> The XML parser, the URL parser and the TLS and HTTP transport (parameters); \<open>registry.go\<close>
  and \<open>builder.go\<close>, which only delegate and configure; \<open>atc.go\<close>, \<open>enhancement.go\<close>, \<open>shortdump.go\<close>, whose
  operations are a request and a struct decoding and were left for later; \<open>export.go\<close> and \<open>abapgitsync.go\<close>,
  which hand over to ZIP and JSON encoders; the SQLite and JSON writers of the export (a parameter); the OAuth
  login under \<open>auth\<close>, of which the client sees the refresh callback only; \<open>tools/datacheck\<close>.
\<close>

end
